(* ===== verification/Prelude.thy ===== *)
theory Prelude
  imports Complex_Main "HOL-Library.Word" "HOL-Library.Multiset"
begin

text \<open>
  What every component of the development shares: the widths of Rust's machine integers,
  \<open>Result\<close> with the question-mark operator, the search from the right that
  \<open>Iterator::rposition\<close> performs, UTF-8 strings as byte lists, decimal rendering of numbers,
  and the two collections of facts the component proofs are driven by:
  \<^item> \<open>ops\<close>: the defining equations of small operations that proofs always unfold;
  \<^item> \<open>frame\<close>: equations saying which part of a state an operation leaves alone.
\<close>

named_theorems ops \<open>defining equations of the small operations\<close>
named_theorems frame \<open>what an operation leaves unchanged\<close>

section \<open>Machine integers\<close>

type_synonym u8 = "8 word"
type_synonym u16 = "16 word"
type_synonym u32 = "32 word"
type_synonym u64 = "64 word"

text \<open>\<open>u64::saturating_sub\<close>, on words of any width.\<close>

definition saturating_sub :: "'w::len word \<Rightarrow> 'w word \<Rightarrow> 'w word" where
  "saturating_sub a b = (if a < b then 0 else a - b)"

lemma unat_saturating_sub: "unat (saturating_sub a b) = unat a - unat b"
  by (simp add: saturating_sub_def word_less_nat_alt unat_sub word_le_nat_alt)

text \<open>Adding one wraps at the width; below the top it is the successor.\<close>

lemma unat_add_one: "a < b \<Longrightarrow> unat (a + 1) = unat a + 1" for a b :: "'w::len word"
proof -
  assume "a < b"
  then have "unat a < unat b" by (simp add: word_less_nat_alt)
  moreover have "unat b < 2 ^ LENGTH('w)" by simp
  ultimately have "unat a + 1 < 2 ^ LENGTH('w)" by linarith
  then show ?thesis by (simp add: unat_word_ariths)
qed

section \<open>Result and the question mark\<close>

text \<open>
  \<open>Result<T, E>\<close> is \<open>'e + 'a\<close> with the error on the left. \<open>bind_res\<close> is \<open>?\<close>: an error
  returns at once, a value goes on.
\<close>

definition bind_res :: "'e + 'a \<Rightarrow> ('a \<Rightarrow> 'e + 'b) \<Rightarrow> 'e + 'b" where
  "bind_res r f = (case r of Inl e \<Rightarrow> Inl e | Inr x \<Rightarrow> f x)"

lemma bind_res_simps [simp]:
  "bind_res (Inl e) f = Inl e"
  "bind_res (Inr x) f = f x"
  by (simp_all add: bind_res_def)

lemma bind_res_Inr_iff: "bind_res r f = Inr y \<longleftrightarrow> (\<exists>x. r = Inr x \<and> f x = Inr y)"
  by (cases r) auto

definition is_ok :: "'e + 'a \<Rightarrow> bool" where
  "is_ok r = (case r of Inl _ \<Rightarrow> False | Inr _ \<Rightarrow> True)"

lemma is_ok_simps [simp]: "\<not> is_ok (Inl e)" "is_ok (Inr x)"
  by (simp_all add: is_ok_def)

section \<open>Searching from the right\<close>

text \<open>\<open>iter().rposition(p)\<close>: the index of the last element satisfying \<open>p\<close>.\<close>

fun rposition :: "('a \<Rightarrow> bool) \<Rightarrow> 'a list \<Rightarrow> nat option" where
  "rposition p [] = None"
| "rposition p (x # xs) =
     (case rposition p xs of Some i \<Rightarrow> Some (Suc i) | None \<Rightarrow> (if p x then Some 0 else None))"

lemma rposition_None: "rposition p xs = None \<longleftrightarrow> (\<forall>x\<in>set xs. \<not> p x)"
  by (induction xs) (auto split: option.splits)

lemma rposition_Some:
  "rposition p xs = Some i \<Longrightarrow> i < length xs \<and> p (xs ! i) \<and> (\<forall>x\<in>set (drop (Suc i) xs). \<not> p x)"
proof (induction xs arbitrary: i)
  case Nil
  then show ?case by simp
next
  case (Cons x xs)
  show ?case
  proof (cases "rposition p xs")
    case None
    with Cons.prems have "i = 0" "p x" by (auto split: if_splits)
    with None show ?thesis by (simp add: rposition_None)
  next
    case (Some j)
    with Cons.prems have "i = Suc j" by simp
    with Cons.IH [OF Some] show ?thesis by simp
  qed
qed

section \<open>Numbers in decimal\<close>

text \<open>\<open>format!("{n}")\<close> of an unsigned integer.\<close>

definition digit_char :: "nat \<Rightarrow> char" where
  "digit_char d = char_of (48 + d)"

fun show_nat :: "nat \<Rightarrow> string" where
  "show_nat n = (if n < 10 then [digit_char n] else show_nat (n div 10) @ [digit_char (n mod 10)])"

declare show_nat.simps [simp del]

lemma show_nat_nonempty [simp]: "show_nat n \<noteq> []" "[] \<noteq> show_nat n"
  by (subst show_nat.simps; simp)+

lemma length_show_nat_mono: "m \<le> n \<Longrightarrow> length (show_nat m) \<le> length (show_nat n)"
proof (induction n arbitrary: m rule: less_induct)
  case (less n)
  show ?case
  proof (cases "m < 10")
    case True
    then have "length (show_nat m) = 1" by (simp add: show_nat.simps [of m])
    moreover have "length (show_nat n) > 0" by simp
    ultimately show ?thesis by linarith
  next
    case False
    with less.prems have "\<not> n < 10" "n div 10 < n" "m div 10 \<le> n div 10"
      by (auto simp: div_le_mono)
    with less.IH [of "n div 10" "m div 10"] False show ?thesis
      by (simp add: show_nat.simps [of m] show_nat.simps [of n])
  qed
qed

lemma inj_digit_char: "a < 10 \<Longrightarrow> b < 10 \<Longrightarrow> digit_char a = digit_char b \<longleftrightarrow> a = b"
proof -
  assume "a < 10" "b < 10"
  then have "of_char (digit_char a) = 48 + a" "of_char (digit_char b) = 48 + b"
    by (simp_all add: digit_char_def of_char_of)
  then show ?thesis by (metis add_left_cancel)
qed

lemma show_nat_inj: "show_nat m = show_nat n \<longleftrightarrow> m = n"
proof
  show "show_nat m = show_nat n \<Longrightarrow> m = n"
  proof (induction n arbitrary: m rule: less_induct)
    case (less n)
    show ?case
    proof (cases "m < 10 \<or> n < 10")
      case True
      with less.prems show ?thesis
        by (auto simp: show_nat.simps [of m] show_nat.simps [of n] inj_digit_char split: if_splits)
    next
      case False
      with less.prems have eq: "show_nat (m div 10) = show_nat (n div 10)"
        and d: "digit_char (m mod 10) = digit_char (n mod 10)"
        by (simp_all add: show_nat.simps [of m] show_nat.simps [of n])
      from False eq less.IH [of "n div 10" "m div 10"] have "m div 10 = n div 10" by simp
      moreover from d have "m mod 10 = n mod 10" by (simp add: inj_digit_char)
      ultimately show ?thesis by (metis div_mult_mod_eq)
    qed
  qed
qed simp

text \<open>Every character a decimal rendering uses is a digit, never a separator.\<close>

definition ascii_digit :: "char \<Rightarrow> bool" where
  "ascii_digit c \<longleftrightarrow> 48 \<le> (of_char c :: nat) \<and> (of_char c :: nat) \<le> 57"

lemma show_nat_digits: "c \<in> set (show_nat n) \<Longrightarrow> ascii_digit c"
proof (induction n rule: less_induct)
  case (less n)
  have digit: "ascii_digit (digit_char d)" if "d < 10" for d
    using that by (simp add: ascii_digit_def digit_char_def of_char_of)
  show ?case
  proof (cases "n < 10")
    case True
    with less.prems digit show ?thesis by (simp add: show_nat.simps [of n])
  next
    case False
    with less.prems less.IH [of "n div 10"] digit show ?thesis
      by (auto simp: show_nat.simps [of n])
  qed
qed

section \<open>Lists\<close>

lemma count_list_mset: "count (mset xs) x = count_list xs x"
  by (induction xs) auto

text \<open>Removing one occurrence, as the multiset of the rest.\<close>

lemma mset_remove_nth:
  "i < length xs \<Longrightarrow> mset xs = add_mset (xs ! i) (mset (take i xs @ drop (Suc i) xs))"
  by (metis id_take_nth_drop mset.simps(2) mset_append union_mset_add_mset_right)

end
