(* ===== verification/Durations.thy ===== *)
theory Durations
  imports Prelude
begin

text \<open>
  \<open>std::time::Duration\<close> as the source uses it. A duration is its number of nanoseconds, which is
  what \<open>as_nanos\<close> returns and what the derived ordering compares; the largest one is
  \<open>duration_max\<close> (\<open>u64::MAX\<close> seconds and 999999999 nanoseconds). Millisecond counts, and the
  rounding-up division \<open>div_ceil\<close> the broker backend computes its queue lifetimes with.
\<close>

type_synonym duration = nat

definition nanos_per_sec :: nat where "nanos_per_sec = 1000000000"
definition nanos_per_milli :: nat where "nanos_per_milli = 1000000"

definition duration_max :: duration where
  "duration_max = (2 ^ 64 - 1) * nanos_per_sec + 999999999"

definition from_secs :: "nat \<Rightarrow> duration" where
  "from_secs s = s * nanos_per_sec"

definition from_millis :: "nat \<Rightarrow> duration" where
  "from_millis ms = ms * nanos_per_milli"

lemma from_secs_millis: "from_secs s = from_millis (1000 * s)"
  by (simp add: from_secs_def from_millis_def nanos_per_sec_def nanos_per_milli_def)

text \<open>\<open>div_ceil\<close> on unsigned integers: the quotient, plus one when there is a remainder.\<close>

definition div_ceil :: "nat \<Rightarrow> nat \<Rightarrow> nat" where
  "div_ceil a b = (if a mod b > 0 then a div b + 1 else a div b)"

lemma div_ceil_bounds:
  assumes "0 < b"
  shows "a \<le> div_ceil a b * b \<and> div_ceil a b * b < a + b"
proof (cases "a mod b > 0")
  case True
  then have "div_ceil a b * b = a div b * b + b" by (simp add: div_ceil_def)
  with True div_mult_mod_eq [of a b] mod_less_divisor [OF assms, of a] show ?thesis by linarith
next
  case False
  then have "div_ceil a b * b = a div b * b" by (simp add: div_ceil_def)
  with False assms div_mult_mod_eq [of a b] show ?thesis by linarith
qed

lemmas div_ceil_upper = div_ceil_bounds [THEN conjunct1]
lemmas div_ceil_lower = div_ceil_bounds [THEN conjunct2]

lemma div_ceil_zero [simp]: "div_ceil 0 b = 0"
  by (simp add: div_ceil_def)

lemma div_ceil_mult [simp]: "0 < b \<Longrightarrow> div_ceil (k * b) b = k"
  by (simp add: div_ceil_def)

lemma div_ceil_least: "0 < b \<Longrightarrow> a \<le> k * b \<Longrightarrow> div_ceil a b \<le> k"
proof -
  assume b: "0 < b" and "a \<le> k * b"
  with div_ceil_lower [OF b, of a] have "div_ceil a b * b < k * b + b" by linarith
  then have "div_ceil a b * b < Suc k * b" by simp
  with b show ?thesis by (metis less_Suc_eq_le mult_less_cancel2)
qed

lemma div_ceil_mono: "0 < b \<Longrightarrow> a \<le> a' \<Longrightarrow> div_ceil a b \<le> div_ceil a' b"
  using div_ceil_least div_ceil_upper order_trans by blast

end
