(* ===== verification/F64.thy ===== *)
theory F64
  imports Durations "HOL-Library.Log_Nat"
begin

text \<open>
  IEEE 754 double precision, as far as the retry arithmetic of the program uses it: values,
  rounding to nearest with ties to even, addition, multiplication, division, comparison, \<open>clamp\<close>,
  and the two conversions between \<open>Duration\<close> and seconds of the standard library
  (\<open>as_secs_f64\<close>, \<open>try_from_secs_f64\<close>). A finite double is the rational number it denotes; the
  two zeros are one value, which no operation used here tells apart. \<open>powf\<close> has no exactly
  specified result and is a parameter where it is used. The lemmas bound the rounding error and
  show that a duration of less than \<open>2^23\<close> seconds survives the trip through seconds exactly.
\<close>

datatype f64 = NaN | PInf | NInf | Fin rat

section \<open>Rounding\<close>

text \<open>Round a rational to the nearest integer, ties to the even one.\<close>

definition rne :: "rat \<Rightarrow> int" where
  "rne x = (let f = \<lfloor>x\<rfloor>; r = x - of_int f in
     if r < 1 / 2 then f else if 1 / 2 < r then f + 1 else if even f then f else f + 1)"

lemma rne_error: "\<bar>of_int (rne x) - x\<bar> \<le> 1 / 2"
proof -
  define f where "f = \<lfloor>x\<rfloor>"
  have "of_int f \<le> x" "x < of_int f + 1" unfolding f_def by linarith+
  then show ?thesis by (auto simp: rne_def Let_def abs_if f_def [symmetric])
qed

lemma rne_of_int [simp]: "rne (of_int n) = n"
  by (simp add: rne_def)

lemma rne_unique:
  assumes "\<bar>x - of_int n\<bar> < 1 / 2"
  shows "rne x = n"
proof -
  have "\<bar>(of_int (rne x) :: rat) - of_int n\<bar> < 1"
    using rne_error [of x] assms by linarith
  then have "\<bar>of_int (rne x - n) :: rat\<bar> < 1" by simp
  then show ?thesis by linarith
qed

lemma rne_nonneg: "0 \<le> x \<Longrightarrow> 0 \<le> rne x"
proof -
  assume "0 \<le> x"
  then have "(0::int) \<le> \<lfloor>x\<rfloor>" by simp
  then show ?thesis by (simp add: rne_def Let_def)
qed

text \<open>The position of the leading bit of a positive rational: the exponent of its binade.\<close>

definition flog2 :: "rat \<Rightarrow> int" where
  "flog2 x = (let (p, q) = quotient_of x; k = bitlen p - bitlen q in
     if 2 powi k \<le> x then k else k - 1)"

lemma bitlen_powi_bounds:
  assumes "0 < a"
  shows "2 powi (bitlen a - 1) \<le> (of_int a :: rat)" "(of_int a :: rat) < 2 powi (bitlen a)"
proof -
  have pos: "0 < bitlen a" using assms bitlen_nonneg [of a] bitlen_eq_zero_iff [of a] by linarith
  have bb: "2 ^ nat (bitlen a - 1) \<le> a" "a < 2 ^ nat (bitlen a)"
    using bitlen_bounds [OF assms] by auto
  have "(of_int (2 ^ nat (bitlen a - 1)) :: rat) \<le> of_int a"
    using bb(1) by (simp only: of_int_le_iff)
  then show "2 powi (bitlen a - 1) \<le> (of_int a :: rat)"
    using pos by (simp add: power_int_def)
  have "(of_int a :: rat) < of_int (2 ^ nat (bitlen a))"
    using bb(2) by (simp only: of_int_less_iff)
  then show "(of_int a :: rat) < 2 powi (bitlen a)"
    using pos by (simp add: power_int_def)
qed

lemma flog2_bounds:
  assumes "0 < x"
  shows "2 powi (flog2 x) \<le> x" "x < 2 powi (flog2 x + 1)"
proof -
  obtain p q where pq: "quotient_of x = (p, q)" by (cases "quotient_of x")
  have q: "0 < q" using pq by (rule quotient_of_denom_pos)
  have x: "x = of_int p / of_int q" using pq by (rule quotient_of_div)
  have p: "0 < p" using assms q by (auto simp: x zero_less_divide_iff)
  define k where "k = bitlen p - bitlen q"
  note P = bitlen_powi_bounds [OF p] and Q = bitlen_powi_bounds [OF q]
  have qpos: "(0::rat) < of_int q" using q by simp
  have low: "2 powi (k - 1) < x"
  proof -
    have "2 powi (k - 1) * (of_int q :: rat) < 2 powi (k - 1) * 2 powi (bitlen q)"
      using Q(2) by (simp add: mult_strict_left_mono)
    also have "\<dots> = 2 powi (bitlen p - 1)"
      by (simp add: power_int_add [symmetric] k_def)
    also have "\<dots> \<le> of_int p" by (rule P(1))
    finally show ?thesis using qpos by (simp add: x pos_less_divide_eq)
  qed
  have high: "x < 2 powi (k + 1)"
  proof -
    have "(of_int p :: rat) < 2 powi (bitlen p)" by (rule P(2))
    also have "\<dots> = 2 powi (k + 1) * 2 powi (bitlen q - 1)"
      by (simp add: power_int_add [symmetric] k_def)
    also have "\<dots> \<le> 2 powi (k + 1) * of_int q"
      using Q(1) by (simp add: mult_left_mono)
    finally show ?thesis using qpos by (simp add: x pos_divide_less_eq)
  qed
  have f: "flog2 x = (if 2 powi k \<le> x then k else k - 1)"
    by (simp add: flog2_def pq k_def)
  show "2 powi (flog2 x) \<le> x" using low by (simp add: f)
  show "x < 2 powi (flog2 x + 1)" using high by (simp add: f)
qed

lemma flog2_less:
  assumes "0 < x" "x < 2 powi k"
  shows "flog2 x < k"
proof -
  have "(2::rat) powi (flog2 x) < 2 powi k"
    using flog2_bounds(1) [OF assms(1)] assms(2) by linarith
  then show ?thesis by (meson less_le_not_le not_less power_int_increasing one_le_numeral)
qed

text \<open>
  A positive rational is rounded on the grid of its binade: 53 significant bits, never finer than
  \<open>2^(-1074)\<close>; a result past the largest binade is infinity.
\<close>

definition ulp_exp :: "rat \<Rightarrow> int" where
  "ulp_exp x = max (flog2 x - 52) (- 1074)"

definition f64_limit :: rat where
  "f64_limit = 2 ^ 1024"

definition round_pos :: "rat \<Rightarrow> f64" where
  "round_pos x = (let e = ulp_exp x; v = of_int (rne (x / 2 powi e)) * 2 powi e in
     if f64_limit \<le> v then PInf else Fin v)"

definition fneg :: "f64 \<Rightarrow> f64" where
  "fneg v = (case v of NaN \<Rightarrow> NaN | PInf \<Rightarrow> NInf | NInf \<Rightarrow> PInf | Fin x \<Rightarrow> Fin (- x))"

definition round_f64 :: "rat \<Rightarrow> f64" where
  "round_f64 x = (if x = 0 then Fin 0 else if 0 < x then round_pos x else fneg (round_pos (- x)))"

section \<open>Arithmetic\<close>

definition is_finite :: "f64 \<Rightarrow> bool" where
  "is_finite v = (case v of Fin _ \<Rightarrow> True | _ \<Rightarrow> False)"

text \<open>The comparisons are false as soon as one side is NaN.\<close>

fun flt :: "f64 \<Rightarrow> f64 \<Rightarrow> bool" where
  "flt NaN _ = False"
| "flt _ NaN = False"
| "flt PInf _ = False"
| "flt _ PInf = True"
| "flt _ NInf = False"
| "flt NInf _ = True"
| "flt (Fin x) (Fin y) = (x < y)"

fun fle :: "f64 \<Rightarrow> f64 \<Rightarrow> bool" where
  "fle NaN _ = False"
| "fle _ NaN = False"
| "fle _ PInf = True"
| "fle PInf _ = False"
| "fle NInf _ = True"
| "fle _ NInf = False"
| "fle (Fin x) (Fin y) = (x \<le> y)"

fun fadd :: "f64 \<Rightarrow> f64 \<Rightarrow> f64" where
  "fadd NaN _ = NaN"
| "fadd _ NaN = NaN"
| "fadd PInf NInf = NaN"
| "fadd NInf PInf = NaN"
| "fadd PInf _ = PInf"
| "fadd _ PInf = PInf"
| "fadd NInf _ = NInf"
| "fadd _ NInf = NInf"
| "fadd (Fin x) (Fin y) = round_f64 (x + y)"

definition signed_inf :: "bool \<Rightarrow> f64" where
  "signed_inf neg = (if neg then NInf else PInf)"

fun fmul :: "f64 \<Rightarrow> f64 \<Rightarrow> f64" where
  "fmul NaN _ = NaN"
| "fmul _ NaN = NaN"
| "fmul (Fin x) (Fin y) = round_f64 (x * y)"
| "fmul (Fin x) v = (if x = 0 then NaN else signed_inf ((x < 0) \<noteq> (v = NInf)))"
| "fmul v (Fin y) = (if y = 0 then NaN else signed_inf ((y < 0) \<noteq> (v = NInf)))"
| "fmul v w = signed_inf (v \<noteq> w)"

text \<open>\<open>f64::clamp\<close> panics (\<open>None\<close>) unless \<open>min <= max\<close>.\<close>

definition fclamp :: "f64 \<Rightarrow> f64 \<Rightarrow> f64 \<Rightarrow> f64 option" where
  "fclamp v lo hi =
     (if fle lo hi then Some (if flt v lo then lo else if flt hi v then hi else v) else None)"

section \<open>Durations as seconds\<close>

text \<open>\<open>(secs as f64) + (nanos as f64) / 1e9\<close>, each step rounded.\<close>

definition as_secs_f64 :: "duration \<Rightarrow> f64" where
  "as_secs_f64 d =
     fadd (round_f64 (of_nat (d div nanos_per_sec)))
          (round_f64 (of_nat (d mod nanos_per_sec) / of_nat nanos_per_sec))"

text \<open>
  \<open>Duration::try_from_secs_f64\<close>: an error (\<open>None\<close>) for a negative, infinite or NaN argument and
  for one of \<open>2^64\<close> seconds or more; otherwise the nearest nanosecond, ties to even.
\<close>

definition try_from_secs_f64 :: "f64 \<Rightarrow> duration option" where
  "try_from_secs_f64 v = (case v of
       Fin x \<Rightarrow> (if x < 0 \<or> 2 ^ 64 \<le> x then None else Some (nat (rne (x * of_nat nanos_per_sec))))
     | _ \<Rightarrow> None)"

section \<open>Rounding error\<close>

lemma ulp_scaled:
  assumes "0 < x"
  shows "\<bar>of_int (rne (x / 2 powi (ulp_exp x))) * 2 powi (ulp_exp x) - x\<bar> \<le> 2 powi (ulp_exp x - 1)"
proof -
  define u :: rat where "u = 2 powi (ulp_exp x)"
  have u: "0 < u" by (simp add: u_def)
  have "\<bar>of_int (rne (x / u)) * u - x\<bar> = \<bar>of_int (rne (x / u)) - x / u\<bar> * u"
    using u by (simp add: abs_mult_pos left_diff_distrib less_imp_le)
  also have "\<dots> \<le> 1 / 2 * u"
    using rne_error [of "x / u"] u by (intro mult_right_mono) auto
  also have "\<dots> = 2 powi (ulp_exp x - 1)"
    by (simp add: u_def power_int_diff)
  finally show ?thesis by (simp add: u_def)
qed

lemma round_pos_cases:
  assumes "0 < x"
  shows "round_pos x = PInf \<or>
    (\<exists>v. round_pos x = Fin v \<and> 0 \<le> v \<and> \<bar>v - x\<bar> \<le> 2 powi (ulp_exp x - 1))"
proof -
  have "(0::int) \<le> rne (x / 2 powi (ulp_exp x))"
    using assms by (intro rne_nonneg) (simp add: less_imp_le)
  with ulp_scaled [OF assms] show ?thesis
    by (auto simp: round_pos_def Let_def)
qed

lemma round_f64_nonneg:
  assumes "0 \<le> x"
  shows "round_f64 x = PInf \<or> (\<exists>v. round_f64 x = Fin v \<and> 0 \<le> v)"
  using assms round_pos_cases [of x] by (auto simp: round_f64_def)

lemma powi_le_limit: "k \<le> 1024 \<Longrightarrow> 2 powi k \<le> f64_limit"
  using power_int_increasing [of k 1024 "2::rat"]
  by (simp add: f64_limit_def power_int_def [of _ 1024] del: power_numeral_even power_numeral_odd)

text \<open>Numbers of at most 1000 bits round to finite doubles, with half a unit of error.\<close>

lemma round_f64_small:
  assumes "0 \<le> x" "x < 2 powi k" "k \<le> 1000" "- 1021 \<le> k"
  shows "\<exists>v. round_f64 x = Fin v \<and> 0 \<le> v \<and> \<bar>v - x\<bar> \<le> 2 powi (k - 54)"
proof (cases "x = 0")
  case True
  then show ?thesis by (simp add: round_f64_def)
next
  case False
  with assms have x: "0 < x" by simp
  have e: "ulp_exp x \<le> k - 53"
    using flog2_less [OF x assms(2)] assms(4) by (simp add: ulp_exp_def)
  then have "2 powi (ulp_exp x - 1) \<le> (2::rat) powi (k - 54)"
    by (intro power_int_increasing) auto
  note bound = order_trans [OF ulp_scaled [OF x] this]
  define v :: rat where "v = of_int (rne (x / 2 powi (ulp_exp x))) * 2 powi (ulp_exp x)"
  have "(2::rat) powi (k - 54) \<le> 2 powi k"
    by (intro power_int_increasing) auto
  with bound assms(2) have "v < 2 powi k + 2 powi k"
    by (simp add: v_def abs_le_iff)
  also have "\<dots> = 2 powi (k + 1)" by (simp add: power_int_add)
  also have "\<dots> \<le> f64_limit"
    using assms(3) by (intro powi_le_limit) simp
  finally have "\<not> f64_limit \<le> v" by simp
  then have "round_f64 x = Fin v" using x by (simp add: round_f64_def round_pos_def v_def Let_def)
  moreover have "0 \<le> v" unfolding v_def
    using x rne_nonneg [of "x / 2 powi (ulp_exp x)"] by simp
  ultimately show ?thesis using bound by (auto simp: v_def)
qed

text \<open>
  What has at most 53 significant bits above \<open>2^(-1074)\<close> is a double and rounds to itself; every
  result of a rounding has this form, so rounding twice changes nothing.
\<close>

lemma round_f64_grid:
  assumes k: "k < 2 ^ 53" and e: "- 1074 \<le> e" and lim: "of_nat k * 2 powi e < f64_limit"
  shows "round_f64 (of_nat k * 2 powi e) = Fin (of_nat k * 2 powi e)"
proof (cases "k = 0")
  case True
  then show ?thesis by (simp add: round_f64_def)
next
  case False
  define x :: rat where "x = of_nat k * 2 powi e"
  have x: "0 < x" using False by (simp add: x_def)
  have "(of_nat k :: rat) < of_nat (2 ^ 53)" using k by (simp only: of_nat_less_iff)
  then have "(of_nat k :: rat) < 2 powi 53" by (simp add: power_int_def)
  then have "x < 2 powi 53 * 2 powi e" by (simp add: x_def)
  then have "x < 2 powi (53 + e)" by (simp add: power_int_add)
  then have "flog2 x < 53 + e" using x by (rule flog2_less [rotated])
  then have u: "ulp_exp x \<le> e" using e by (simp add: ulp_exp_def)
  define w :: rat where "w = 2 powi (ulp_exp x)"
  have "x / w = of_nat k * 2 powi (e - ulp_exp x)"
    by (simp add: x_def w_def power_int_diff)
  also have "\<dots> = of_int (int k * 2 ^ nat (e - ulp_exp x))"
    using u by (simp add: power_int_def)
  finally have m: "x / w = of_int (int k * 2 ^ nat (e - ulp_exp x))" .
  have "of_int (rne (x / w)) * w = x / w * w" by (simp only: m rne_of_int)
  also have "\<dots> = x" by (simp add: w_def)
  finally have "of_int (rne (x / 2 powi (ulp_exp x))) * 2 powi (ulp_exp x) = x"
    by (simp only: w_def)
  with x lim show ?thesis by (simp add: round_f64_def round_pos_def Let_def x_def [symmetric])
qed

lemma round_f64_of_nat: "n < 2 ^ 53 \<Longrightarrow> round_f64 (of_nat n) = Fin (of_nat n)"
proof -
  assume n: "n < 2 ^ 53"
  then have "(of_nat n :: rat) < of_nat (2 ^ 53)" by (simp only: of_nat_less_iff)
  then have "(of_nat n :: rat) < 2 powi 53" by (simp add: power_int_def)
  with powi_le_limit [of 53] have "(of_nat n :: rat) * 2 powi 0 < f64_limit" by simp
  from round_f64_grid [OF n _ this] show ?thesis by simp
qed

lemma round_f64_idem:
  assumes "0 \<le> x" "round_f64 x = Fin v"
  shows "round_f64 v = Fin v"
proof (cases "x = 0")
  case True
  with assms show ?thesis by (simp add: round_f64_def split: if_splits)
next
  case False
  with assms have x: "0 < x" by simp
  define e where "e = ulp_exp x"
  define n where "n = rne (x / 2 powi e)"
  have n0: "0 \<le> n" unfolding n_def using x by (intro rne_nonneg) (simp add: less_imp_le)
  have v: "v = of_int n * 2 powi e" "v < f64_limit"
    using assms x by (auto simp: round_f64_def round_pos_def Let_def n_def e_def split: if_splits)
  have e: "- 1074 \<le> e" "flog2 x \<le> 52 + e" by (auto simp: e_def ulp_exp_def)
  have "x < 2 powi (flog2 x + 1)" using flog2_bounds [OF x] by blast
  also have "\<dots> \<le> (2::rat) powi (53 + e)" using e by (intro power_int_increasing) auto
  finally have "x / 2 powi e < 2 powi 53" by (simp add: power_int_add divide_less_eq)
  with rne_error [of "x / 2 powi e"] have "(of_int n :: rat) < 2 ^ 53 + 1"
    unfolding n_def power_int_numeral abs_le_iff by linarith
  then have "(of_int n :: rat) < of_int (2 ^ 53 + 1)" by simp
  then have n53: "n \<le> 2 ^ 53" by (simp only: of_int_less_iff)
  show ?thesis
  proof (cases "n = 2 ^ 53")
    case True
    then have v': "v = of_nat (2 ^ 52) * 2 powi (e + 1)" by (simp add: v power_int_add)
    show ?thesis unfolding v' by (rule round_f64_grid) (use e v(2) v' in auto)
  next
    case False
    then have v': "v = of_nat (nat n) * 2 powi e" using n0 by (simp add: v)
    show ?thesis unfolding v' by (rule round_f64_grid) (use e v(2) v' False n53 n0 in auto)
  qed
qed

section \<open>The round trip through seconds\<close>

lemma fadd_nonneg:
  assumes "v = PInf \<or> (\<exists>x. v = Fin x \<and> 0 \<le> x)" "w = PInf \<or> (\<exists>x. w = Fin x \<and> 0 \<le> x)"
  shows "fadd v w = PInf \<or> (\<exists>x. fadd v w = Fin x \<and> 0 \<le> x)"
proof (cases v)
  case (Fin x)
  show ?thesis
  proof (cases w)
    case (Fin y)
    with \<open>v = Fin x\<close> assms round_f64_nonneg [of "x + y"] show ?thesis by simp
  qed (use assms \<open>v = Fin x\<close> in auto)
qed (use assms in auto)

lemma as_secs_nonneg: "as_secs_f64 d = PInf \<or> (\<exists>x. as_secs_f64 d = Fin x \<and> 0 \<le> x)"
  unfolding as_secs_f64_def by (intro fadd_nonneg round_f64_nonneg) auto

text \<open>Below \<open>2^22\<close> seconds (48 days) the conversion is off by less than half a nanosecond.\<close>

lemma as_secs_error:
  assumes "d < 2 ^ 22 * nanos_per_sec"
  obtains v where "as_secs_f64 d = Fin v" "0 \<le> v" "v < 2 ^ 23"
    "\<bar>v * of_nat nanos_per_sec - of_nat d\<bar> < 1 / 2"
proof -
  define S N where "S = d div nanos_per_sec" and "N = d mod nanos_per_sec"
  have dSN: "d = S * nanos_per_sec + N" by (simp add: S_def N_def)
  have N: "N < nanos_per_sec" by (simp add: N_def nanos_per_sec_def)
  have S: "S < 2 ^ 22"
    unfolding S_def using assms by (rule less_mult_imp_div_less)
  have rS: "round_f64 (of_nat S) = Fin (of_nat S)"
    using S by (intro round_f64_of_nat) simp
  define y :: rat where "y = of_nat N / of_nat nanos_per_sec"
  have y: "0 \<le> y" "y < 1" using N by (simp_all add: y_def nanos_per_sec_def)
  obtain n where n: "round_f64 y = Fin n" "0 \<le> n" "\<bar>n - y\<bar> \<le> 2 powi (- 54)"
    using round_f64_small [of y 0] y by auto
  define x :: rat where "x = of_nat S + n"
  have "(of_nat (S + 1) :: rat) \<le> of_nat (2 ^ 22)" using S by (simp only: of_nat_le_iff)
  then have Sr: "(of_nat S :: rat) \<le> 2 ^ 22 - 1" by simp
  have p54: "(2::rat) powi (- 54) = 1 / 2 ^ 54" and p31: "(2::rat) powi (- 31) = 1 / 2 ^ 31"
    by (simp_all only: power_int_minus power_int_numeral divide_inverse mult_1)
  have n1: "n \<le> y + 1 / 2 ^ 54" using n(3) unfolding p54 by linarith
  have x0: "0 \<le> x" using n(2) by (simp add: x_def)
  have x1: "x < 2 ^ 22 + 1"
  proof -
    have "x \<le> (2 ^ 22 - 1) + (y + 1 / 2 ^ 54)" unfolding x_def using n1 Sr by (rule add_mono [rotated])
    also have "\<dots> < 2 ^ 22 + 1" using y by simp
    finally show ?thesis .
  qed
  note x = x0 x1
  then obtain v where v: "round_f64 x = Fin v" "0 \<le> v" "\<bar>v - x\<bar> \<le> 2 powi (- 31)"
    using round_f64_small [of x 23] by (auto simp: power_int_def)
  have sum: "as_secs_f64 d = Fin v"
    using rS n(1) v(1) by (simp add: as_secs_f64_def x_def y_def S_def N_def)
  have "(of_nat d :: rat) = of_nat S * of_nat nanos_per_sec + of_nat N"
    by (simp only: dSN of_nat_add of_nat_mult)
  then have d: "(of_nat d :: rat) = (of_nat S + y) * 10 ^ 9"
    by (simp add: y_def nanos_per_sec_def field_simps)
  have "\<bar>v - (of_nat S + y)\<bar> \<le> 1 / 2 ^ 31 + 1 / 2 ^ 54"
    using v(3) n(3) unfolding x_def p54 p31 by (simp only: abs_le_iff) linarith
  then have "\<bar>v - (of_nat S + y)\<bar> * 10 ^ 9 < 1 / 2" by simp
  moreover have "\<bar>v * 10 ^ 9 - of_nat d\<bar> = \<bar>v - (of_nat S + y)\<bar> * 10 ^ 9"
  proof -
    have "v * 10 ^ 9 - of_nat d = (v - (of_nat S + y)) * 10 ^ 9"
      unfolding d by (rule left_diff_distrib [symmetric])
    then show ?thesis by (simp only: abs_mult) simp
  qed
  ultimately have "\<bar>v * 10 ^ 9 - of_nat d\<bar> < 1 / 2" by (simp only:)
  moreover have "v < 2 ^ 23"
  proof -
    have "v \<le> x + 1 / 2 ^ 31" using v(3) unfolding p31 by linarith
    also have "\<dots> < (2 ^ 22 + 1) + 1 / 2 ^ 31" using x1 by simp
    also have "\<dots> < 2 ^ 23" by simp
    finally show ?thesis .
  qed
  ultimately show ?thesis using sum v(2) that by (simp add: nanos_per_sec_def)
qed

text \<open>Multiplying by one leaves the seconds of a duration as they are.\<close>

lemma fmul_one_as_secs: "fmul (as_secs_f64 d) (Fin 1) = as_secs_f64 d"
proof -
  have idem: "fadd v w = Fin x \<Longrightarrow> v = PInf \<or> (\<exists>x. v = Fin x \<and> 0 \<le> x) \<Longrightarrow>
      w = PInf \<or> (\<exists>x. w = Fin x \<and> 0 \<le> x) \<Longrightarrow> round_f64 x = Fin x" for v w x
    by (cases v; cases w) (auto intro: round_f64_idem [OF add_nonneg_nonneg])
  have "as_secs_f64 d = Fin x \<Longrightarrow> round_f64 x = Fin x" for x
    unfolding as_secs_f64_def by (erule idem) (intro round_f64_nonneg; simp)+
  with as_secs_nonneg [of d] show ?thesis by (auto simp: signed_inf_def)
qed

lemma secs_round_trip:
  assumes "d < 2 ^ 22 * nanos_per_sec"
  shows "try_from_secs_f64 (as_secs_f64 d) = Some d"
proof -
  obtain v where v: "as_secs_f64 d = Fin v" "0 \<le> v" "v < 2 ^ 23"
    "\<bar>v * of_nat nanos_per_sec - of_nat d\<bar> < 1 / 2"
    using as_secs_error [OF assms] .
  have "rne (v * of_nat nanos_per_sec) = int d"
    by (rule rne_unique) (use v(4) in simp)
  with v show ?thesis by (simp add: try_from_secs_f64_def)
qed

end
