(* ===== verification/Retry.thy ===== *)
theory Retry
  imports F64
begin

text \<open>
  \<open>crates/core/src/retry.rs\<close>: backoff curves, retry policies and the arithmetic behind
  \<open>Backoff::delay_for\<close>. A function of the source that could panic returns an option here, \<open>None\<close>
  being the panic, so that the contract \<open>must never panic\<close> is a theorem and not a modelling choice.
  Two things are not the program's own and stay parameters, bundled in \<open>platform\<close>: \<open>f64::powf\<close>,
  whose precision Rust leaves to the platform, and the draw of the \<open>rand\<close> crate.
\<close>

section \<open>Policies\<close>

datatype backoff =
    BackoffNone
  | Fixed duration
  | Exponential (base: duration) (factor: f64) (cap: duration) (jitter: bool)

definition exponential_with :: "duration \<Rightarrow> f64 \<Rightarrow> duration \<Rightarrow> bool \<Rightarrow> backoff" where
  "exponential_with b f m j = Exponential b f m j"

definition exponential :: backoff where
  "exponential = exponential_with (from_secs 1) (Fin 2) (from_secs 300) True"

record retry_policy =
  max_attempts :: u32
  backoff :: backoff

definition default_policy :: retry_policy where
  "default_policy = \<lparr>max_attempts = 1, backoff = BackoffNone\<rparr>"

definition policy_new :: "u32 \<Rightarrow> backoff \<Rightarrow> retry_policy" where
  "policy_new n b = \<lparr>max_attempts = n, backoff = b\<rparr>"

definition policy_none :: retry_policy where
  "policy_none = default_policy"

definition policy_exponential :: "u32 \<Rightarrow> retry_policy" where
  "policy_exponential n = \<lparr>max_attempts = n, backoff = exponential\<rparr>"

definition policy_fixed :: "u32 \<Rightarrow> duration \<Rightarrow> retry_policy" where
  "policy_fixed n d = \<lparr>max_attempts = n, backoff = Fixed d\<rparr>"

datatype retry_decision = Retry (delay: duration) | GiveUp

section \<open>The delay\<close>

record platform =
  powf :: "f64 \<Rightarrow> f64 \<Rightarrow> f64"
  random_range :: "f64 \<Rightarrow> f64 \<Rightarrow> f64 option"

definition exponential_delay :: "platform \<Rightarrow> duration \<Rightarrow> f64 \<Rightarrow> duration \<Rightarrow> u32 \<Rightarrow> duration option" where
  "exponential_delay p b f m failed_attempt =
     (if b = 0 \<or> m = 0 then Some 0
      else
        let exponent = round_f64 (of_nat (unat (max failed_attempt 1 - 1)));
            f' = (if is_finite f \<and> flt (Fin 0) f then f else Fin 1);
            secs = fmul (as_secs_f64 b) (powf p f' exponent)
        in if \<not> is_finite secs then Some m
           else case fclamp secs (Fin 0) (as_secs_f64 m) of
               None \<Rightarrow> None
             | Some capped \<Rightarrow> Some (min (case try_from_secs_f64 capped of Some d \<Rightarrow> d | None \<Rightarrow> m) m))"

definition full_jitter :: "platform \<Rightarrow> duration \<Rightarrow> duration option" where
  "full_jitter p d =
     (let secs = as_secs_f64 d in
      if \<not> is_finite secs \<or> fle secs (Fin 0) then Some 0
      else case random_range p (Fin 0) secs of
          None \<Rightarrow> None
        | Some sampled \<Rightarrow> Some (min (case try_from_secs_f64 sampled of Some e \<Rightarrow> e | None \<Rightarrow> d) d))"

fun compute_delay :: "platform \<Rightarrow> backoff \<Rightarrow> u32 \<Rightarrow> duration option" where
  "compute_delay p BackoffNone n = Some 0"
| "compute_delay p (Fixed d) n = Some d"
| "compute_delay p (Exponential b f m j) n =
     (case exponential_delay p b f m n of
        None \<Rightarrow> None
      | Some computed \<Rightarrow> (if j then full_jitter p computed else Some computed))"

definition delay_for :: "platform \<Rightarrow> backoff \<Rightarrow> u32 \<Rightarrow> duration option" where
  "delay_for p b failed_attempt = compute_delay p b failed_attempt"

definition decide :: "platform \<Rightarrow> retry_policy \<Rightarrow> u32 \<Rightarrow> retry_decision option" where
  "decide p pol failed_attempt =
     (if max_attempts pol \<le> failed_attempt then Some GiveUp
      else map_option Retry (delay_for p (backoff pol) failed_attempt))"

section \<open>What the platform promises\<close>

text \<open>
  \<open>random_range(0.0..=hi)\<close> returns a value of the range when \<open>hi\<close> is finite and not negative (the source
  draws from no other range; the \<open>rand\<close> crate panics on an empty range and on one that overflows);
  raising to the power zero, and raising one to any power, gives exactly one.
\<close>

definition rng_ok :: "platform \<Rightarrow> bool" where
  "rng_ok p \<longleftrightarrow> (\<forall>hi. is_finite hi \<and> fle (Fin 0) hi \<longrightarrow>
     (\<exists>v. random_range p (Fin 0) hi = Some v \<and> fle (Fin 0) v \<and> fle v hi))"

definition pow_ok :: "platform \<Rightarrow> bool" where
  "pow_ok p \<longleftrightarrow> (\<forall>f. powf p f (Fin 0) = Fin 1) \<and> (\<forall>e. powf p (Fin 1) e = Fin 1)"

section \<open>Totality and the cap\<close>

lemma fclamp_max_total: "\<exists>v. fclamp s (Fin 0) (as_secs_f64 m) = Some v"
  using as_secs_nonneg [of m] by (auto simp: fclamp_def)

lemma exponential_delay_total: "\<exists>d. exponential_delay p b f m n = Some d \<and> d \<le> m"
proof -
  define s where "s = fmul (as_secs_f64 b)
    (powf p (if is_finite f \<and> flt (Fin 0) f then f else Fin 1)
       (round_f64 (of_nat (unat (max n 1 - 1)))))"
  obtain v where v: "fclamp s (Fin 0) (as_secs_f64 m) = Some v"
    using fclamp_max_total by blast
  show ?thesis unfolding exponential_delay_def Let_def s_def [symmetric] v by simp
qed

lemma full_jitter_total:
  assumes "rng_ok p"
  shows "\<exists>d'. full_jitter p d = Some d' \<and> d' \<le> d"
proof (cases "is_finite (as_secs_f64 d) \<and> \<not> fle (as_secs_f64 d) (Fin 0)")
  case True
  then obtain x where x: "as_secs_f64 d = Fin x" "0 \<le> x"
    using as_secs_nonneg [of d] by (auto simp: is_finite_def)
  with assms obtain v where "random_range p (Fin 0) (Fin x) = Some v"
    unfolding rng_ok_def by (metis f64.case(4) fle.simps(13) is_finite_def)
  with True x show ?thesis by (auto simp: full_jitter_def Let_def)
next
  case False
  then show ?thesis by (auto simp: full_jitter_def Let_def)
qed

lemma delay_for_total:
  assumes "rng_ok p"
  shows "\<exists>d. delay_for p b n = Some d"
proof (cases b)
  case (Exponential b' f m j)
  obtain d where "exponential_delay p b' f m n = Some d"
    using exponential_delay_total by blast
  with Exponential full_jitter_total [OF assms, of d] show ?thesis
    by (auto simp: delay_for_def)
qed (simp_all add: delay_for_def)

lemma decide_total:
  assumes "rng_ok p"
  shows "\<exists>r. decide p pol n = Some r"
  using delay_for_total [OF assms] by (fastforce simp: decide_def)

lemma decide_GiveUp_iff: "decide p pol n = Some GiveUp \<longleftrightarrow> max_attempts pol \<le> n"
  by (auto simp: decide_def)

lemma decide_Retry_iff:
  "decide p pol n = Some (Retry d) \<longleftrightarrow> n < max_attempts pol \<and> delay_for p (backoff pol) n = Some d"
  by (auto simp: decide_def)

section \<open>The exact value of the curve\<close>

text \<open>
  Where the computed number of seconds is within half a nanosecond of a whole number \<open>c\<close> of
  nanoseconds, clamping and converting back give exactly \<open>min c max\<close>.
\<close>

lemma capped_delay:
  assumes v: "0 \<le> v" "\<bar>v * of_nat nanos_per_sec - of_nat c\<bar> < 1 / 2"
    and m: "m < 2 ^ 22 * nanos_per_sec"
  shows "\<exists>w. fclamp (Fin v) (Fin 0) (as_secs_f64 m) = Some w
           \<and> min (case try_from_secs_f64 w of Some d \<Rightarrow> d | None \<Rightarrow> m) m = min c m"
proof -
  obtain u where u: "as_secs_f64 m = Fin u" "0 \<le> u"
    "\<bar>u * of_nat nanos_per_sec - of_nat m\<bar> < 1 / 2"
    using as_secs_error [OF m] by metis
  have rt: "try_from_secs_f64 (Fin u) = Some m"
    using secs_round_trip [OF m] u(1) by simp
  have ns: "(0::rat) < of_nat nanos_per_sec" by (simp add: nanos_per_sec_def)
  show ?thesis
  proof (cases "u < v")
    case True
    then have "(of_nat m :: rat) - 1 / 2 < of_nat c + 1 / 2"
      using v(2) u(3) mult_strict_right_mono [OF True ns] by linarith
    then have "(of_nat m :: rat) < of_nat (c + 1)" by simp
    then have "m \<le> c" by (simp only: of_nat_less_iff)
    then show ?thesis using True u v rt by (simp add: fclamp_def)
  next
    case False
    then have le: "v * of_nat nanos_per_sec \<le> u * of_nat nanos_per_sec"
      using ns by (intro mult_right_mono) auto
    then have "(of_nat c :: rat) - 1 / 2 < of_nat m + 1 / 2"
      using v(2) u(3) by linarith
    then have "(of_nat c :: rat) < of_nat (m + 1)" by simp
    then have cm: "c \<le> m" by (simp only: of_nat_less_iff)
    have "rne (v * of_nat nanos_per_sec) = int c" by (rule rne_unique) (use v in simp)
    moreover have "\<not> 2 ^ 64 \<le> v" 
    proof
      assume "2 ^ 64 \<le> v"
      then have "(2 ^ 64 :: rat) * of_nat nanos_per_sec \<le> v * of_nat nanos_per_sec"
        using ns by (intro mult_right_mono) auto
      with v(2) have "(2 ^ 64 :: rat) * of_nat nanos_per_sec \<le> of_nat c + 1" by linarith
      also have "\<dots> \<le> of_nat (m + 1)" using cm by simp
      also have "\<dots> \<le> of_nat (2 ^ 22 * nanos_per_sec)" using m by (simp only: of_nat_le_iff)
      finally show False by (simp add: nanos_per_sec_def)
    qed
    ultimately have "try_from_secs_f64 (Fin v) = Some c"
      using v(1) by (simp add: try_from_secs_f64_def)
    with False u v cm show ?thesis by (simp add: fclamp_def)
  qed
qed

lemma exponential_delay_exact:
  assumes nz: "b \<noteq> 0" "m \<noteq> 0" and m: "m < 2 ^ 22 * nanos_per_sec"
    and secs: "fmul (as_secs_f64 b)
        (powf p (if is_finite f \<and> flt (Fin 0) f then f else Fin 1)
           (round_f64 (of_nat (unat (max n 1 - 1))))) = Fin v"
    and v: "0 \<le> v" "\<bar>v * of_nat nanos_per_sec - of_nat c\<bar> < 1 / 2"
  shows "exponential_delay p b f m n = Some (min c m)"
proof -
  obtain w where w: "fclamp (Fin v) (Fin 0) (as_secs_f64 m) = Some w"
    "min (case try_from_secs_f64 w of Some d \<Rightarrow> d | None \<Rightarrow> m) m = min c m"
    using capped_delay [OF v m] by blast
  show ?thesis
    using nz w unfolding exponential_delay_def Let_def secs by (simp add: is_finite_def)
qed

lemma delay_for_at_most:
  assumes "rng_ok p"
  shows "\<exists>d. delay_for p (Exponential b f m j) n = Some d \<and> d \<le> m"
proof -
  obtain d where d: "exponential_delay p b f m n = Some d" "d \<le> m"
    using exponential_delay_total by blast
  obtain d' where "full_jitter p d = Some d'" "d' \<le> d"
    using full_jitter_total [OF assms] by blast
  with d show ?thesis by (simp add: delay_for_def)
qed

text \<open>C25: a delay of the exponential backoff never panics and never exceeds its \<open>max\<close>, jitter
  included, for every base, factor (NaN and infinities too), cap and attempt number.\<close>

theorem exponential_backoff_total_and_capped:
  assumes "rng_ok p"
  shows "\<exists>d. delay_for p (Exponential b f m j) n = Some d \<and> d \<le> m"
  using assms by (rule delay_for_at_most)

definition example_platform :: platform where
  "example_platform = \<lparr>powf = (\<lambda>f e. if e = Fin 0 \<or> f = Fin 1 then Fin 1 else Fin 4),
     random_range = (\<lambda>lo hi. Some lo)\<rparr>"

lemma example_platform_ok: "rng_ok example_platform" "pow_ok example_platform"
proof -
  have "fle lo lo" if "is_finite lo" for lo
    using that by (cases lo) (simp_all add: is_finite_def)
  then show "rng_ok example_platform" by (auto simp: rng_ok_def example_platform_def)
  show "pow_ok example_platform" by (simp add: pow_ok_def example_platform_def)
qed

theorem exponential_backoff_total_and_capped_witness:
  "\<exists>d. delay_for example_platform (Exponential (from_secs 1) NaN (from_secs 60) True) 7 = Some d
     \<and> d \<le> from_secs 60"
  using exponential_backoff_total_and_capped [OF example_platform_ok(1)] .

text \<open>the first retry waits exactly \<open>base\<close>, and a factor that is not a positive finite number
  makes every retry wait exactly \<open>base\<close> (both cut off at \<open>max\<close>), for delays of less than 48 days.\<close>

theorem backoff_base_delay_exact:
  assumes pow: "pow_ok p" and small: "b < 2 ^ 22 * nanos_per_sec" "m < 2 ^ 22 * nanos_per_sec"
    and "n \<le> 1 \<or> \<not> (is_finite f \<and> flt (Fin 0) f)"
  shows "delay_for p (Exponential b f m False) n = Some (min b m)"
proof (cases "b = 0 \<or> m = 0")
  case True
  then show ?thesis by (auto simp: delay_for_def exponential_delay_def)
next
  case False
  obtain v where v: "as_secs_f64 b = Fin v" "0 \<le> v"
    "\<bar>v * of_nat nanos_per_sec - of_nat b\<bar> < 1 / 2"
    using as_secs_error [OF small(1)] by metis
  have "max n 1 - 1 = 0" if "n \<le> 1" using that by (simp add: max_def)
  moreover have "round_f64 0 = Fin 0" by (simp add: round_f64_def)
  ultimately have "powf p (if is_finite f \<and> flt (Fin 0) f then f else Fin 1)
      (round_f64 (of_nat (unat (max n 1 - 1)))) = Fin 1"
    using assms(4) pow by (auto simp: pow_ok_def)
  then have "fmul (as_secs_f64 b)
      (powf p (if is_finite f \<and> flt (Fin 0) f then f else Fin 1)
         (round_f64 (of_nat (unat (max n 1 - 1))))) = Fin v"
    using fmul_one_as_secs [of b] v(1) by simp
  with False small v(2,3) have "exponential_delay p b f m n = Some (min b m)"
    by (intro exponential_delay_exact) auto
  then show ?thesis by (simp add: delay_for_def)
qed

theorem backoff_base_delay_exact_witness:
  "delay_for example_platform (Exponential (from_millis 250) PInf (from_secs 60) False) 9
     = Some (from_millis 250)"
  using backoff_base_delay_exact [OF example_platform_ok(2),
      of "from_millis 250" "from_secs 60" 9 PInf]
  by (simp add: is_finite_def from_millis_def from_secs_def nanos_per_sec_def nanos_per_milli_def)

lemma doubling_delay:
  assumes pw: "powf p (Fin 2) (Fin (of_nat (unat n - 1))) = Fin (2 ^ (unat n - 1))"
    and n: "1 \<le> n" and s: "s * 2 ^ (unat n - 1) < 2 ^ 53" and m: "m < 2 ^ 22 * nanos_per_sec"
  shows "delay_for p (Exponential (from_secs s) (Fin 2) m False) n
    = Some (min (from_secs s * 2 ^ (unat n - 1)) m)"
proof (cases "s = 0 \<or> m = 0")
  case True
  then show ?thesis by (auto simp: delay_for_def exponential_delay_def from_secs_def)
next
  case False
  define k where "k = unat n - 1"
  have "s \<le> s * 2 ^ k" by simp
  with s have s53: "s < 2 ^ 53" unfolding k_def by linarith
  have secs: "as_secs_f64 (from_secs s) = Fin (of_nat s)"
  proof -
    have "round_f64 (of_nat s + 0) = Fin (of_nat s)"
      using round_f64_of_nat [OF s53] by simp
    moreover have "round_f64 0 = Fin 0" by (simp add: round_f64_def)
    moreover have "from_secs s div nanos_per_sec = s" "from_secs s mod nanos_per_sec = 0"
      by (simp_all add: from_secs_def nanos_per_sec_def)
    ultimately show ?thesis
      using round_f64_of_nat [OF s53] by (simp add: as_secs_f64_def)
  qed
  have "unat (max n 1 - 1) = k"
    using n by (simp add: max_def k_def unat_sub)
  moreover have "k < 2 ^ 53"
  proof -
    have "unat n < 2 ^ LENGTH(32)" by (rule unsigned_less)
    then show ?thesis by (simp add: k_def)
  qed
  ultimately have ex: "round_f64 (of_nat (unat (max n 1 - 1))) = Fin (of_nat k)"
    by (simp only: round_f64_of_nat)
  have prod: "fmul (Fin (of_nat s)) (Fin (2 ^ k)) = Fin (of_nat (s * 2 ^ k))"
    using round_f64_of_nat [of "s * 2 ^ k"] s by (simp add: k_def)
  have cond: "is_finite (Fin 2) \<and> flt (Fin 0) (Fin 2)" by (simp add: is_finite_def)
  have val: "fmul (as_secs_f64 (from_secs s))
      (powf p (if is_finite (Fin 2) \<and> flt (Fin 0) (Fin 2) then Fin 2 else Fin 1)
         (round_f64 (of_nat (unat (max n 1 - 1))))) = Fin (of_nat (s * 2 ^ k))"
    unfolding ex if_P [OF cond] secs using prod pw by (simp only: k_def)
  have "exponential_delay p (from_secs s) (Fin 2) m n = Some (min (from_secs s * 2 ^ k) m)"
    by (rule exponential_delay_exact [OF _ _ m val])
       (use False in \<open>simp_all add: from_secs_def nanos_per_sec_def\<close>)
  then show ?thesis by (simp add: delay_for_def k_def)
qed

end
