(* ===== verification/Queue_Config.thy ===== *)
theory Queue_Config
  imports Retry
begin

text \<open>
  \<open>crates/core/src/queue.rs\<close>: the configuration of one queue with its builders, and the trait
  \<open>QueueSet\<close> (a closed set of queues) as the record of its functions, with the provided method
  \<open>from_name\<close>. The locale \<open>queue_set_laws\<close> is what a queue set owes its users: the listed queues
  have different names, and a queue's configuration carries its name.
\<close>

record queue_config =
  qc_name :: string
  prefetch :: u16
  qc_retry :: retry_policy
  durable :: bool
  message_ttl :: "duration option"
  max_priority :: "u8 option"

definition DEFAULT_MAX_PRIORITY :: u8 where
  "DEFAULT_MAX_PRIORITY = 10"

definition queue_config_new :: "string \<Rightarrow> queue_config" where
  "queue_config_new n = \<lparr>qc_name = n, prefetch = 16, qc_retry = default_policy, durable = True,
     message_ttl = None, max_priority = Some DEFAULT_MAX_PRIORITY\<rparr>"

definition set_prefetch :: "u16 \<Rightarrow> queue_config \<Rightarrow> queue_config" where
  "set_prefetch n c = c\<lparr>prefetch := n\<rparr>"

definition set_retry :: "retry_policy \<Rightarrow> queue_config \<Rightarrow> queue_config" where
  "set_retry r c = c\<lparr>qc_retry := r\<rparr>"

definition set_durable :: "bool \<Rightarrow> queue_config \<Rightarrow> queue_config" where
  "set_durable b c = c\<lparr>durable := b\<rparr>"

definition set_message_ttl :: "duration \<Rightarrow> queue_config \<Rightarrow> queue_config" where
  "set_message_ttl t c = c\<lparr>message_ttl := Some t\<rparr>"

definition set_max_priority :: "u8 \<Rightarrow> queue_config \<Rightarrow> queue_config" where
  "set_max_priority levels c = c\<lparr>max_priority := (if 0 < levels then Some levels else None)\<rparr>"

lemmas builder_defs [ops] =
  set_prefetch_def set_retry_def set_durable_def set_message_ttl_def set_max_priority_def

text \<open>The priority a deferred job of this queue returns with: \<open>max_priority.unwrap_or(0)\<close>.\<close>

definition top_priority :: "queue_config \<Rightarrow> u8" where
  "top_priority c = (case max_priority c of Some n \<Rightarrow> n | None \<Rightarrow> 0)"

section \<open>Queue sets\<close>

record 'q queue_set =
  qs_all :: "'q list"
  qs_name :: "'q \<Rightarrow> string"
  qs_config :: "'q \<Rightarrow> queue_config"

definition from_name :: "'q queue_set \<Rightarrow> string \<Rightarrow> 'q option" where
  "from_name Q n = find (\<lambda>q. qs_name Q q = n) (qs_all Q)"

locale queue_set_laws =
  fixes all_queues :: "'q list" and queue_name :: "'q \<Rightarrow> string"
    and queue_conf :: "'q \<Rightarrow> queue_config"
  assumes names_distinct: "distinct (map queue_name all_queues)"
    and config_name: "q \<in> set all_queues \<Longrightarrow> qc_name (queue_conf q) = queue_name q"
begin

lemma name_inj: "q \<in> set all_queues \<Longrightarrow> q' \<in> set all_queues \<Longrightarrow>
    queue_name q = queue_name q' \<Longrightarrow> q = q'"
  using names_distinct by (auto simp: distinct_map inj_on_def)

lemma find_by_name: "q \<in> set all_queues \<Longrightarrow> find (\<lambda>r. queue_name r = queue_name q) all_queues = Some q"
proof -
  assume q: "q \<in> set all_queues"
  then obtain r where r: "find (\<lambda>r. queue_name r = queue_name q) all_queues = Some r"
    by (metis (mono_tags, lifting) find_None_iff option.exhaust)
  then have "queue_name r = queue_name q" "r \<in> set all_queues"
    by (auto simp: find_Some_iff)
  with q r show ?thesis using name_inj by blast
qed

lemma configs_distinct: "distinct (map (\<lambda>q. qc_name (queue_conf q)) all_queues)"
  using names_distinct by (simp add: config_name cong: map_cong)

end

text \<open>A lookup that succeeds returns a queue of the set with that name, whatever the set.\<close>

lemma from_name_SomeD: "from_name Q n = Some q \<Longrightarrow> q \<in> set (qs_all Q) \<and> qs_name Q q = n"
  by (auto simp: from_name_def find_Some_iff)

end
