(* ===== verification/Job_Error.thy ===== *)
theory Job_Error
  imports Durations
begin

text \<open>
  \<open>crates/core/src/error.rs\<close>: the infrastructure error of the core crate (its \<open>Backend\<close> case boxes
  an error of the transport, which is the type variable) and the error a job handler returns.
  A boxed error is the text it displays. \<open>show_error\<close> and \<open>show_job_error\<close> are the \<open>Display\<close>
  implementations derived from the \<open>#[error(..)]\<close> attributes.
\<close>

datatype 'b error =
    Serde string
  | Backend 'b
  | UnknownQueue string
  | NoHandler string
  | DuplicateHandler string
  | ShutDown
  | ConsumerStopped string

fun show_error :: "('b \<Rightarrow> string) \<Rightarrow> 'b error \<Rightarrow> string" where
  "show_error sb (Serde e) = ''serialization error: '' @ e"
| "show_error sb (Backend e) = ''backend error: '' @ sb e"
| "show_error sb (UnknownQueue q) = ''unknown queue `'' @ q @ ''`''"
| "show_error sb (NoHandler t) = ''no handler registered for job type `'' @ t @ ''`''"
| "show_error sb (DuplicateHandler t) = ''handler for job type `'' @ t @ ''` registered twice''"
| "show_error sb ShutDown = ''worker is shut down''"
| "show_error sb (ConsumerStopped q) = ''consumer for queue `'' @ q @ ''` stopped unexpectedly''"

datatype job_error =
    JobRetryable string
  | JobFatal string
  | JobDeferred (job_delay: duration) (job_reason: string)

definition retryable_msg :: "string \<Rightarrow> job_error" where
  "retryable_msg m = JobRetryable m"

definition fatal_msg :: "string \<Rightarrow> job_error" where
  "fatal_msg m = JobFatal m"

definition job_deferred :: "duration \<Rightarrow> job_error" where
  "job_deferred d = JobDeferred d ''deferred''"

definition deferred_msg :: "duration \<Rightarrow> string \<Rightarrow> job_error" where
  "deferred_msg d m = JobDeferred d m"

text \<open>The \<open>{:?}\<close> rendering of a duration belongs to the standard library and is an argument.\<close>

fun show_job_error :: "(duration \<Rightarrow> string) \<Rightarrow> job_error \<Rightarrow> string" where
  "show_job_error dbg (JobRetryable e) = ''job failed (retryable): '' @ e"
| "show_job_error dbg (JobFatal e) = ''job failed (fatal): '' @ e"
| "show_job_error dbg (JobDeferred d r) = ''job deferred for '' @ dbg d @ '': '' @ r"

text \<open>\<open>std::error::Error::source\<close>: a deferral wraps no other error.\<close>

fun job_error_source :: "job_error \<Rightarrow> string option" where
  "job_error_source (JobRetryable e) = Some e"
| "job_error_source (JobFatal e) = Some e"
| "job_error_source (JobDeferred _ _) = None"

end
