(* ===== verification/Envelope.thy ===== *)
theory Envelope
  imports Queue_Config Job_Error
begin

text \<open>
  \<open>crates/core/src/envelope.rs\<close> and the trait of \<open>crates/core/src/job.rs\<close>: the wire format every
  job travels in, its constructors, the two successors a failed or a deferred attempt is
  rescheduled as, and the JSON form the \<open>serde\<close> attributes of the struct fix: which fields are
  written, which may be missing and what they default to. The JSON text itself is the
  \<open>serde_json\<close> crate's and the textual form of an id the \<open>uuid\<close> crate's; both are parameters
  (\<open>wire\<close>), with the law that parsing what was printed gives it back where that is documented (\<open>wire_ok\<close>).
  The text of a decoding error is theirs too, only that there is one is modelled.
\<close>

type_synonym uuid = "128 word"

datatype json =
    JNull
  | JBool bool
  | JInt int
  | JFloat f64
  | JStr string
  | JArr "json list"
  | JObj "(string \<times> json) list"

record envelope =
  job_id :: uuid
  job_type :: string
  queue :: string
  attempt :: u32
  enqueued_at_ms :: u64
  deferrals :: u32
  priority :: u8
  correlation_id :: "string option"
  payload :: json

section \<open>Jobs\<close>

text \<open>The trait \<open>Job\<close>: its constants, its optional policy and its \<open>serde\<close> implementation.\<close>

record ('j, 'q) job =
  NAME :: string
  QUEUE :: 'q
  job_retry_policy :: "retry_policy option"
  to_value :: "'j \<Rightarrow> string + json"
  from_value :: "json \<Rightarrow> string + 'j"

section \<open>Building and rescheduling\<close>

text \<open>\<open>fresh\<close> is the id \<open>Uuid::new_v4\<close> draws and \<open>now\<close> the value of \<open>now_ms()\<close>.\<close>

definition envelope_raw :: "uuid \<Rightarrow> u64 \<Rightarrow> string \<Rightarrow> string \<Rightarrow> json \<Rightarrow> envelope" where
  "envelope_raw fresh now t q v = \<lparr>job_id = fresh, job_type = t, queue = q, attempt = 1,
     enqueued_at_ms = now, deferrals = 0, priority = 0, correlation_id = None, payload = v\<rparr>"

definition envelope_new ::
  "uuid \<Rightarrow> u64 \<Rightarrow> 'q queue_set \<Rightarrow> ('j, 'q) job \<Rightarrow> 'j \<Rightarrow> 'b error + envelope" where
  "envelope_new fresh now Q J job = (case to_value J job of
       Inl e \<Rightarrow> Inl (Serde e)
     | Inr v \<Rightarrow> Inr \<lparr>job_id = fresh, job_type = NAME J, queue = qs_name Q (QUEUE J), attempt = 1,
         enqueued_at_ms = now, deferrals = 0, priority = 0, correlation_id = None, payload = v\<rparr>)"

definition with_correlation_id :: "string \<Rightarrow> envelope \<Rightarrow> envelope" where
  "with_correlation_id c e = e\<lparr>correlation_id := Some c\<rparr>"

definition decode :: "('j, 'q) job \<Rightarrow> envelope \<Rightarrow> 'b error + 'j" where
  "decode J e = (case from_value J (payload e) of Inl m \<Rightarrow> Inl (Serde m) | Inr j \<Rightarrow> Inr j)"

definition next_attempt :: "envelope \<Rightarrow> envelope" where
  "next_attempt e = e\<lparr>attempt := attempt e + 1, priority := 0\<rparr>"

definition deferred :: "envelope \<Rightarrow> u8 \<Rightarrow> envelope" where
  "deferred e p = e\<lparr>deferrals := deferrals e + 1, priority := p\<rparr>"

text \<open>
  \<open>now_ms\<close>: milliseconds since the epoch as a \<open>u64\<close> (the \<open>as u64\<close> cast truncates), \<open>0\<close> when the
  clock reads before the epoch.
\<close>

definition now_ms :: "duration option \<Rightarrow> u64" where
  "now_ms since_epoch = (case since_epoch of
       Some d \<Rightarrow> of_nat (d div nanos_per_milli) | None \<Rightarrow> 0)"

section \<open>The JSON form\<close>

record 'body wire =
  uuid_to_json :: "uuid \<Rightarrow> json"
  uuid_of_json :: "json \<Rightarrow> uuid option"
  print_json :: "json \<Rightarrow> 'body"
  parse_json :: "'body \<Rightarrow> json option"

definition envelope_fields :: "'body wire \<Rightarrow> envelope \<Rightarrow> (string \<times> json) list" where
  "envelope_fields w e =
     [(''job_id'', uuid_to_json w (job_id e)),
      (''job_type'', JStr (job_type e)),
      (''queue'', JStr (queue e)),
      (''attempt'', JInt (uint (attempt e))),
      (''enqueued_at_ms'', JInt (uint (enqueued_at_ms e))),
      (''deferrals'', JInt (uint (deferrals e))),
      (''priority'', JInt (uint (priority e)))]
     @ (case correlation_id e of None \<Rightarrow> [] | Some c \<Rightarrow> [(''correlation_id'', JStr c)])
     @ [(''payload'', payload e)]"

text \<open>Reading one field: unknown keys are skipped, a key that occurs twice is an error.\<close>

definition field :: "string \<Rightarrow> (string \<times> json) list \<Rightarrow> 'b error + json option" where
  "field k kvs = (case filter (\<lambda>kv. fst kv = k) kvs of
       [] \<Rightarrow> Inr None
     | [kv] \<Rightarrow> Inr (Some (snd kv))
     | _ \<Rightarrow> Inl (Serde ''duplicate field''))"

definition required :: "('b error + json option) \<Rightarrow> (json \<Rightarrow> 'a option) \<Rightarrow> 'b error + 'a" where
  "required r rd = bind_res r (\<lambda>v. case v of
       None \<Rightarrow> Inl (Serde ''missing field'')
     | Some j \<Rightarrow> (case rd j of None \<Rightarrow> Inl (Serde ''invalid type or value'') | Some x \<Rightarrow> Inr x))"

definition defaulted :: "'a \<Rightarrow> ('b error + json option) \<Rightarrow> (json \<Rightarrow> 'a option) \<Rightarrow> 'b error + 'a" where
  "defaulted d r rd = bind_res r (\<lambda>v. case v of
       None \<Rightarrow> Inr d
     | Some j \<Rightarrow> (case rd j of None \<Rightarrow> Inl (Serde ''invalid type or value'') | Some x \<Rightarrow> Inr x))"

definition read_str :: "json \<Rightarrow> string option" where
  "read_str j = (case j of JStr s \<Rightarrow> Some s | _ \<Rightarrow> None)"

definition read_opt_str :: "json \<Rightarrow> string option option" where
  "read_opt_str j = (case j of JNull \<Rightarrow> Some None | JStr s \<Rightarrow> Some (Some s) | _ \<Rightarrow> None)"

definition read_uint :: "json \<Rightarrow> 'w::len word option" where
  "read_uint j = (case j of
       JInt n \<Rightarrow> (if 0 \<le> n \<and> n < 2 ^ LENGTH('w) then Some (word_of_int n) else None)
     | _ \<Rightarrow> None)"

text \<open>
  The derived \<open>Deserialize\<close> takes the fields as a source of optional values: the entries of an
  object, or, as \<open>serde\<close> also accepts, the elements of an array in declaration order.
\<close>

definition read_envelope ::
  "'body wire \<Rightarrow> (string \<Rightarrow> 'b error + json option) \<Rightarrow> 'b error + envelope" where
  "read_envelope w get =
     bind_res (required (get ''job_id'') (uuid_of_json w)) (\<lambda>i.
     bind_res (required (get ''job_type'') read_str) (\<lambda>t.
     bind_res (required (get ''queue'') read_str) (\<lambda>q.
     bind_res (required (get ''attempt'') read_uint) (\<lambda>a.
     bind_res (required (get ''enqueued_at_ms'') read_uint) (\<lambda>ms.
     bind_res (defaulted 0 (get ''deferrals'') read_uint) (\<lambda>d.
     bind_res (defaulted 0 (get ''priority'') read_uint) (\<lambda>p.
     bind_res (defaulted None (get ''correlation_id'') read_opt_str) (\<lambda>c.
     bind_res (required (get ''payload'') Some) (\<lambda>v.
       Inr \<lparr>job_id = i, job_type = t, queue = q, attempt = a, enqueued_at_ms = ms, deferrals = d,
         priority = p, correlation_id = c, payload = v\<rparr>)))))))))"

definition field_names :: "string list" where
  "field_names = [''job_id'', ''job_type'', ''queue'', ''attempt'', ''enqueued_at_ms'',
     ''deferrals'', ''priority'', ''correlation_id'', ''payload'']"

definition envelope_of_json :: "'body wire \<Rightarrow> json \<Rightarrow> 'b error + envelope" where
  "envelope_of_json w j = (case j of
       JObj kvs \<Rightarrow> read_envelope w (\<lambda>k. field k kvs)
     | JArr vs \<Rightarrow> (if length vs = length field_names
         then read_envelope w (\<lambda>k. field k (zip field_names vs))
         else Inl (Serde ''invalid length''))
     | _ \<Rightarrow> Inl (Serde ''invalid type''))"

definition to_bytes :: "'body wire \<Rightarrow> envelope \<Rightarrow> 'b error + 'body" where
  "to_bytes w e = Inr (print_json w (JObj (envelope_fields w e)))"

definition from_bytes :: "'body wire \<Rightarrow> 'body \<Rightarrow> 'b error + envelope" where
  "from_bytes w b = (case parse_json w b of
       None \<Rightarrow> Inl (Serde ''invalid JSON'')
     | Some j \<Rightarrow> envelope_of_json w j)"

text \<open>
  What the two crates document. An id is written as a string and reads back. A document reads back from
  its own text when its numbers are integers of 64 bits (floats are parsed on a best effort and one that
  is no number is printed as \<open>null\<close>), no object has a key twice, and it is nested less than 128 deep. The
  members of an object are listed in the order of its map, which is the one they are printed in.
\<close>

fun plain :: "json \<Rightarrow> bool" where
  "plain (JFloat f) = False"
| "plain (JInt n) \<longleftrightarrow> - (2 ^ 63) \<le> n \<and> n < 2 ^ 64"
| "plain (JArr vs) \<longleftrightarrow> (\<forall>v\<in>set vs. plain v)"
| "plain (JObj kvs) \<longleftrightarrow> distinct (map fst kvs) \<and> (\<forall>v\<in>set (map snd kvs). plain v)"
| "plain j = True"

fun json_depth :: "json \<Rightarrow> nat" where
  "json_depth (JArr vs) = Suc (foldr max (map json_depth vs) 0)"
| "json_depth (JObj kvs) = Suc (foldr max (map (\<lambda>kv. json_depth (snd kv)) kvs) 0)"
| "json_depth j = 0"

definition wire_ok :: "'body wire \<Rightarrow> bool" where
  "wire_ok w \<longleftrightarrow> (\<forall>u. uuid_of_json w (uuid_to_json w u) = Some u \<and> (\<exists>s. uuid_to_json w u = JStr s))
     \<and> (\<forall>j. plain j \<and> json_depth j < 128 \<longrightarrow> parse_json w (print_json w j) = Some j)"

section \<open>Lemmas\<close>

lemma read_uint_uint [simp]: "read_uint (JInt (uint x)) = Some x"
  by (simp add: read_uint_def)

lemma read_str_JStr [simp]: "read_str (JStr s) = Some s"
  by (simp add: read_str_def)

lemma read_opt_str_simps [simp]:
  "read_opt_str (JStr s) = Some (Some s)" "read_opt_str JNull = Some None"
  by (simp_all add: read_opt_str_def)

lemma required_simps [simp]:
  "required (Inr (Some j)) rd = (case rd j of None \<Rightarrow> Inl (Serde ''invalid type or value'') | Some x \<Rightarrow> Inr x)"
  "required (Inr None) rd = Inl (Serde ''missing field'')"
  by (simp_all add: required_def)

lemma defaulted_simps [simp]:
  "defaulted d (Inr (Some j)) rd =
     (case rd j of None \<Rightarrow> Inl (Serde ''invalid type or value'') | Some x \<Rightarrow> Inr x)"
  "defaulted d (Inr None) rd = Inr d"
  by (simp_all add: defaulted_def)

lemma wire_ok_uuid: "wire_ok w \<Longrightarrow> uuid_of_json w (uuid_to_json w u) = Some u"
  by (simp add: wire_ok_def)

lemma wire_ok_text: "wire_ok w \<Longrightarrow> plain j \<Longrightarrow> json_depth j < 128 \<Longrightarrow> parse_json w (print_json w j) = Some j"
  by (simp add: wire_ok_def)

lemma uint_plain: "LENGTH('w) \<le> 64 \<Longrightarrow> plain (JInt (uint (x :: 'w::len word)))"
proof -
  assume "LENGTH('w) \<le> 64"
  then have "(2::int) ^ LENGTH('w) \<le> 2 ^ 64" by (rule power_increasing) simp
  then have less: "uint x < 2 ^ 64" using order_less_le_trans [of "uint x" "2 ^ LENGTH('w)"] by simp
  have "- (2 ^ 63) \<le> (0 :: int)" by simp
  from order_trans [OF this, of "uint x"] less show ?thesis by simp
qed

text \<open>An envelope is a plain document when its payload is one.\<close>

lemma envelope_plain:
  assumes "wire_ok w" "plain (payload e)" "json_depth (payload e) < 127"
  shows "plain (JObj (envelope_fields w e))" "json_depth (JObj (envelope_fields w e)) < 128"
proof -
  obtain s where s: "uuid_to_json w (job_id e) = JStr s" using assms(1) by (auto simp: wire_ok_def)
  note num = uint_plain [of "attempt e"] uint_plain [of "enqueued_at_ms e"] uint_plain [of "deferrals e"]
    uint_plain [of "priority e"]
  show "plain (JObj (envelope_fields w e))"
    using assms(2) num by (auto simp: envelope_fields_def s split: option.splits)
  show "json_depth (JObj (envelope_fields w e)) < 128"
    using assms(3) by (auto simp: envelope_fields_def s split: option.splits)
qed

text \<open>Keys that no field is called do not matter, and neither does the position of the others.\<close>

lemma field_filter: "P k \<Longrightarrow> field k (filter (\<lambda>kv. P (fst kv)) kvs) = field k kvs"
proof -
  assume "P k"
  then have "filter (\<lambda>kv. fst kv = k) (filter (\<lambda>kv. P (fst kv)) kvs) = filter (\<lambda>kv. fst kv = k) kvs"
    by (induction kvs) auto
  then show ?thesis by (simp add: field_def)
qed

lemma field_absent: "k \<notin> fst ` set kvs \<Longrightarrow> field k kvs = Inr None"
proof -
  assume "k \<notin> fst ` set kvs"
  then have "filter (\<lambda>kv. fst kv = k) kvs = []" by (auto simp: filter_empty_conv)
  then show ?thesis by (simp add: field_def)
qed

lemma field_append_absent: "k \<notin> fst ` set extra \<Longrightarrow> field k (kvs @ extra) = field k kvs"
proof -
  assume "k \<notin> fst ` set extra"
  then have "filter (\<lambda>kv. fst kv = k) extra = []" by (auto simp: filter_empty_conv)
  then show ?thesis by (simp add: field_def)
qed

text \<open>What each field of a written envelope reads back as.\<close>

lemma envelope_field:
  "field ''job_id'' (envelope_fields w e) = Inr (Some (uuid_to_json w (job_id e)))"
  "field ''job_type'' (envelope_fields w e) = Inr (Some (JStr (job_type e)))"
  "field ''queue'' (envelope_fields w e) = Inr (Some (JStr (queue e)))"
  "field ''attempt'' (envelope_fields w e) = Inr (Some (JInt (uint (attempt e))))"
  "field ''enqueued_at_ms'' (envelope_fields w e) = Inr (Some (JInt (uint (enqueued_at_ms e))))"
  "field ''deferrals'' (envelope_fields w e) = Inr (Some (JInt (uint (deferrals e))))"
  "field ''priority'' (envelope_fields w e) = Inr (Some (JInt (uint (priority e))))"
  "field ''correlation_id'' (envelope_fields w e) = Inr (map_option JStr (correlation_id e))"
  "field ''payload'' (envelope_fields w e) = Inr (Some (payload e))"
  by (simp_all add: field_def envelope_fields_def split: option.splits)

end
