(* ===== verification/Job_Context.thy ===== *)
theory Job_Context
  imports Envelope
begin

text \<open>
  \<open>crates/core/src/handler.rs\<close> and \<open>crates/core/src/dead_letter.rs\<close>: what a handler is told about
  the attempt it runs, the handler trait with the blanket implementation for functions, and the
  report the worker makes of a job it gives up on. A handler's body is asynchronous user code; here
  it is a function to the outcome of awaiting it.
\<close>

record job_context =
  ctx_job_id :: uuid
  ctx_job_type :: string
  ctx_queue :: string
  ctx_attempt :: u32
  ctx_max_attempts :: u32
  ctx_deferrals :: u32
  ctx_priority :: u8
  ctx_age :: duration
  ctx_correlation_id :: "string option"

definition context_new ::
  "uuid \<Rightarrow> 'q queue_set \<Rightarrow> ('j, 'q) job \<Rightarrow> u32 \<Rightarrow> u32 \<Rightarrow> job_context" where
  "context_new fresh Q J att maxa = \<lparr>ctx_job_id = fresh, ctx_job_type = NAME J,
     ctx_queue = qs_name Q (QUEUE J), ctx_attempt = att, ctx_max_attempts = maxa, ctx_deferrals = 0,
     ctx_priority = 0, ctx_age = 0, ctx_correlation_id = None\<rparr>"

definition with_job_id :: "uuid \<Rightarrow> job_context \<Rightarrow> job_context" where
  "with_job_id i c = c\<lparr>ctx_job_id := i\<rparr>"

definition with_deferrals :: "u32 \<Rightarrow> job_context \<Rightarrow> job_context" where
  "with_deferrals n c = c\<lparr>ctx_deferrals := n\<rparr>"

definition with_priority :: "u8 \<Rightarrow> job_context \<Rightarrow> job_context" where
  "with_priority p c = c\<lparr>ctx_priority := p\<rparr>"

definition with_age :: "duration \<Rightarrow> job_context \<Rightarrow> job_context" where
  "with_age d c = c\<lparr>ctx_age := d\<rparr>"

definition ctx_with_correlation_id :: "string \<Rightarrow> job_context \<Rightarrow> job_context" where
  "ctx_with_correlation_id s c = c\<lparr>ctx_correlation_id := Some s\<rparr>"

definition is_last_attempt :: "job_context \<Rightarrow> bool" where
  "is_last_attempt c \<longleftrightarrow> ctx_max_attempts c \<le> ctx_attempt c"

section \<open>Handlers\<close>

text \<open>
  What becomes of a piece of user code that is awaited: it returns or panics after running for some
  time, its task is cancelled from outside (with the text of the \<open>JoinError\<close>), or it never returns. One
  that never returns either waits for ever (\<open>Hangs\<close>), where its task can be aborted, or computes for ever
  without awaiting anything (\<open>Spins\<close>), where an abort never takes effect.
\<close>

datatype 'a outcome =
    Returns duration 'a
  | Panics duration
  | Cancelled duration string
  | Hangs
  | Spins

text \<open>\<open>set_retry_policy\<close> is called by the worker itself; \<open>None\<close> is a panic in it.\<close>

record 'j job_handler =
  handle :: "'j \<Rightarrow> job_context \<Rightarrow> (job_error + unit) outcome"
  set_retry_policy :: "'j \<Rightarrow> retry_policy option option"

text \<open>The provided \<open>set_retry_policy\<close> answers \<open>None\<close>, and \<open>FnHandler\<close> does not override it.\<close>

definition default_set_retry_policy :: "'j \<Rightarrow> retry_policy option option" where
  "default_set_retry_policy j = Some None"

definition FnHandler :: "('j \<Rightarrow> job_context \<Rightarrow> (job_error + unit) outcome) \<Rightarrow> 'j job_handler" where
  "FnHandler f = \<lparr>handle = f, set_retry_policy = default_set_retry_policy\<rparr>"

section \<open>Dead letters\<close>

datatype dead_letter_cause = CauseNoHandler | CauseDecode | CauseFatal | CauseExhausted

definition reached_handler :: "dead_letter_cause \<Rightarrow> bool" where
  "reached_handler c \<longleftrightarrow> c = CauseFatal \<or> c = CauseExhausted"

record dead_letter =
  dl_envelope :: envelope
  dl_cause :: dead_letter_cause
  dl_reason :: string
  dl_max_attempts :: "u32 option"

definition dead_letter_new :: "envelope \<Rightarrow> dead_letter_cause \<Rightarrow> string \<Rightarrow> dead_letter" where
  "dead_letter_new e c r = \<lparr>dl_envelope = e, dl_cause = c, dl_reason = r, dl_max_attempts = None\<rparr>"

definition with_max_attempts :: "u32 option \<Rightarrow> dead_letter \<Rightarrow> dead_letter" where
  "with_max_attempts m d = d\<lparr>dl_max_attempts := m\<rparr>"

definition dead_attempts :: "dead_letter \<Rightarrow> u32" where
  "dead_attempts d = attempt (dl_envelope d)"

text \<open>
  A handler's view agrees with the policy's: the attempt it is told is its last is exactly the one
  the policy gives up after.
\<close>

lemma is_last_attempt_iff_GiveUp:
  "ctx_attempt c = n \<Longrightarrow> ctx_max_attempts c = max_attempts pol \<Longrightarrow>
     is_last_attempt c \<longleftrightarrow> decide p pol n = Some GiveUp"
  by (simp add: is_last_attempt_def decide_GiveUp_iff)

end
