(* ===== verification/Memory_State.thy ===== *)
theory Memory_State
  imports Envelope
begin

text \<open>
  The data of \<open>crates/core/src/memory.rs\<close> and its critical sections: every function here is what one
  hold of the backend's mutex does to the shared state. \<open>Memory_Steps\<close> interleaves them.

  A queue's \<open>consumers\<close> are the identities of the semaphores of its live consumers. The wake-up
  channel is \<open>signal\<close>, the counter \<open>wake\<close> bumps (it wraps, and nobody reads it), together with
  \<open>sends\<close>, the number of notifications the \<open>watch\<close> channel itself has seen: a receiver waits as
  long as that number is the one it saw last.
\<close>

datatype ack_kind = Succeeded | Retried | Deferred

record queue_state =
  config :: queue_config
  pending :: "envelope list"
  settled :: "(envelope \<times> ack_kind) list"
  dead :: "(envelope \<times> string) list"
  consumers :: "nat list"
  held :: nat
  signal :: u64
  sends :: nat

definition queue_state_new :: "queue_config \<Rightarrow> queue_state" where
  "queue_state_new c = \<lparr>config = c, pending = [], settled = [], dead = [], consumers = [],
     held = 0, signal = 0, sends = 0\<rparr>"

section \<open>Insertion by priority\<close>

text \<open>\<open>VecDeque::insert\<close> at a position that is at most the length.\<close>

definition insert_at :: "nat \<Rightarrow> 'a \<Rightarrow> 'a list \<Rightarrow> 'a list" where
  "insert_at i x xs = take i xs @ x # drop i xs"

definition insert_pending :: "envelope \<Rightarrow> envelope list \<Rightarrow> envelope list" where
  "insert_pending e xs = insert_at
     (case rposition (\<lambda>p. priority e \<le> priority p) xs of None \<Rightarrow> 0 | Some l \<Rightarrow> l + 1) e xs"

definition insert_by_priority :: "envelope \<Rightarrow> queue_state \<Rightarrow> queue_state" where
  "insert_by_priority e q = q\<lparr>pending := insert_pending e (pending q)\<rparr>"

definition wake :: "queue_state \<Rightarrow> queue_state" where
  "wake q = q\<lparr>signal := signal q + 1, sends := sends q + 1\<rparr>"

section \<open>The shared state\<close>

record shared =
  queues :: "string \<Rightarrow> queue_state option"
  closed :: bool

definition shared_new :: shared where
  "shared_new = \<lparr>queues = (\<lambda>_. None), closed = False\<rparr>"

text \<open>
  \<open>queue_mut\<close> hands out a mutable reference to the entry, created on demand; here it takes the
  update made through the reference. \<open>get_mut\<close> updates an existing entry only.
\<close>

definition queue_mut :: "string \<Rightarrow> (queue_state \<Rightarrow> queue_state) \<Rightarrow> shared \<Rightarrow> shared" where
  "queue_mut n f s = s\<lparr>queues := (queues s)(n \<mapsto> f (case queues s n of
       Some q \<Rightarrow> q | None \<Rightarrow> queue_state_new (queue_config_new n)))\<rparr>"

definition get_mut :: "string \<Rightarrow> (queue_state \<Rightarrow> queue_state) \<Rightarrow> shared \<Rightarrow> shared" where
  "get_mut n f s = (case queues s n of
       Some q \<Rightarrow> s\<lparr>queues := (queues s)(n \<mapsto> f q)\<rparr>
     | None \<Rightarrow> s)"

definition release_hold :: "string \<Rightarrow> shared \<Rightarrow> shared" where
  "release_hold n s = get_mut n (\<lambda>q. q\<lparr>held := held q - 1\<rparr>) s"

definition enqueue_now :: "envelope \<Rightarrow> string option \<Rightarrow> shared \<Rightarrow> shared" where
  "enqueue_now e hold s =
     (let s = (case hold of Some n \<Rightarrow> release_hold n s | None \<Rightarrow> s)
      in if closed s then s
         else queue_mut (queue e) (\<lambda>q. wake (insert_by_priority e q)) s)"

definition hold_one :: "string \<Rightarrow> shared \<Rightarrow> shared" where
  "hold_one n s = queue_mut n (\<lambda>q. q\<lparr>held := held q + 1\<rparr>) s"

definition declare_one :: "queue_config \<Rightarrow> shared \<Rightarrow> shared" where
  "declare_one c s = (case queues s (qc_name c) of
     Some _ \<Rightarrow> s
   | None \<Rightarrow> s\<lparr>queues := (queues s)(qc_name c \<mapsto> queue_state_new c)\<rparr>)"

fun declare_loop :: "queue_config list \<Rightarrow> shared \<Rightarrow> shared" where
  "declare_loop [] s = s"
| "declare_loop (c # cs) s = declare_loop cs (declare_one c s)"

definition declare_queues :: "queue_config list \<Rightarrow> shared \<Rightarrow> ('b error + unit) \<times> shared" where
  "declare_queues cs s = (if closed s then (Inl ShutDown, s) else (Inr (), declare_loop cs s))"

definition record_ack :: "envelope \<Rightarrow> ack_kind \<Rightarrow> shared \<Rightarrow> shared" where
  "record_ack e k s = queue_mut (queue e) (\<lambda>q. q\<lparr>settled := settled q @ [(e, k)]\<rparr>) s"

definition record_dead :: "envelope \<Rightarrow> string \<Rightarrow> shared \<Rightarrow> ('b error + unit) \<times> shared" where
  "record_dead e reason s = (if closed s then (Inl ShutDown, s)
     else (Inr (), queue_mut (queue e) (\<lambda>q. q\<lparr>dead := dead q @ [(e, reason)]\<rparr>) s))"

definition pop_pending :: "string \<Rightarrow> shared \<Rightarrow> envelope option \<times> shared" where
  "pop_pending n s = (case queues s n of
       None \<Rightarrow> (None, s)
     | Some q \<Rightarrow> (case pending q of
           [] \<Rightarrow> (None, s)
         | e # rest \<Rightarrow> (Some e, s\<lparr>queues := (queues s)(n \<mapsto> q\<lparr>pending := rest\<rparr>)\<rparr>)))"

definition push_back_to_front :: "string \<Rightarrow> envelope \<Rightarrow> shared \<Rightarrow> shared" where
  "push_back_to_front n e s = get_mut n (\<lambda>q. wake (q\<lparr>pending := e # pending q\<rparr>)) s"

definition requeue_unread :: "string \<Rightarrow> envelope list \<Rightarrow> shared \<Rightarrow> shared" where
  "requeue_unread n unread s =
     (if unread = [] \<or> closed s then s
      else queue_mut n (\<lambda>q. wake (q\<lparr>pending := foldl (\<lambda>p e. e # p) (pending q) (rev unread)\<rparr>)) s)"

definition register_consumer :: "string \<Rightarrow> nat \<Rightarrow> shared \<Rightarrow> shared" where
  "register_consumer n i s = queue_mut n (\<lambda>q. q\<lparr>consumers := consumers q @ [i]\<rparr>) s"

definition unregister_consumer :: "string \<Rightarrow> nat \<Rightarrow> shared \<Rightarrow> shared" where
  "unregister_consumer n i s = get_mut n (\<lambda>q. q\<lparr>consumers := filter (\<lambda>j. j \<noteq> i) (consumers q)\<rparr>) s"

text \<open>
  \<open>close\<close> visits every queue, drains its consumer list (closing each semaphore, which is the
  consumer's own state and done by the step) and wakes it.
\<close>

definition close_shared :: "shared \<Rightarrow> shared" where
  "close_shared s = s\<lparr>closed := True,
     queues := (\<lambda>n. map_option (\<lambda>q. wake (q\<lparr>consumers := []\<rparr>)) (queues s n))\<rparr>"

section \<open>Inspection\<close>

definition pending_count :: "shared \<Rightarrow> string \<Rightarrow> nat" where
  "pending_count s n = (case queues s n of None \<Rightarrow> 0 | Some q \<Rightarrow> length (pending q))"

definition settled_log :: "shared \<Rightarrow> string \<Rightarrow> (envelope \<times> ack_kind) list" where
  "settled_log s n = (case queues s n of None \<Rightarrow> [] | Some q \<Rightarrow> settled q)"

definition settled_by :: "shared \<Rightarrow> string \<Rightarrow> ack_kind option \<Rightarrow> envelope list" where
  "settled_by s n kind = (case queues s n of None \<Rightarrow> []
     | Some q \<Rightarrow> map fst (filter (\<lambda>(_, recorded). kind = None \<or> Some recorded = kind) (settled q)))"

definition acked :: "shared \<Rightarrow> string \<Rightarrow> envelope list" where
  "acked s n = settled_by s n None"

definition succeeded :: "shared \<Rightarrow> string \<Rightarrow> envelope list" where
  "succeeded s n = settled_by s n (Some Succeeded)"

definition retried :: "shared \<Rightarrow> string \<Rightarrow> envelope list" where
  "retried s n = settled_by s n (Some Retried)"

definition deferred_count :: "shared \<Rightarrow> string \<Rightarrow> nat" where
  "deferred_count s n = (case queues s n of None \<Rightarrow> 0 | Some q \<Rightarrow> held q)"

definition dead_letters :: "shared \<Rightarrow> string \<Rightarrow> (envelope \<times> string) list" where
  "dead_letters s n = (case queues s n of None \<Rightarrow> [] | Some q \<Rightarrow> dead q)"

definition queue_config_of :: "shared \<Rightarrow> string \<Rightarrow> queue_config option" where
  "queue_config_of s n = map_option config (queues s n)"

section \<open>The contract of a stable priority queue\<close>

text \<open>
  What the clients of an insertion rely on: the new element lands between what is at least as
  important and what is less important, and nothing else moves. The lemmas say what follows for
  the multiset, the order and each priority level; the level of a priority is a plain FIFO queue.
\<close>

locale priority_fifo =
  fixes ins :: "'e \<Rightarrow> 'e list \<Rightarrow> 'e list" and prio :: "'e \<Rightarrow> 'p::linorder"
  assumes ins_split: "\<exists>xs ys. q = xs @ ys \<and> ins e q = xs @ e # ys
      \<and> (xs = [] \<or> prio e \<le> prio (last xs)) \<and> (\<forall>y\<in>set ys. prio y < prio e)"
begin

lemma ins_mset: "mset (ins e q) = add_mset e (mset q)"
  using ins_split [of q e] by auto

lemma ins_nonempty: "ins e q \<noteq> []"
  using ins_split [of q e] by auto

lemma ins_level: "filter (\<lambda>x. prio x = p) (ins e q) =
    filter (\<lambda>x. prio x = p) q @ (if prio e = p then [e] else [])"
proof -
  obtain xs ys where s: "q = xs @ ys" "ins e q = xs @ e # ys" "\<forall>y\<in>set ys. prio y < prio e"
    using ins_split by blast
  then have "prio e = p \<Longrightarrow> filter (\<lambda>x. prio x = p) ys = []" by (auto simp: filter_empty_conv)
  with s show ?thesis by auto
qed

lemma ins_sorted:
  assumes "sorted (rev (map prio q))"
  shows "sorted (rev (map prio (ins e q)))"
proof -
  obtain xs ys where s: "q = xs @ ys" "ins e q = xs @ e # ys"
    "xs = [] \<or> prio e \<le> prio (last xs)" "\<forall>y\<in>set ys. prio y < prio e"
    using ins_split by blast
  have "prio e \<le> prio x" if "x \<in> set xs" for x
  proof (cases xs rule: rev_cases)
    case (snoc zs z)
    with that s assms have "prio z \<le> prio x" by (auto simp: sorted_append)
    with snoc s(3) show ?thesis by auto
  qed (use that in simp)
  with s assms show ?thesis by (fastforce simp: sorted_append)
qed

lemma head_highest: "sorted (rev (map prio (x # q))) \<Longrightarrow> y \<in> set q \<Longrightarrow> prio y \<le> prio x"
  by (simp add: sorted_append)

lemma tail_sorted: "sorted (rev (map prio (x # q))) \<Longrightarrow> sorted (rev (map prio q))"
  by (simp add: sorted_append)

text \<open>Inserting one after the other sorts stably by falling priority.\<close>

lemma stable_sort_unique:
  assumes "sorted (rev (map prio ys))" "\<And>p. filter (\<lambda>x. prio x = p) ys = filter (\<lambda>x. prio x = p) xs"
    and "mset ys = mset xs"
  shows "ys = rev (sort_key prio (rev xs))"
proof -
  have "sort_key prio (rev xs) = rev ys"
  proof (rule properties_for_sort_key)
    show "mset (rev ys) = mset (rev xs)" using assms(3) by simp
    show "filter (\<lambda>x. prio k = prio x) (rev ys) = filter (\<lambda>x. prio k = prio x) (rev xs)" for k
      using assms(2) [of "prio k"] by (simp add: rev_filter [symmetric] eq_commute [of "prio k"])
    show "sorted (map prio (rev ys))" using assms(1) by (simp add: rev_map)
  qed
  then show ?thesis by simp
qed

lemma inserts_facts:
  "sorted (rev (map prio q)) \<Longrightarrow> sorted (rev (map prio (foldl (\<lambda>q e. ins e q) q es)))
   \<and> (\<forall>p. filter (\<lambda>x. prio x = p) (foldl (\<lambda>q e. ins e q) q es) = filter (\<lambda>x. prio x = p) (q @ es))
   \<and> mset (foldl (\<lambda>q e. ins e q) q es) = mset (q @ es)"
  by (induction es arbitrary: q) (simp_all add: ins_sorted ins_level ins_mset)

lemma inserts_stable_sort:
  "sorted (rev (map prio q)) \<Longrightarrow>
     foldl (\<lambda>q e. ins e q) q es = rev (sort_key prio (rev (q @ es)))"
  by (rule stable_sort_unique) (use inserts_facts in blast)+

end

lemma insert_pending_split:
  "\<exists>xs ys. q = xs @ ys \<and> insert_pending e q = xs @ e # ys
     \<and> (xs = [] \<or> priority e \<le> priority (last xs)) \<and> (\<forall>y\<in>set ys. priority y < priority e)"
proof (cases "rposition (\<lambda>p. priority e \<le> priority p) q")
  case None
  then have "\<forall>y\<in>set q. priority y < priority e" by (auto simp: rposition_None not_le)
  moreover have "insert_pending e q = [] @ e # q"
    by (simp add: insert_pending_def insert_at_def None)
  ultimately show ?thesis by (intro exI [of _ "[]"] exI [of _ q]) simp
next
  case (Some l)
  note l = rposition_Some [OF Some]
  then have "take (Suc l) q \<noteq> []" "last (take (Suc l) q) = q ! l"
    by (auto simp: take_Suc_conv_app_nth)
  with l Some show ?thesis
    by (intro exI [of _ "take (Suc l) q"] exI [of _ "drop (Suc l) q"])
      (auto simp: insert_pending_def insert_at_def not_le)
qed

interpretation fifo: priority_fifo insert_pending priority
  by unfold_locales (rule insert_pending_split)

section \<open>What each critical section leaves alone\<close>

text \<open>The part of a queue that \<open>tally\<close>s and invariants look at, and empty for a queue not there.\<close>

definition queue_at :: "shared \<Rightarrow> string \<Rightarrow> queue_state" where
  "queue_at s n = (case queues s n of
     Some q \<Rightarrow> q | None \<Rightarrow> queue_state_new (queue_config_new n))"

lemma queue_state_new_simps [simp]:
  "pending (queue_state_new c) = []" "settled (queue_state_new c) = []"
  "dead (queue_state_new c) = []" "consumers (queue_state_new c) = []"
  "held (queue_state_new c) = 0" "sends (queue_state_new c) = 0" "config (queue_state_new c) = c"
  by (simp_all add: queue_state_new_def)

lemma queue_state_parts [simp]:
  "pending (insert_by_priority e q) = insert_pending e (pending q)"
  "settled (insert_by_priority e q) = settled q" "dead (insert_by_priority e q) = dead q"
  "consumers (insert_by_priority e q) = consumers q" "held (insert_by_priority e q) = held q"
  "sends (insert_by_priority e q) = sends q" "config (insert_by_priority e q) = config q"
  "pending (wake q) = pending q" "settled (wake q) = settled q" "dead (wake q) = dead q"
  "consumers (wake q) = consumers q" "held (wake q) = held q" "sends (wake q) = sends q + 1"
  "config (wake q) = config q"
  by (simp_all add: insert_by_priority_def wake_def)

lemma queue_mut_parts [simp]:
  "queue_at (queue_mut n f s) = (queue_at s)(n := f (queue_at s n))"
  "closed (queue_mut n f s) = closed s"
  "queues (queue_mut n f s) = (queues s)(n \<mapsto> f (queue_at s n))"
  by (auto simp: queue_mut_def queue_at_def fun_eq_iff split: option.split)

lemma get_mut_parts [simp]:
  "closed (get_mut n f s) = closed s"
  "queues (get_mut n f s) = (if queues s n = None then queues s
     else (queues s)(n \<mapsto> f (queue_at s n)))"
  by (auto simp: get_mut_def queue_at_def split: option.split)

lemma queue_at_get_mut [simp]:
  "queue_at (get_mut n f s) =
     (if queues s n = None then queue_at s else (queue_at s)(n := f (queue_at s n)))"
  by (auto simp: get_mut_def queue_at_def fun_eq_iff split: option.split)

lemma queue_at_None: "queues s n = None \<Longrightarrow> queue_at s n = queue_state_new (queue_config_new n)"
  by (simp add: queue_at_def)

definition declared :: "shared \<Rightarrow> string \<Rightarrow> bool" where
  "declared s n \<longleftrightarrow> queues s n \<noteq> None"

text \<open>Every critical section, by what it does to the queues.\<close>

lemma queue_at_release_hold [simp]:
  "queue_at (release_hold n s) =
     (queue_at s)(n := (queue_at s n)\<lparr>held := held (queue_at s n) - 1\<rparr>)"
  by (auto simp: release_hold_def queue_at_None queue_state_new_def fun_eq_iff)

lemma queue_at_unregister [simp]:
  "queue_at (unregister_consumer n i s) =
     (queue_at s)(n := (queue_at s n)\<lparr>consumers := filter (\<lambda>j. j \<noteq> i) (consumers (queue_at s n))\<rparr>)"
  by (auto simp: unregister_consumer_def queue_at_None queue_state_new_def fun_eq_iff)

lemma queue_at_register [simp]:
  "queue_at (register_consumer n i s) =
     (queue_at s)(n := (queue_at s n)\<lparr>consumers := consumers (queue_at s n) @ [i]\<rparr>)"
  by (simp add: register_consumer_def)

lemma queue_at_record_ack [simp]:
  "queue_at (record_ack e k s) =
     (queue_at s)(queue e := (queue_at s (queue e))\<lparr>settled := settled (queue_at s (queue e)) @ [(e, k)]\<rparr>)"
  by (simp add: record_ack_def)

lemma queue_at_hold_one [simp]:
  "queue_at (hold_one n s) =
     (queue_at s)(n := (queue_at s n)\<lparr>held := held (queue_at s n) + 1\<rparr>)"
  by (simp add: hold_one_def)

lemma queue_at_close [simp]:
  "queue_at (close_shared s) n =
     (if \<not> declared s n then queue_at s n else wake ((queue_at s n)\<lparr>consumers := []\<rparr>))"
  by (simp add: close_shared_def queue_at_def declared_def split: option.split)

lemma queue_at_push_back [simp]:
  "queue_at (push_back_to_front n e s) = (if \<not> declared s n then queue_at s else
     (queue_at s)(n := wake ((queue_at s n)\<lparr>pending := e # pending (queue_at s n)\<rparr>)))"
  by (simp add: push_back_to_front_def declared_def)

lemma foldl_cons: "foldl (\<lambda>p e. e # p) q (rev xs) = xs @ q"
  by (induction xs) auto

lemma queue_at_requeue [simp]:
  "queue_at (requeue_unread n xs s) = (if xs = [] \<or> closed s then queue_at s else
     (queue_at s)(n := wake ((queue_at s n)\<lparr>pending := xs @ pending (queue_at s n)\<rparr>)))"
  by (simp add: requeue_unread_def foldl_cons)

lemma pop_pending_cases:
  obtains (empty) "pop_pending n s = (None, s)" "pending (queue_at s n) = []"
  | (popped) e rest where "pending (queue_at s n) = e # rest" "declared s n"
      "pop_pending n s = (Some e, s\<lparr>queues := (queues s)(n \<mapsto> (queue_at s n)\<lparr>pending := rest\<rparr>)\<rparr>)"
proof (cases "queues s n")
  case None
  then show ?thesis using empty by (simp add: pop_pending_def queue_at_def)
next
  case (Some q)
  then show ?thesis using empty popped
    by (cases "pending q") (auto simp: pop_pending_def queue_at_def declared_def)
qed

lemma declared_update [simp]:
  "declared (s\<lparr>queues := (queues s)(n \<mapsto> q)\<rparr>) k \<longleftrightarrow> k = n \<or> declared s k"
  by (simp add: declared_def)

lemma queue_at_update [simp]:
  "queue_at (s\<lparr>queues := (queues s)(n \<mapsto> q)\<rparr>) = (queue_at s)(n := q)"
  by (auto simp: queue_at_def fun_eq_iff)

lemma closed_parts [simp]:
  "closed (release_hold n s) = closed s" "closed (unregister_consumer n i s) = closed s"
  "closed (register_consumer n i s) = closed s" "closed (record_ack e k s) = closed s"
  "closed (hold_one n s) = closed s" "closed (close_shared s)"
  "closed (push_back_to_front n e s) = closed s" "closed (requeue_unread n xs s) = closed s"
  by (simp_all add: release_hold_def unregister_consumer_def register_consumer_def record_ack_def
      hold_one_def close_shared_def push_back_to_front_def requeue_unread_def)

lemma closed_enqueue_now [simp]: "closed (enqueue_now e h s) = closed s"
  by (simp add: enqueue_now_def Let_def split: option.split)

definition released :: "string option \<Rightarrow> shared \<Rightarrow> shared" where
  "released h s = (case h of Some n \<Rightarrow> release_hold n s | None \<Rightarrow> s)"

lemma released_parts [simp]:
  "closed (released h s) = closed s"
  "pending (queue_at (released h s) n) = pending (queue_at s n)"
  "settled (queue_at (released h s) n) = settled (queue_at s n)"
  "dead (queue_at (released h s) n) = dead (queue_at s n)"
  "consumers (queue_at (released h s) n) = consumers (queue_at s n)"
  "sends (queue_at (released h s) n) = sends (queue_at s n)"
  "held (queue_at (released h s) n) = held (queue_at s n) - (if h = Some n then 1 else 0)"
  by (auto simp: released_def split: option.split)

lemma queue_at_enqueue_now [simp]:
  "queue_at (enqueue_now e h s) = (if closed s then queue_at (released h s) else
     (queue_at (released h s))(queue e := wake (insert_by_priority e (queue_at (released h s) (queue e)))))"
  by (auto simp: enqueue_now_def released_def Let_def split: option.split)

text \<open>No queue ever goes away.\<close>

lemma declared_kept [simp]:
  "declared (released h s) n = declared s n" "declared (release_hold k s) n = declared s n"
  "declared (unregister_consumer k i s) n = declared s n"
  "declared (close_shared s) n = declared s n" "declared (push_back_to_front k e s) n = declared s n"
  "declared (register_consumer k i s) n \<longleftrightarrow> n = k \<or> declared s n"
  "declared (record_ack e a s) n \<longleftrightarrow> n = queue e \<or> declared s n"
  "declared (hold_one k s) n \<longleftrightarrow> n = k \<or> declared s n"
  "declared (requeue_unread k xs s) n \<longleftrightarrow> (n = k \<and> xs \<noteq> [] \<and> \<not> closed s) \<or> declared s n"
  "declared (enqueue_now e h s) n \<longleftrightarrow> (n = queue e \<and> \<not> closed s) \<or> declared s n"
  by (auto simp: declared_def released_def release_hold_def unregister_consumer_def
      register_consumer_def record_ack_def hold_one_def close_shared_def push_back_to_front_def
      requeue_unread_def enqueue_now_def Let_def split: option.split)

lemma declare_one_parts [simp]:
  "closed (declare_one c s) = closed s"
  "pending (queue_at (declare_one c s) n) = pending (queue_at s n)"
  "settled (queue_at (declare_one c s) n) = settled (queue_at s n)"
  "dead (queue_at (declare_one c s) n) = dead (queue_at s n)"
  "consumers (queue_at (declare_one c s) n) = consumers (queue_at s n)"
  "sends (queue_at (declare_one c s) n) = sends (queue_at s n)"
  "held (queue_at (declare_one c s) n) = held (queue_at s n)"
  by (auto simp: declare_one_def queue_at_def split: option.split)

lemma declare_loop_parts [simp]:
  "closed (declare_loop cs s) = closed s"
  "pending (queue_at (declare_loop cs s) n) = pending (queue_at s n)"
  "settled (queue_at (declare_loop cs s) n) = settled (queue_at s n)"
  "dead (queue_at (declare_loop cs s) n) = dead (queue_at s n)"
  "consumers (queue_at (declare_loop cs s) n) = consumers (queue_at s n)"
  "sends (queue_at (declare_loop cs s) n) = sends (queue_at s n)"
  "held (queue_at (declare_loop cs s) n) = held (queue_at s n)"
  by (induction cs arbitrary: s) simp_all

lemma declared_declare [simp]:
  "declared (declare_one c s) n \<longleftrightarrow> n = qc_name c \<or> declared s n"
  "declared (declare_loop cs s) n \<longleftrightarrow> n \<in> qc_name ` set cs \<or> declared s n"
  by (induction cs arbitrary: s)
    (auto simp: declared_def declare_one_def image_iff split: option.split)

lemma declare_one_kept: "queues s n = Some q \<Longrightarrow> queues (declare_one c s) n = Some q"
  by (auto simp: declare_one_def split: option.split)

lemma declare_loop_kept: "queues s n = Some q \<Longrightarrow> queues (declare_loop cs s) n = Some q"
  by (induction cs arbitrary: s) (auto dest: declare_one_kept)

end
