(* ===== verification/Memory_Steps.thy ===== *)
theory Memory_Steps
  imports Memory_State
begin

text \<open>
  The concurrent machine of \<open>crates/core/src/memory.rs\<close>: the shared state, the tasks the backend has
  spawned (delayed publishes, holds, consumer loops), the channels to the streams, the deliveries
  the client holds and the calls that are under way. An event is one uninterrupted piece of work of
  one task or call: at most one critical section of the mutex. \<open>exec m ev\<close> is \<open>None\<close> when the
  task is blocked or the event makes no sense in \<open>m\<close> (no such delivery, a closed channel).

  A call's remaining work after its first critical section is a list of actions, its thread; the
  threads interleave freely, which is what the mutex of the source allows.
\<close>

datatype action =
    DoEnqueue envelope
  | DoSpawn envelope nat
  | DoHold envelope nat
  | DoRecordAck envelope ack_kind
  | DoRelease nat

text \<open>Where a consumer loop stands: at the prefetch semaphore, before the lock, at the wake-up
  channel, before \<open>tx.send\<close>, before putting an unsent message back, on its way out.\<close>

datatype loop_pc =
    AwaitPermit
  | Check
  | Waiting
  | Send envelope
  | PutBack envelope
  | Leaving
  | Ended

record consumer =
  c_queue :: string
  capacity :: nat
  permits :: nat
  sem_closed :: bool
  pc :: loop_pc
  seen :: nat
  chan :: "envelope list"
  rx_open :: bool

record mem =
  sh :: shared
  clock :: nat
  timers :: "(nat \<times> envelope \<times> string option) list"
  cons :: "consumer list"
  handed :: "(nat \<times> envelope) list"
  threads :: "action list list"

definition mem_new :: mem where
  "mem_new = \<lparr>sh = shared_new, clock = 0, timers = [], cons = [], handed = [], threads = []\<rparr>"

definition remove_nth :: "nat \<Rightarrow> 'a list \<Rightarrow> 'a list" where
  "remove_nth i xs = take i xs @ drop (Suc i) xs"

text \<open>\<open>usize::MAX >> 3\<close> on a 64-bit target: the permits of a consumer without a prefetch limit.\<close>

definition MAX_PERMITS :: nat where
  "MAX_PERMITS = 2 ^ 61 - 1"

section \<open>Threads and timers\<close>

text \<open>
  The clock has no end here, so a deadline always exists. \<open>Instant::now() + delay\<close> of the source panics where
  the sum is beyond what an \<open>Instant\<close> can hold (a delay of hundreds of billions of years, \<open>Duration::MAX\<close> for
  one), in \<open>schedule\<close> and in \<open>hold\<close>; what is proved is about delays below that.
\<close>

definition schedule_actions :: "nat \<Rightarrow> envelope \<Rightarrow> duration \<Rightarrow> action list" where
  "schedule_actions now e d = (if d = 0 then [DoEnqueue e] else [DoSpawn e (now + d)])"

definition hold_actions :: "nat \<Rightarrow> envelope \<Rightarrow> duration \<Rightarrow> action list" where
  "hold_actions now e d = (if d = 0 then [DoEnqueue e] else [DoHold e (now + d)])"

definition release_permits :: "nat \<Rightarrow> nat \<Rightarrow> mem \<Rightarrow> mem" where
  "release_permits i k m = (if i < length (cons m)
     then m\<lparr>cons := (cons m)[i := (cons m ! i)\<lparr>permits := permits (cons m ! i) + k\<rparr>]\<rparr> else m)"

fun run_action :: "action \<Rightarrow> mem \<Rightarrow> mem" where
  "run_action (DoEnqueue e) m = m\<lparr>sh := enqueue_now e None (sh m)\<rparr>"
| "run_action (DoSpawn e t) m = m\<lparr>timers := timers m @ [(t, e, None)]\<rparr>"
| "run_action (DoHold e t) m = m\<lparr>sh := hold_one (queue e) (sh m),
     timers := timers m @ [(t, e, Some (queue e))]\<rparr>"
| "run_action (DoRecordAck e k) m = m\<lparr>sh := record_ack e k (sh m)\<rparr>"
| "run_action (DoRelease i) m = release_permits i 1 m"

definition spawn_thread :: "action list \<Rightarrow> mem \<Rightarrow> mem" where
  "spawn_thread as m = m\<lparr>threads := threads m @ [as]\<rparr>"

definition run_thread :: "nat \<Rightarrow> mem \<Rightarrow> mem option" where
  "run_thread t m = (if t < length (threads m) then
       (case threads m ! t of
          [] \<Rightarrow> None
        | a # rest \<Rightarrow> Some (run_action a (m\<lparr>threads := (threads m)[t := rest]\<rparr>)))
     else None)"

text \<open>A timer fires only at or after its deadline; an aborted task drops its guard.\<close>

definition fire :: "nat \<Rightarrow> mem \<Rightarrow> mem option" where
  "fire i m = (if i < length (timers m) then
       (case timers m ! i of (deadline, e, hold) \<Rightarrow>
          if deadline \<le> clock m
          then Some (m\<lparr>timers := remove_nth i (timers m), sh := enqueue_now e hold (sh m)\<rparr>)
          else None)
     else None)"

definition abort_timer :: "nat \<Rightarrow> mem \<Rightarrow> mem option" where
  "abort_timer i m = (if i < length (timers m) then
       (case timers m ! i of (deadline, e, hold) \<Rightarrow>
          Some (m\<lparr>timers := remove_nth i (timers m),
            sh := (case hold of Some n \<Rightarrow> release_hold n (sh m) | None \<Rightarrow> sh m)\<rparr>))
     else None)"

section \<open>Consumers\<close>

text \<open>\<open>capacity\<close> is not in the source: it remembers the number of permits the semaphore was made with, and
  nothing reads it but the invariants. \<open>prefetch_window_respected\<close> ties it to the configuration.\<close>

definition consume :: "queue_config \<Rightarrow> mem \<Rightarrow> mem" where
  "consume qc m =
     (let n = qc_name qc;
          permits = (if prefetch qc = 0 then MAX_PERMITS else unat (prefetch qc));
          c = \<lparr>c_queue = n, capacity = permits, permits = permits, sem_closed = False,
               pc = AwaitPermit, seen = 0, chan = [], rx_open = True\<rparr>
      in if closed (sh m) then m\<lparr>cons := cons m @ [c\<lparr>pc := Ended\<rparr>]\<rparr>
         else let s = register_consumer n (length (cons m)) (sh m)
              in m\<lparr>sh := s, cons := cons m @ [c\<lparr>seen := sends (queue_at s n)\<rparr>]\<rparr>)"

text \<open>One turn of a loop whose consumer is \<open>c\<close>: the shared state and the consumer after it.\<close>

definition leave :: "nat \<Rightarrow> consumer \<Rightarrow> consumer" where
  "leave k c = c\<lparr>pc := Leaving, permits := permits c + k\<rparr>"

definition loop_step :: "nat \<Rightarrow> shared \<Rightarrow> consumer \<Rightarrow> (shared \<times> consumer) option" where
  "loop_step i s c = (case pc c of
       AwaitPermit \<Rightarrow>
         (if \<not> rx_open c \<or> sem_closed c then Some (s, leave 0 c)
          else if 0 < permits c then Some (s, c\<lparr>pc := Check, permits := permits c - 1\<rparr>)
          else None)
     | Check \<Rightarrow>
         (if closed s then Some (s, leave 1 c)
          else (case pop_pending (c_queue c) s of
              (Some e, s') \<Rightarrow> Some (s', c\<lparr>pc := Send e\<rparr>)
            | (None, s') \<Rightarrow> Some (s', c\<lparr>pc := Waiting\<rparr>)))
     | Waiting \<Rightarrow>
         (if \<not> rx_open c then Some (s, leave 1 c)
          else if sends (queue_at s (c_queue c)) \<noteq> seen c
            then Some (s, c\<lparr>pc := Check, seen := sends (queue_at s (c_queue c))\<rparr>)
          else None)
     | Send e \<Rightarrow>
         (if rx_open c then Some (s, c\<lparr>pc := AwaitPermit, chan := chan c @ [e]\<rparr>)
          else Some (s, c\<lparr>pc := PutBack e, permits := permits c + 1\<rparr>))
     | PutBack e \<Rightarrow> Some (push_back_to_front (c_queue c) e s, leave 0 c)
     | Leaving \<Rightarrow> Some (unregister_consumer (c_queue c) i s, c\<lparr>pc := Ended\<rparr>)
     | Ended \<Rightarrow> None)"

definition run_loop :: "nat \<Rightarrow> mem \<Rightarrow> mem option" where
  "run_loop i m = (if i < length (cons m) then
       (case loop_step i (sh m) (cons m ! i) of
          None \<Rightarrow> None
        | Some (s, c) \<Rightarrow> Some (m\<lparr>sh := s, cons := (cons m)[i := c]\<rparr>))
     else None)"

text \<open>The client takes the next delivery from the stream, or drops the stream.\<close>

definition receive :: "nat \<Rightarrow> mem \<Rightarrow> mem option" where
  "receive i m = (if i < length (cons m) \<and> rx_open (cons m ! i) then
       (case chan (cons m ! i) of
          [] \<Rightarrow> None
        | e # rest \<Rightarrow> Some (m\<lparr>cons := (cons m)[i := (cons m ! i)\<lparr>chan := rest\<rparr>],
            handed := handed m @ [(i, e)]\<rparr>))
     else None)"

definition drop_stream :: "nat \<Rightarrow> mem \<Rightarrow> mem option" where
  "drop_stream i m = (if i < length (cons m) \<and> rx_open (cons m ! i) then
       (let c = cons m ! i; unread = chan c
        in Some (m\<lparr>sh := requeue_unread (c_queue c) unread (sh m),
             cons := (cons m)[i := c\<lparr>rx_open := False, chan := [],
               permits := permits c + length unread\<rparr>]\<rparr>))
     else None)"

section \<open>Deliveries\<close>

text \<open>Each method consumes the boxed delivery, so its permit goes back when the call is over.\<close>

definition take_delivery :: "nat \<Rightarrow> mem \<Rightarrow> ((nat \<times> envelope) \<times> mem) option" where
  "take_delivery j m = (if j < length (handed m)
     then Some (handed m ! j, m\<lparr>handed := remove_nth j (handed m)\<rparr>) else None)"

definition delivery_ack :: "nat \<Rightarrow> mem \<Rightarrow> (('b error + unit) \<times> mem) option" where
  "delivery_ack j m = (case take_delivery j m of None \<Rightarrow> None
     | Some ((i, e), m) \<Rightarrow> Some (Inr (), spawn_thread [DoRecordAck e Succeeded, DoRelease i] m))"

definition delivery_dead_letter :: "nat \<Rightarrow> string \<Rightarrow> mem \<Rightarrow> (('b error + unit) \<times> mem) option" where
  "delivery_dead_letter j reason m = (case take_delivery j m of None \<Rightarrow> None
     | Some ((i, e), m) \<Rightarrow> (case record_dead e reason (sh m) of
         (r, s) \<Rightarrow> Some (r, release_permits i 1 (m\<lparr>sh := s\<rparr>))))"

definition delivery_retry ::
  "nat \<Rightarrow> envelope \<Rightarrow> duration \<Rightarrow> mem \<Rightarrow> (('b error + unit) \<times> mem) option" where
  "delivery_retry j next d m = (case take_delivery j m of None \<Rightarrow> None
     | Some ((i, e), m) \<Rightarrow>
         (if closed (sh m) then Some (Inl ShutDown, release_permits i 1 m)
          else Some (Inr (), spawn_thread
            (schedule_actions (clock m) next d @ [DoRecordAck e Retried, DoRelease i]) m)))"

definition delivery_defer ::
  "nat \<Rightarrow> envelope \<Rightarrow> duration \<Rightarrow> mem \<Rightarrow> (('b error + unit) \<times> mem) option" where
  "delivery_defer j next d m = (case take_delivery j m of None \<Rightarrow> None
     | Some ((i, e), m) \<Rightarrow>
         (if closed (sh m) then Some (Inl ShutDown, release_permits i 1 m)
          else Some (Inr (), spawn_thread
            (hold_actions (clock m) next d @ [DoRecordAck e Deferred, DoRelease i]) m)))"

text \<open>A delivery dropped without being settled only gives its permit back.\<close>

definition delivery_drop :: "nat \<Rightarrow> mem \<Rightarrow> mem option" where
  "delivery_drop j m = (case take_delivery j m of None \<Rightarrow> None
     | Some ((i, e), m) \<Rightarrow> Some (release_permits i 1 m))"

section \<open>The other operations of the backend\<close>

definition publish :: "envelope \<Rightarrow> duration option \<Rightarrow> mem \<Rightarrow> ('b error + unit) \<times> mem" where
  "publish e d m = (if closed (sh m) then (Inl ShutDown, m)
     else (Inr (), spawn_thread
       (schedule_actions (clock m) e (case d of Some x \<Rightarrow> x | None \<Rightarrow> 0)) m))"

definition backend_defer :: "envelope \<Rightarrow> duration \<Rightarrow> mem \<Rightarrow> ('b error + unit) \<times> mem" where
  "backend_defer e d m = (if closed (sh m) then (Inl ShutDown, m)
     else (Inr (), spawn_thread (hold_actions (clock m) e d) m))"

definition declare_all :: "queue_config list \<Rightarrow> mem \<Rightarrow> ('b error + unit) \<times> mem" where
  "declare_all cs m = (case declare_queues cs (sh m) of (r, s) \<Rightarrow> (r, m\<lparr>sh := s\<rparr>))"

definition drained :: "shared \<Rightarrow> nat \<Rightarrow> consumer \<Rightarrow> bool" where
  "drained s i c \<longleftrightarrow> i \<in> set (consumers (queue_at s (c_queue c)))"

definition close :: "mem \<Rightarrow> ('b error + unit) \<times> mem" where
  "close m = (Inr (), m\<lparr>sh := close_shared (sh m),
     cons := map (\<lambda>(i, c). if drained (sh m) i c then c\<lparr>sem_closed := True\<rparr> else c)
       (enumerate 0 (cons m))\<rparr>)"

section \<open>Events\<close>

datatype event =
    Declare "queue_config list"
  | Publish envelope "duration option"
  | Defer envelope duration
  | Consume queue_config
  | Close
  | Tick duration
  | Fire nat
  | AbortTimer nat
  | RunThread nat
  | RunLoop nat
  | Receive nat
  | DropStream nat
  | Ack nat
  | DeadLetter nat string
  | RetryD nat envelope duration
  | DeferD nat envelope duration
  | DropDelivery nat

definition silent :: "mem option \<Rightarrow> (('b error + unit) \<times> mem) option" where
  "silent r = map_option (\<lambda>m. (Inr (), m)) r"

fun exec :: "mem \<Rightarrow> event \<Rightarrow> (('b error + unit) \<times> mem) option" where
  "exec m (Declare cs) = Some (declare_all cs m)"
| "exec m (Publish e d) = Some (publish e d m)"
| "exec m (Defer e d) = Some (backend_defer e d m)"
| "exec m (Consume qc) = Some (Inr (), consume qc m)"
| "exec m Close = Some (close m)"
| "exec m (Tick d) = Some (Inr (), m\<lparr>clock := clock m + d\<rparr>)"
| "exec m (Fire i) = silent (fire i m)"
| "exec m (AbortTimer i) = silent (abort_timer i m)"
| "exec m (RunThread t) = silent (run_thread t m)"
| "exec m (RunLoop i) = silent (run_loop i m)"
| "exec m (Receive i) = silent (receive i m)"
| "exec m (DropStream i) = silent (drop_stream i m)"
| "exec m (Ack j) = delivery_ack j m"
| "exec m (DeadLetter j r) = delivery_dead_letter j r m"
| "exec m (RetryD j e d) = delivery_retry j e d m"
| "exec m (DeferD j e d) = delivery_defer j e d m"
| "exec m (DropDelivery j) = silent (delivery_drop j m)"

end
