(* ===== verification/Memory_Invariants.thy ===== *)
theory Memory_Invariants
  imports Memory_Steps
begin

text \<open>
  Invariants of the in-memory backend's machine, each over every interleaving: the prefetch window,
  the hold counter, the wake-up channel and the registration of consumers.
\<close>

inductive reachable :: "mem \<Rightarrow> bool" where
  start: "reachable mem_new"
| step: "reachable m \<Longrightarrow> exec m ev = Some (r :: string error + unit, m') \<Longrightarrow> reachable m'"

section \<open>Lists\<close>

lemma sum_list_update_nat:
  "i < length xs \<Longrightarrow> sum_list (xs[i := x]) + xs ! i = sum_list xs + (x::nat)"
  by (induction xs arbitrary: i) (auto simp: nth_Cons split: nat.splits)

lemma sum_list_map_update:
  "i < length xs \<Longrightarrow> sum_list (map f (xs[i := x])) + f (xs ! i) = sum_list (map f xs) + (f x :: nat)"
  using sum_list_update_nat [of i "map f xs" "f x"] by (simp add: map_update)

lemma length_filter_remove_nth:
  "i < length xs \<Longrightarrow>
     length (filter P (remove_nth i xs)) + (if P (xs ! i) then 1 else 0) = length (filter P xs)"
proof -
  assume i: "i < length xs"
  have "filter P xs = filter P (take i xs @ xs ! i # drop (Suc i) xs)"
    using i by (simp add: id_take_nth_drop [symmetric])
  then show ?thesis by (simp add: remove_nth_def)
qed

lemma count_remove_nth:
  "i < length xs \<Longrightarrow>
     count_list (map f (remove_nth i xs)) x + (if f (xs ! i) = x then 1 else 0) = count_list (map f xs) x"
proof -
  assume i: "i < length xs"
  have "count_list (map f xs) x = count_list (map f (take i xs @ xs ! i # drop (Suc i) xs)) x"
    using i by (simp add: id_take_nth_drop [symmetric])
  then show ?thesis by (simp add: remove_nth_def)
qed

section \<open>The prefetch window\<close>

definition in_loop :: "loop_pc \<Rightarrow> nat" where
  "in_loop p = (case p of Check \<Rightarrow> 1 | Waiting \<Rightarrow> 1 | Send _ \<Rightarrow> 1 | _ \<Rightarrow> 0)"

definition handed_of :: "mem \<Rightarrow> nat \<Rightarrow> nat" where
  "handed_of m i = count_list (map fst (handed m)) i"

definition releases :: "mem \<Rightarrow> nat \<Rightarrow> nat" where
  "releases m i = sum_list (map (\<lambda>th. count_list th (DoRelease i)) (threads m))"

definition permits_inv :: "mem \<Rightarrow> bool" where
  "permits_inv m \<longleftrightarrow> (\<forall>i. if i < length (cons m)
     then permits (cons m ! i) + in_loop (pc (cons m ! i)) + length (chan (cons m ! i))
        + handed_of m i + releases m i = capacity (cons m ! i)
     else handed_of m i + releases m i = 0)"

text \<open>What an action or a turn of a loop does to the consumers.\<close>

lemma run_action_frame:
  "handed (run_action a m) = handed m" "threads (run_action a m) = threads m"
  "length (cons (run_action a m)) = length (cons m)" "clock (run_action a m) = clock m"
  by (cases a; simp add: release_permits_def)+

lemma run_action_cons:
  "i < length (cons m) \<Longrightarrow> cons (run_action a m) ! i = (if a = DoRelease i
     then (cons m ! i)\<lparr>permits := permits (cons m ! i) + 1\<rparr> else cons m ! i)"
  by (cases a) (auto simp: release_permits_def nth_list_update)

lemma loop_step_permits:
  "loop_step i s c = Some (s', c') \<Longrightarrow>
     permits c' + in_loop (pc c') + length (chan c') = permits c + in_loop (pc c) + length (chan c)
     \<and> capacity c' = capacity c \<and> c_queue c' = c_queue c \<and> rx_open c' = rx_open c
     \<and> sem_closed c' = sem_closed c"
  by (cases "pc c") (auto simp: loop_step_def in_loop_def leave_def split: if_split_asm option.splits prod.splits)

lemma releases_update:
  "t < length (threads m) \<Longrightarrow> threads m ! t = a # rest \<Longrightarrow>
     releases (m\<lparr>threads := (threads m)[t := rest]\<rparr>) i + (if a = DoRelease i then 1 else 0)
       = releases m i"
  using sum_list_map_update [of t "threads m" "\<lambda>th. count_list th (DoRelease i)" rest]
  by (simp add: releases_def split: if_splits)

lemma permits_invI:
  assumes "\<And>i. i < length (cons m) \<Longrightarrow>
      permits (cons m ! i) + in_loop (pc (cons m ! i)) + length (chan (cons m ! i))
        + handed_of m i + releases m i = capacity (cons m ! i)"
    and "\<And>i. \<not> i < length (cons m) \<Longrightarrow> handed_of m i + releases m i = 0"
  shows "permits_inv m"
  using assms by (simp add: permits_inv_def)

lemma permits_invD:
  "permits_inv m \<Longrightarrow> i < length (cons m) \<Longrightarrow>
      permits (cons m ! i) + in_loop (pc (cons m ! i)) + length (chan (cons m ! i))
        + handed_of m i + releases m i = capacity (cons m ! i)"
  "permits_inv m \<Longrightarrow> \<not> i < length (cons m) \<Longrightarrow> handed_of m i = 0"
  "permits_inv m \<Longrightarrow> \<not> i < length (cons m) \<Longrightarrow> releases m i = 0"
  by (auto simp: permits_inv_def dest: spec [of _ i] split: if_splits)

lemma permits_inv_run_thread:
  assumes "permits_inv m" "run_thread t m = Some m'"
  shows "permits_inv m'"
proof -
  obtain a rest where a: "t < length (threads m)" "threads m ! t = a # rest"
    "m' = run_action a (m\<lparr>threads := (threads m)[t := rest]\<rparr>)"
    using assms(2) by (auto simp: run_thread_def split: if_splits list.splits)
  have rel: "releases m' i + (if a = DoRelease i then 1 else 0) = releases m i" for i
    using releases_update [OF a(1,2), of i] by (simp add: a(3) releases_def run_action_frame)
  have han: "handed_of m' i = handed_of m i" for i
    by (simp add: a(3) handed_of_def run_action_frame)
  have len: "length (cons m') = length (cons m)" by (simp add: a(3) run_action_frame)
  show ?thesis
  proof (rule permits_invI)
    fix i assume i: "i < length (cons m')"
    then have "cons m' ! i = (if a = DoRelease i
       then (cons m ! i)\<lparr>permits := permits (cons m ! i) + 1\<rparr> else cons m ! i)"
      by (simp add: a(3) run_action_cons run_action_frame)
    with permits_invD(1) [OF assms(1), of i] i len han rel [of i]
    show "permits (cons m' ! i) + in_loop (pc (cons m' ! i)) + length (chan (cons m' ! i))
        + handed_of m' i + releases m' i = capacity (cons m' ! i)"
      by (simp split: if_splits)
  next
    fix i assume "\<not> i < length (cons m')"
    with permits_invD(2,3) [OF assms(1), of i] len han rel [of i]
    show "handed_of m' i + releases m' i = 0" by simp
  qed
qed

text \<open>A new value at one place of the consumer list, everything else unchanged.\<close>

lemma permits_inv_update:
  assumes "permits_inv m" "i < length (cons m)"
    and m': "cons m' = (cons m)[i := c]" "\<And>k. k \<noteq> i \<Longrightarrow> handed_of m' k = handed_of m k"
      "\<And>k. k \<noteq> i \<Longrightarrow> releases m' k = releases m k"
    and c: "capacity c = capacity (cons m ! i)"
      "permits c + in_loop (pc c) + length (chan c) + handed_of m' i + releases m' i
        = permits (cons m ! i) + in_loop (pc (cons m ! i)) + length (chan (cons m ! i))
        + handed_of m i + releases m i"
  shows "permits_inv m'"
proof (rule permits_invI)
  fix k assume "k < length (cons m')"
  then show "permits (cons m' ! k) + in_loop (pc (cons m' ! k)) + length (chan (cons m' ! k))
        + handed_of m' k + releases m' k = capacity (cons m' ! k)"
    using permits_invD(1) [OF assms(1), of k] assms(2) m' c by (cases "k = i") auto
next
  fix k assume "\<not> k < length (cons m')"
  then show "handed_of m' k + releases m' k = 0"
    using permits_invD(2,3) [OF assms(1), of k] assms(2) m' by (cases "k = i") auto
qed

text \<open>Taking a delivery out of the client's hands in exchange for one release of its permit.\<close>

lemma take_delivery_facts:
  assumes "take_delivery j m = Some ((i, e), m1)"
  shows "m1 = m\<lparr>handed := remove_nth j (handed m)\<rparr>" "j < length (handed m)" "handed m ! j = (i, e)"
    "handed_of m1 k + (if k = i then 1 else 0) = handed_of m k" "releases m1 k = releases m k"
proof -
  show *: "m1 = m\<lparr>handed := remove_nth j (handed m)\<rparr>" "j < length (handed m)" "handed m ! j = (i, e)"
    using assms by (auto simp: take_delivery_def split: if_splits)
  show "handed_of m1 k + (if k = i then 1 else 0) = handed_of m k"
    using count_remove_nth [OF *(2), of fst k] *(1,3) by (auto simp: handed_of_def)
  show "releases m1 k = releases m k" by (simp add: *(1) releases_def)
qed

lemma releases_spawn [simp]:
  "releases (spawn_thread as m) i = releases m i + count_list as (DoRelease i)"
  by (simp add: spawn_thread_def releases_def)

lemma handed_of_frame [simp]:
  "handed_of (spawn_thread as m) i = handed_of m i" "handed_of (release_permits k n m) i = handed_of m i"
  "handed_of (m\<lparr>sh := s\<rparr>) i = handed_of m i" "releases (release_permits k n m) i = releases m i"
  "releases (m\<lparr>sh := s\<rparr>) i = releases m i" "cons (spawn_thread as m) = cons m"
  "handed_of (m\<lparr>cons := cs\<rparr>) i = handed_of m i" "releases (m\<lparr>cons := cs\<rparr>) i = releases m i"
  "handed_of (m\<lparr>clock := t\<rparr>) i = handed_of m i" "releases (m\<lparr>clock := t\<rparr>) i = releases m i"
  "handed_of (m\<lparr>timers := ts\<rparr>) i = handed_of m i" "releases (m\<lparr>timers := ts\<rparr>) i = releases m i"
  by (simp_all add: spawn_thread_def handed_of_def release_permits_def releases_def)

lemma take_delivery_owner:
  assumes "permits_inv m" "take_delivery j m = Some ((i, e), m1)"
  shows "i < length (cons m)"
  using take_delivery_facts(4) [OF assms(2), of i] permits_invD(2) [OF assms(1), of i] by fastforce

lemma permits_inv_settled:
  assumes "permits_inv m" "take_delivery j m = Some ((i, e), m1)"
  shows "permits_inv (release_permits i (Suc 0) (m1\<lparr>sh := s\<rparr>))"
    and "permits_inv (release_permits i (Suc 0) m1)"
    and "count_list as (DoRelease i) = 1 \<Longrightarrow> (\<forall>k. k \<noteq> i \<longrightarrow> DoRelease k \<notin> set as) \<Longrightarrow>
      permits_inv (spawn_thread as m1)"
proof -
  note f = take_delivery_facts [OF assms(2)]
  have i: "i < length (cons m)" by (rule take_delivery_owner [OF assms])
  have consm1: "cons m1 = cons m" by (simp add: f(1))
  have own: "handed_of m1 i + 1 = handed_of m i" using f(4) [of i] by simp
  have other: "k \<noteq> i \<Longrightarrow> handed_of m1 k = handed_of m k" for k using f(4) [of k] by simp
  show *: "permits_inv (release_permits i (Suc 0) (m1\<lparr>sh := s\<rparr>))" for s
    by (rule permits_inv_update [OF assms(1) i, where c =
        "(cons m ! i)\<lparr>permits := permits (cons m ! i) + 1\<rparr>"])
      (use own other i f(5) in \<open>auto simp: release_permits_def consm1\<close>)
  from * [of "sh m1"] show "permits_inv (release_permits i (Suc 0) m1)" by simp
  assume "count_list as (DoRelease i) = 1" "\<forall>k. k \<noteq> i \<longrightarrow> DoRelease k \<notin> set as"
  then show "permits_inv (spawn_thread as m1)"
    by (intro permits_inv_update [OF assms(1) i, where c = "cons m ! i"])
      (use own other f(5) in \<open>auto simp: count_list_0_iff consm1\<close>)
qed

lemma schedule_no_release [simp]:
  "DoRelease i \<notin> set (schedule_actions t e d)" "DoRelease i \<notin> set (hold_actions t e d)"
  "count_list (schedule_actions t e d) (DoRelease i) = 0"
  "count_list (hold_actions t e d) (DoRelease i) = 0"
  by (auto simp: schedule_actions_def hold_actions_def)


lemma permits_inv_frame:
  assumes "permits_inv m" "cons m' = cons m" "handed m' = handed m" "threads m' = threads m"
  shows "permits_inv m'"
proof -
  have "handed_of m' = handed_of m" "releases m' = releases m"
    using assms by (simp_all add: handed_of_def releases_def fun_eq_iff)
  with assms show ?thesis by (simp add: permits_inv_def)
qed

lemma permits_inv_spawn:
  "permits_inv m \<Longrightarrow> (\<And>i. DoRelease i \<notin> set as) \<Longrightarrow> permits_inv (spawn_thread as m)"
  by (simp add: permits_inv_def)

lemma permits_inv_append:
  assumes "permits_inv m" "cons m' = cons m @ [c]" "handed m' = handed m" "threads m' = threads m"
    "permits c + in_loop (pc c) + length (chan c) = capacity c"
  shows "permits_inv m'"
proof (rule permits_invI)
  have f: "handed_of m' = handed_of m" "releases m' = releases m"
    using assms by (simp_all add: handed_of_def releases_def fun_eq_iff)
  fix i
  show "i < length (cons m') \<Longrightarrow> permits (cons m' ! i) + in_loop (pc (cons m' ! i))
      + length (chan (cons m' ! i)) + handed_of m' i + releases m' i = capacity (cons m' ! i)"
    using permits_invD [OF assms(1), of i] assms(2,5) f
    by (cases "i < length (cons m)") (auto simp: nth_append)
  show "\<not> i < length (cons m') \<Longrightarrow> handed_of m' i + releases m' i = 0"
    using permits_invD(2,3) [OF assms(1), of i] assms(2) f by simp
qed

lemma permits_inv_consume: "permits_inv m \<Longrightarrow> permits_inv (consume qc m)"
  by (erule permits_inv_append [where c = "last (cons (consume qc m))"])
    (simp_all add: consume_def Let_def in_loop_def)

lemma permits_inv_loop: "permits_inv m \<Longrightarrow> run_loop i m = Some m' \<Longrightarrow> permits_inv m'"
  by (auto simp: run_loop_def dest!: loop_step_permits split: if_splits option.splits prod.splits
      intro!: permits_inv_update [of m i])

lemma permits_inv_receive: "permits_inv m \<Longrightarrow> receive i m = Some m' \<Longrightarrow> permits_inv m'"
  by (auto simp: receive_def handed_of_def releases_def split: if_splits list.splits
      intro!: permits_inv_update [of m i])

lemma permits_inv_drop_stream: "permits_inv m \<Longrightarrow> drop_stream i m = Some m' \<Longrightarrow> permits_inv m'"
  by (auto simp: drop_stream_def Let_def split: if_splits intro!: permits_inv_update [of m i])

lemma close_cons:
  "close m = (r, m') \<Longrightarrow> length (cons m') = length (cons m) \<and> (\<forall>i<length (cons m).
     cons m' ! i = (if drained (sh m) i (cons m ! i) then (cons m ! i)\<lparr>sem_closed := True\<rparr>
       else cons m ! i))"
  by (auto simp: close_def nth_enumerate_eq)

lemma permits_inv_close:
  assumes "permits_inv m" "close m = (r, m')"
  shows "permits_inv m'"
proof (rule permits_invI)
  have f: "handed_of m' = handed_of m" "releases m' = releases m"
    using assms by (auto simp: close_def handed_of_def releases_def fun_eq_iff)
  fix i
  show "i < length (cons m') \<Longrightarrow> permits (cons m' ! i) + in_loop (pc (cons m' ! i))
      + length (chan (cons m' ! i)) + handed_of m' i + releases m' i = capacity (cons m' ! i)"
    using permits_invD(1) [OF assms(1), of i] close_cons [OF assms(2)] f by simp
  show "\<not> i < length (cons m') \<Longrightarrow> handed_of m' i + releases m' i = 0"
    using permits_invD(2,3) [OF assms(1), of i] close_cons [OF assms(2)] f by simp
qed

text \<open>The shapes of a settling call: the delivery is taken out of the client's hands, and either the
  call is over and the permit back, or a thread is left that ends in giving it back.\<close>

definition settles :: "event \<Rightarrow> nat \<Rightarrow> string \<Rightarrow> envelope \<Rightarrow> duration \<Rightarrow> bool" where
  "settles ev j reason nxt d \<longleftrightarrow> ev = Ack j \<or> ev = DeadLetter j reason \<or> ev = RetryD j nxt d
     \<or> ev = DeferD j nxt d \<or> ev = DropDelivery j"

lemma settle_forms:
  assumes "exec m ev = Some (r, m')" "settles ev j reason nxt d"
  obtains i e m1 where "take_delivery j m = Some ((i, e), m1)"
    "(m' = release_permits i 1 m1) \<or>
     (\<exists>r :: string error + unit. \<exists>s. record_dead e reason (sh m1) = (r, s) \<and> ev = DeadLetter j reason
        \<and> m' = release_permits i 1 (m1\<lparr>sh := s\<rparr>)) \<or>
     (\<exists>pre k. m' = spawn_thread (pre @ [DoRecordAck e k, DoRelease i]) m1 \<and>
        (pre = [] \<or> (pre = schedule_actions (clock m) nxt d \<and> ev = RetryD j nxt d)
          \<or> (pre = hold_actions (clock m) nxt d \<and> ev = DeferD j nxt d)))"
proof -
  obtain i e m1 where t: "take_delivery j m = Some ((i, e), m1)"
    using assms by (cases "take_delivery j m") (auto simp: settles_def silent_def delivery_ack_def
        delivery_dead_letter_def delivery_retry_def delivery_defer_def delivery_drop_def)
  have c: "clock m1 = clock m" using take_delivery_facts(1) [OF t] by simp
  have *: "(\<exists>r :: string error + unit. record_dead e reason s0 = (r, s))
      = (\<exists>r :: 'x error + unit. record_dead e reason s0 = (r, s))" for s0 s
    by (auto simp: record_dead_def)
  from assms(2) show ?thesis unfolding settles_def
  proof (elim disjE)
    assume "ev = Ack j"
    with assms(1) that [OF t] show ?thesis by (auto simp: t delivery_ack_def)
  next
    assume "ev = DeadLetter j reason"
    with assms(1) that [OF t] show ?thesis
      by (auto simp: t delivery_dead_letter_def record_dead_def split: prod.splits if_splits)
  next
    assume "ev = RetryD j nxt d"
    with assms(1) that [OF t] c show ?thesis
      by (auto simp: t delivery_retry_def split: if_splits)
  next
    assume "ev = DeferD j nxt d"
    with assms(1) that [OF t] c show ?thesis
      by (auto simp: t delivery_defer_def split: if_splits)
  next
    assume "ev = DropDelivery j"
    with assms(1) that [OF t] show ?thesis by (auto simp: t delivery_drop_def silent_def)
  qed
qed

lemma permits_inv_settle:
  assumes "permits_inv m" "exec m ev = Some (r, m')" "settles ev j reason nxt d"
  shows "permits_inv m'"
  using assms(2,3)
proof (rule settle_forms)
  fix i e m1
  assume t: "take_delivery j m = Some ((i, e), m1)" and f: "(m' = release_permits i 1 m1) \<or>
     (\<exists>r :: string error + unit. \<exists>s. record_dead e reason (sh m1) = (r, s) \<and> ev = DeadLetter j reason
        \<and> m' = release_permits i 1 (m1\<lparr>sh := s\<rparr>)) \<or>
     (\<exists>pre k. m' = spawn_thread (pre @ [DoRecordAck e k, DoRelease i]) m1 \<and>
        (pre = [] \<or> (pre = schedule_actions (clock m) nxt d \<and> ev = RetryD j nxt d)
          \<or> (pre = hold_actions (clock m) nxt d \<and> ev = DeferD j nxt d)))"
  note p = permits_inv_settled [OF assms(1) t]
  from f show "permits_inv m'"
  proof (elim disjE exE conjE)
    assume "m' = release_permits i 1 m1"
    with p(2) show ?thesis by simp
  next
    fix s assume "m' = release_permits i 1 (m1\<lparr>sh := s\<rparr>)"
    with p(1) [of s] show ?thesis by simp
  qed (use p(3) in auto)
qed

lemma permits_inv_exec:
  assumes "permits_inv m" "exec m ev = Some (r, m')"
  shows "permits_inv m'"
proof (cases ev)
  case (Publish e d)
  with assms show ?thesis
    by (auto simp: publish_def intro!: permits_inv_spawn split: if_splits)
next
  case (Defer e d)
  with assms show ?thesis
    by (auto simp: backend_defer_def intro!: permits_inv_spawn split: if_splits)
next
  case Close
  with assms permits_inv_close show ?thesis by auto
next
  case (Declare cs)
  with assms show ?thesis
    by (auto simp: declare_all_def split: prod.splits elim!: permits_inv_frame)
next
  case (Fire i)
  with assms show ?thesis
    by (auto simp: silent_def fire_def split: if_splits prod.splits elim!: permits_inv_frame)
next
  case (AbortTimer i)
  with assms show ?thesis
    by (auto simp: silent_def abort_timer_def split: if_splits prod.splits elim!: permits_inv_frame)
next
  case (Tick d)
  with assms show ?thesis by (auto elim!: permits_inv_frame)
qed (use assms permits_inv_settle [OF assms, unfolded settles_def] in \<open>auto simp: silent_def intro: permits_inv_consume
    permits_inv_loop permits_inv_receive permits_inv_drop_stream permits_inv_run_thread\<close>)

section \<open>The hold counter\<close>

definition holds_of :: "mem \<Rightarrow> string \<Rightarrow> nat" where
  "holds_of m n = length (filter (\<lambda>t. snd (snd t) = Some n) (timers m))"

definition holds_inv :: "mem \<Rightarrow> bool" where
  "holds_inv m \<longleftrightarrow> (\<forall>n. held (queue_at (sh m) n) = holds_of m n)"

text \<open>A turn of a consumer loop touches the pending list, the wake-ups and the registrations of the
  one queue it serves, and nothing else.\<close>

lemma loop_step_shared:
  assumes "loop_step i s c = Some (s', c')"
  shows "closed s' = closed s"
    "held (queue_at s' n) = held (queue_at s n)" "settled (queue_at s' n) = settled (queue_at s n)"
    "dead (queue_at s' n) = dead (queue_at s n)" "sends (queue_at s n) \<le> sends (queue_at s' n)"
    "n \<noteq> c_queue c \<Longrightarrow> queue_at s' n = queue_at s n"
    "declared s n \<Longrightarrow> declared s' n"
proof -
  obtain e rest where "pc c = Check \<Longrightarrow> \<not> closed s \<Longrightarrow>
      pop_pending (c_queue c) s = (None, s) \<or> pop_pending (c_queue c) s =
        (Some e, s\<lparr>queues := (queues s)(c_queue c \<mapsto> (queue_at s (c_queue c))\<lparr>pending := rest\<rparr>)\<rparr>)"
    by (cases rule: pop_pending_cases [of "c_queue c" s]) auto
  with assms show "closed s' = closed s"
    "held (queue_at s' n) = held (queue_at s n)" "settled (queue_at s' n) = settled (queue_at s n)"
    "dead (queue_at s' n) = dead (queue_at s n)" "sends (queue_at s n) \<le> sends (queue_at s' n)"
    "n \<noteq> c_queue c \<Longrightarrow> queue_at s' n = queue_at s n"
    "declared s n \<Longrightarrow> declared s' n"
    by (auto simp: loop_step_def leave_def split: loop_pc.splits if_splits)
qed

lemma run_action_holds:
  assumes "holds_inv m"
  shows "holds_inv (run_action a (m\<lparr>threads := ths\<rparr>))"
  using assms by (cases a) (auto simp: holds_inv_def holds_of_def released_def release_permits_def)

lemma holds_inv_frame:
  "holds_inv m \<Longrightarrow> timers m' = timers m \<Longrightarrow>
     (\<And>n. held (queue_at (sh m') n) = held (queue_at (sh m) n)) \<Longrightarrow> holds_inv m'"
  by (simp add: holds_inv_def holds_of_def)

lemma holds_inv_remove:
  assumes "holds_inv m" "i < length (timers m)" "timers m ! i = (t, e, h)"
    and "timers m' = remove_nth i (timers m)"
      "\<And>n. held (queue_at (sh m') n) = held (queue_at (sh m) n) - (if h = Some n then 1 else 0)"
  shows "holds_inv m'"
  unfolding holds_inv_def
proof
  fix n
  show "held (queue_at (sh m') n) = holds_of m' n"
    using assms length_filter_remove_nth [OF assms(2), of "\<lambda>t. snd (snd t) = Some n"]
    by (auto simp: holds_inv_def holds_of_def)
qed

lemma holds_inv_exec:
  assumes "holds_inv m" "exec m ev = Some (r, m')"
  shows "holds_inv m'"
proof (cases ev)
  case (Fire i)
  with assms show ?thesis
    by (auto simp: silent_def fire_def split: if_splits prod.splits elim!: holds_inv_remove)
next
  case (AbortTimer i)
  with assms show ?thesis
    by (auto simp: silent_def abort_timer_def split: if_splits prod.splits option.splits
        elim!: holds_inv_remove)
next
  case (RunThread t)
  with assms show ?thesis
    by (auto simp: silent_def run_thread_def run_action_holds split: if_splits list.splits)
next
  case (RunLoop i)
  with assms show ?thesis
    by (auto simp: silent_def run_loop_def loop_step_shared(2) split: if_splits option.splits
        prod.splits elim!: holds_inv_frame)
qed (use assms in \<open>auto simp: silent_def declare_all_def declare_queues_def delivery_ack_def
    delivery_dead_letter_def delivery_retry_def delivery_defer_def delivery_drop_def record_dead_def
    publish_def backend_defer_def consume_def Let_def receive_def drop_stream_def close_def
    spawn_thread_def release_permits_def take_delivery_def
    split: if_splits option.splits prod.splits list.splits elim!: holds_inv_frame\<close>)

section \<open>Wake-ups and registration\<close>

text \<open>
  A loop that waits on the wake-up channel and has seen every notification has nothing to fetch;
  until it leaves, its semaphore is closed or listed with its queue, where \<open>close\<close> finds it.
\<close>

definition consumer_ok :: "shared \<Rightarrow> nat \<Rightarrow> consumer \<Rightarrow> bool" where
  "consumer_ok s i c \<longleftrightarrow> (let q = queue_at s (c_queue c) in
     seen c \<le> sends q
     \<and> (pc c \<noteq> Ended \<longrightarrow> declared s (c_queue c) \<and> (sem_closed c \<or> i \<in> set (consumers q)))
     \<and> (pc c = Waiting \<longrightarrow> sends q = seen c \<longrightarrow> pending q = [] \<and> \<not> closed s))"

definition loops_inv :: "mem \<Rightarrow> bool" where
  "loops_inv m \<longleftrightarrow> (\<forall>i<length (cons m). consumer_ok (sh m) i (cons m ! i))
     \<and> (closed (sh m) \<longrightarrow> (\<forall>n. consumers (queue_at (sh m) n) = []))"

text \<open>What the other tasks may do to the shared state while a loop stands still.\<close>

definition shared_le :: "nat set \<Rightarrow> shared \<Rightarrow> shared \<Rightarrow> bool" where
  "shared_le X s s' \<longleftrightarrow> closed s' = closed s \<and> (\<forall>n. sends (queue_at s n) \<le> sends (queue_at s' n)
     \<and> (sends (queue_at s' n) = sends (queue_at s n) \<longrightarrow> pending (queue_at s n) = []
          \<longrightarrow> pending (queue_at s' n) = [])
     \<and> (declared s n \<longrightarrow> declared s' n)
     \<and> set (consumers (queue_at s n)) - X \<subseteq> set (consumers (queue_at s' n))
     \<and> (closed s \<longrightarrow> set (consumers (queue_at s' n)) \<subseteq> set (consumers (queue_at s n))))"

lemma consumer_ok_le:
  assumes "consumer_ok s i c" "shared_le X s s'" "i \<notin> X"
  shows "consumer_ok s' i c"
proof -
  define q q' where "q = queue_at s (c_queue c)" and "q' = queue_at s' (c_queue c)"
  have "closed s' = closed s" "sends q \<le> sends q'"
    "sends q' = sends q \<Longrightarrow> pending q = [] \<Longrightarrow> pending q' = []"
    "declared s (c_queue c) \<Longrightarrow> declared s' (c_queue c)"
    "i \<in> set (consumers q) \<Longrightarrow> i \<in> set (consumers q')"
    using assms(2,3) by (auto simp: shared_le_def q_def q'_def)
  with assms(1) show ?thesis
    unfolding consumer_ok_def Let_def q_def [symmetric] q'_def [symmetric] by auto
qed

lemma shared_le_ops [simp]:
  "shared_le {} s s" "shared_le {} s (enqueue_now e h s)" "shared_le {} s (hold_one n s)"
  "shared_le {} s (record_ack e k s)" "shared_le {} s (release_hold n s)"
  "shared_le {} s (declare_loop cs s)" "shared_le {} s (requeue_unread n xs s)"
  "shared_le {} s (push_back_to_front n e s)" "shared_le {i} s (unregister_consumer n i s)"
  "\<not> closed s \<Longrightarrow> shared_le {} s (register_consumer n i s)"
  by (auto simp: shared_le_def)

lemma shared_le_record_dead: "record_dead e r s = (x, s') \<Longrightarrow> shared_le {} s s'"
  by (auto simp: record_dead_def shared_le_def declared_def split: if_splits)

lemma loops_inv_le:
  assumes "loops_inv m" "shared_le {} (sh m) (sh m')"
    and "length (cons m') = length (cons m)"
      "\<And>i. i < length (cons m) \<Longrightarrow> consumer_ok (sh m') i (cons m ! i) \<Longrightarrow>
        consumer_ok (sh m') i (cons m' ! i)"
  shows "loops_inv m'"
  using assms consumer_ok_le [OF _ assms(2)] unfolding loops_inv_def
  by (auto simp: shared_le_def)

lemma consumer_ok_same:
  "consumer_ok s i c \<Longrightarrow> c_queue c' = c_queue c \<Longrightarrow> seen c' = seen c \<Longrightarrow> pc c' = pc c \<Longrightarrow>
     sem_closed c' = sem_closed c \<Longrightarrow> consumer_ok s i c'"
  by (simp add: consumer_ok_def)

lemma consumer_ok_permits [simp]:
  "consumer_ok s i (c\<lparr>permits := k\<rparr>) = consumer_ok s i c"
  "consumer_ok s i (c\<lparr>chan := xs\<rparr>) = consumer_ok s i c"
  "consumer_ok s i (c\<lparr>rx_open := b\<rparr>) = consumer_ok s i c"
  by (simp_all add: consumer_ok_def)

lemma release_permits_loops [simp]:
  "sh (release_permits i k m) = sh m" "length (cons (release_permits i k m)) = length (cons m)"
  "j < length (cons m) \<Longrightarrow>
     consumer_ok s j (cons (release_permits i k m) ! j) = consumer_ok s j (cons m ! j)"
  by (auto simp: release_permits_def nth_list_update)

lemma loop_step_ok:
  assumes "consumer_ok s i c" "loop_step i s c = Some (s', c')"
  shows "consumer_ok s' i c'" "shared_le {i} s s'"
proof -
  note k = assms(2)
  show "consumer_ok s' i c'"
  proof (cases "pc c = Check")
    case True
    show ?thesis
      by (cases rule: pop_pending_cases [of "c_queue c" s])
        (use assms True in \<open>auto simp: loop_step_def consumer_ok_def Let_def leave_def
          split: if_splits\<close>)
  next
    case False
    with assms show ?thesis
      by (auto simp: loop_step_def consumer_ok_def Let_def leave_def split: loop_pc.splits if_splits)
  qed
  show "shared_le {i} s s'"
  proof (cases "pc c = Check")
    case True
    show ?thesis
      by (cases rule: pop_pending_cases [of "c_queue c" s])
        (use assms True in \<open>auto simp: loop_step_def shared_le_def split: if_splits\<close>)
  next
    case False
    with assms show ?thesis
      by (auto simp: loop_step_def shared_le_def split: loop_pc.splits if_splits)
  qed
qed

lemma loops_inv_run_loop:
  assumes "loops_inv m" "run_loop i m = Some m'"
  shows "loops_inv m'"
proof -
  obtain s' c' where i: "i < length (cons m)" and st: "loop_step i (sh m) (cons m ! i) = Some (s', c')"
    and m': "m' = m\<lparr>sh := s', cons := (cons m)[i := c']\<rparr>"
    using assms(2) by (auto simp: run_loop_def split: if_splits option.splits)
  have ok: "consumer_ok (sh m) i (cons m ! i)" using assms(1) i by (simp add: loops_inv_def)
  note le = loop_step_ok [OF ok st]
  have "consumer_ok s' k (cons m' ! k)" if "k < length (cons m')" for k
    using that le consumer_ok_le [OF _ le(2), of k] assms(1)
    by (cases "k = i") (auto simp: m' loops_inv_def)
  moreover have "closed s' \<Longrightarrow> consumers (queue_at s' n) = []" for n
    using le(2) assms(1) by (auto simp: shared_le_def loops_inv_def)
  ultimately show ?thesis by (simp add: loops_inv_def m')
qed

lemma loops_inv_close:
  assumes "loops_inv m" "close m = (r, m')"
  shows "loops_inv m'"
proof -
  have s': "sh m' = close_shared (sh m)" using assms(2) by (auto simp: close_def)
  have "consumer_ok (sh m') i (cons m' ! i)" if "i < length (cons m')" for i
    using that close_cons [OF assms(2)] assms(1)
    by (auto simp: s' loops_inv_def consumer_ok_def Let_def drained_def le_SucI)
  moreover have "consumers (queue_at (sh m') n) = []" for n
    by (auto simp: s' queue_at_None declared_def)
  ultimately show ?thesis by (simp add: loops_inv_def)
qed

lemma loops_inv_consume:
  assumes "loops_inv m"
  shows "loops_inv (consume qc m)"
proof (cases "closed (sh m)")
  case True
  with assms show ?thesis
    by (auto simp: loops_inv_def consume_def Let_def nth_append consumer_ok_def less_Suc_eq)
next
  case False
  let ?s = "register_consumer (qc_name qc) (length (cons m)) (sh m)"
  have le: "shared_le {} (sh m) ?s" using False by simp
  have "consumer_ok ?s i (cons (consume qc m) ! i)" if "i < length (cons (consume qc m))" for i
  proof (cases "i < length (cons m)")
    case True
    then have "consumer_ok ?s i (cons m ! i)"
      using assms consumer_ok_le [OF _ le] by (auto simp: loops_inv_def)
    with True False show ?thesis by (simp add: consume_def Let_def nth_append)
  next
    case False
    with that \<open>\<not> closed (sh m)\<close> show ?thesis
      by (simp add: consume_def Let_def nth_append consumer_ok_def split: if_splits)
  qed
  with False show ?thesis by (simp add: loops_inv_def) (simp add: consume_def Let_def)
qed

lemma loops_inv_exec:
  assumes "loops_inv m" "exec m ev = Some (r, m')"
  shows "loops_inv m'"
proof (cases ev)
  case (RunThread t)
  then obtain a rest where "m' = run_action a (m\<lparr>threads := (threads m)[t := rest]\<rparr>)"
    using assms(2) by (auto simp: silent_def run_thread_def split: if_splits list.splits)
  with assms(1) show ?thesis by (cases a) (auto elim!: loops_inv_le)
next
  case (Consume qc)
  with assms loops_inv_consume show ?thesis by auto
next
  case Close
  with assms loops_inv_close show ?thesis by auto
next
  case (RunLoop i)
  with assms loops_inv_run_loop show ?thesis by (auto simp: silent_def)
qed (use assms in \<open>auto simp: silent_def declare_all_def declare_queues_def delivery_ack_def
    delivery_dead_letter_def delivery_retry_def delivery_defer_def delivery_drop_def
    publish_def backend_defer_def receive_def drop_stream_def fire_def abort_timer_def
    spawn_thread_def take_delivery_def Let_def nth_list_update
    split: if_splits option.splits prod.splits list.splits dest: shared_le_record_dead
    elim!: loops_inv_le\<close>)

end
