(* ===== verification/Memory_Conservation.thy ===== *)
theory Memory_Conservation
  imports Memory_Invariants
begin

text \<open>
  Where an envelope is. \<open>tally m e\<close> counts the copies of \<open>e\<close> in every place the backend can keep one:
  a queue's pending, settled and dead lists, a consumer loop's hand and channel, the client's
  deliveries, the timers and the calls under way. Every event moves copies between these places;
  this theory shows which events add or lose one.
\<close>

definition held_by :: "consumer \<Rightarrow> envelope list" where
  "held_by c = chan c @ (case pc c of Send e \<Rightarrow> [e] | PutBack e \<Rightarrow> [e] | _ \<Rightarrow> [])"

definition stored :: "shared \<Rightarrow> envelope \<Rightarrow> nat" where
  "stored s e = (let q = queue_at s (queue e) in count_list (pending q) e
     + count_list (map fst (settled q)) e + count_list (map fst (dead q)) e)"

fun carried :: "action \<Rightarrow> envelope list" where
  "carried (DoEnqueue e) = [e]"
| "carried (DoSpawn e t) = [e]"
| "carried (DoHold e t) = [e]"
| "carried (DoRecordAck e k) = [e]"
| "carried (DoRelease i) = []"

definition thread_count :: "envelope \<Rightarrow> action list \<Rightarrow> nat" where
  "thread_count e th = count_list (concat (map carried th)) e"

definition tally :: "mem \<Rightarrow> envelope \<Rightarrow> nat" where
  "tally m e = stored (sh m) e + sum_list (map (\<lambda>c. count_list (held_by c) e) (cons m))
     + count_list (map snd (handed m)) e + count_list (map (\<lambda>t. fst (snd t)) (timers m)) e
     + sum_list (map (thread_count e) (threads m))"

text \<open>A pending envelope is on the queue it names, and so is one a consumer is carrying.\<close>

definition placed :: "mem \<Rightarrow> bool" where
  "placed m \<longleftrightarrow> (\<forall>n. \<forall>e\<in>set (pending (queue_at (sh m) n)). queue e = n)
     \<and> (\<forall>i<length (cons m). \<forall>e\<in>set (held_by (cons m ! i)). queue e = c_queue (cons m ! i))"

lemma set_insert_pending [simp]: "set (insert_pending e xs) = insert e (set xs)"
  using fifo.ins_mset [of e xs] by (metis set_mset_add_mset_insert set_mset_mset)

lemma count_insert_pending [simp]:
  "count_list (insert_pending e xs) x = count_list xs x + (if x = e then 1 else 0)"
  using fifo.ins_mset [of e xs] by (simp add: count_list_mset [symmetric])

lemma held_by_simps [simp]:
  "held_by (c\<lparr>permits := k\<rparr>) = held_by c" "held_by (c\<lparr>sem_closed := b\<rparr>) = held_by c"
  "held_by (c\<lparr>rx_open := b\<rparr>) = held_by c" "held_by (c\<lparr>seen := t\<rparr>) = held_by c"
  by (simp_all add: held_by_def)

lemma loop_step_placed:
  assumes "loop_step i s c = Some (s', c')"
    and "\<And>e. e \<in> set (pending (queue_at s n)) \<Longrightarrow> queue e = n"
      "\<And>e. e \<in> set (pending (queue_at s (c_queue c))) \<Longrightarrow> queue e = c_queue c"
      "\<And>e. e \<in> set (held_by c) \<Longrightarrow> queue e = c_queue c"
  shows "(\<forall>e\<in>set (pending (queue_at s' n)). queue e = n) \<and> (\<forall>e\<in>set (held_by c'). queue e = c_queue c')"
proof (cases "pc c = Check")
  case True
  show ?thesis
    by (cases rule: pop_pending_cases [of "c_queue c" s])
      (use assms True in \<open>auto simp: loop_step_def held_by_def leave_def split: if_splits\<close>)
next
  case False
  with assms show ?thesis
    by (cases "pc c") (auto simp: loop_step_def held_by_def leave_def split: if_split_asm)
qed

lemma placed_exec:
  assumes "placed m" "exec m ev = Some (r, m')"
  shows "placed m'"
proof (cases ev)
  case (RunThread t)
  then obtain a rest where "m' = run_action a (m\<lparr>threads := (threads m)[t := rest]\<rparr>)"
    using assms(2) by (auto simp: silent_def run_thread_def split: if_splits list.splits)
  with assms(1) show ?thesis
    by (cases a) (auto simp: placed_def release_permits_def nth_list_update)
next
  case (Consume qc)
  with assms show ?thesis
    by (auto simp: placed_def consume_def Let_def nth_append held_by_def split: if_splits)
next
  case Close
  then have "sh m' = close_shared (sh m)" using assms(2) by (auto simp: close_def)
  with assms Close close_cons [of m r m'] show ?thesis by (auto simp: placed_def)
next
  case (RunLoop i)
  then obtain s' c' where i: "i < length (cons m)" and st: "loop_step i (sh m) (cons m ! i) = Some (s', c')"
    and m': "m' = m\<lparr>sh := s', cons := (cons m)[i := c']\<rparr>"
    using assms(2) by (auto simp: silent_def run_loop_def split: if_splits option.splits)
  have "(\<forall>e\<in>set (pending (queue_at s' n)). queue e = n) \<and> (\<forall>e\<in>set (held_by c'). queue e = c_queue c')" for n
    by (rule loop_step_placed [OF st]) (use assms(1) i in \<open>auto simp: placed_def\<close>)
  with assms(1) i show ?thesis by (auto simp: placed_def m' nth_list_update)
next
  case (DropStream i)
  with assms show ?thesis
    by (auto simp: silent_def drop_stream_def Let_def placed_def nth_list_update held_by_def
        split: if_splits)
qed (use assms in \<open>auto simp: silent_def declare_all_def declare_queues_def delivery_ack_def
    delivery_dead_letter_def delivery_retry_def delivery_defer_def delivery_drop_def
    publish_def backend_defer_def receive_def fire_def abort_timer_def
    spawn_thread_def take_delivery_def Let_def nth_list_update placed_def release_permits_def record_dead_def
    held_by_def split: if_splits option.splits prod.splits list.splits\<close>)

section \<open>Counting\<close>

lemma stored_simps [simp]:
  "stored (enqueue_now e' h s) e = stored s e + (if e = e' \<and> \<not> closed s then 1 else 0)"
  "stored (hold_one n s) e = stored s e" "stored (release_hold n s) e = stored s e"
  "stored (record_ack e' k s) e = stored s e + (if e = e' then 1 else 0)"
  "stored (declare_loop cs s) e = stored s e" "stored (close_shared s) e = stored s e"
  "stored (register_consumer n i s) e = stored s e" "stored (unregister_consumer n i s) e = stored s e"
  by (auto simp: stored_def Let_def)

lemma stored_requeue:
  "(\<And>e. e \<in> set xs \<Longrightarrow> queue e = n) \<Longrightarrow>
     stored (requeue_unread n xs s) e = stored s e + (if closed s then 0 else count_list xs e)"
  by (cases "queue e = n") (auto simp: stored_def Let_def count_list_0_iff)

lemma stored_push_back:
  "declared s n \<Longrightarrow> queue e' = n \<Longrightarrow>
     stored (push_back_to_front n e' s) e = stored s e + (if e = e' then 1 else 0)"
  by (auto simp: stored_def Let_def)

lemma stored_record_dead:
  "record_dead e' reason s = (r, s') \<Longrightarrow>
     stored s' e = stored s e + (if e = e' \<and> \<not> closed s then 1 else 0)"
  by (auto simp: record_dead_def stored_def Let_def split: if_splits)

lemma loop_step_count:
  assumes "loop_step i s c = Some (s', c')"
    and "\<And>e. e \<in> set (pending (queue_at s (c_queue c))) \<Longrightarrow> queue e = c_queue c"
      "\<And>e. e \<in> set (held_by c) \<Longrightarrow> queue e = c_queue c" "pc c \<noteq> Ended \<Longrightarrow> declared s (c_queue c)"
  shows "stored s' e + count_list (held_by c') e = stored s e + count_list (held_by c) e"
proof (cases "pc c = Check")
  case True
  show ?thesis
  proof (cases rule: pop_pending_cases [of "c_queue c" s])
    case empty
    with assms True show ?thesis
      by (auto simp: loop_step_def held_by_def leave_def split: if_splits)
  next
    case (popped e' rest)
    then have "queue e' = c_queue c" using assms(2) by simp
    with popped assms(1) True show ?thesis
      by (auto simp: loop_step_def held_by_def leave_def stored_def Let_def split: if_splits)
  qed
next
  case False
  with assms show ?thesis
    by (cases "pc c") (auto simp: loop_step_def held_by_def leave_def stored_push_back split: if_split_asm)
qed

text \<open>An envelope a call submits.\<close>

fun submitted :: "event \<Rightarrow> envelope list" where
  "submitted (Publish e d) = [e]"
| "submitted (Defer e d) = [e]"
| "submitted (RetryD j e d) = [e]"
| "submitted (DeferD j e d) = [e]"
| "submitted _ = []"

text \<open>The events that may lose an envelope even while the backend is open: a delivery dropped
  unsettled, and a timer task that is aborted.\<close>

fun abandons :: "event \<Rightarrow> bool" where
  "abandons (DropDelivery j) = True"
| "abandons (AbortTimer i) = True"
| "abandons _ = False"

lemma run_action_tally:
  assumes "t < length (threads m)" "threads m ! t = a # rest"
    and "m' = run_action a (m\<lparr>threads := (threads m)[t := rest]\<rparr>)"
  shows "tally m' e \<le> tally m e" "\<not> closed (sh m) \<Longrightarrow> tally m' e = tally m e"
proof -
  let ?s = "\<lambda>ths. sum_list (map (thread_count e) ths)"
  have th: "?s ((threads m)[t := rest]) + thread_count e (a # rest) = ?s (threads m) + thread_count e rest"
    using sum_list_map_update [OF assms(1), of "thread_count e" rest] assms(2) by simp
  have tc: "thread_count e (a # rest) = count_list (carried a) e + thread_count e rest"
    by (simp add: thread_count_def)
  have rel: "sum_list (map (\<lambda>c. count_list (held_by c) e) ((cons m)[i := (cons m ! i)\<lparr>permits := k\<rparr>]))
      = sum_list (map (\<lambda>c. count_list (held_by c) e) (cons m))" if "i < length (cons m)" for i k
    using sum_list_map_update [OF that, of "\<lambda>c. count_list (held_by c) e" "(cons m ! i)\<lparr>permits := k\<rparr>"]
    by simp
  show "tally m' e \<le> tally m e" "\<not> closed (sh m) \<Longrightarrow> tally m' e = tally m e"
    using th tc unfolding assms(3)
    by (cases a; auto simp: tally_def release_permits_def rel)+
qed

lemma tally_loop:
  assumes "placed m" "loops_inv m" "run_loop i m = Some m'"
  shows "tally m' e = tally m e"
proof -
  obtain s' c' where i: "i < length (cons m)" and st: "loop_step i (sh m) (cons m ! i) = Some (s', c')"
    and m': "m' = m\<lparr>sh := s', cons := (cons m)[i := c']\<rparr>"
    using assms(3) by (auto simp: run_loop_def split: if_splits option.splits)
  have "stored s' e + count_list (held_by c') e
      = stored (sh m) e + count_list (held_by (cons m ! i)) e"
    by (rule loop_step_count [OF st])
      (use assms(1,2) i in \<open>auto simp: placed_def loops_inv_def consumer_ok_def Let_def\<close>)
  with sum_list_map_update [OF i, of "\<lambda>c. count_list (held_by c) e" c'] show ?thesis
    by (simp add: tally_def m')
qed

lemma tally_deliver:
  assumes "take_delivery j m = Some ((i, e'), m1)"
  shows "tally m1 e + (if e = e' then 1 else 0) = tally m e"
proof -
  note f = take_delivery_facts(1-3) [OF assms]
  have "count_list (map snd (remove_nth j (handed m))) e + (if e' = e then 1 else 0)
      = count_list (map snd (handed m)) e"
    using count_remove_nth [OF f(2), of snd e] f(3) by simp
  then show ?thesis unfolding f(1) by (auto simp: tally_def)
qed

lemma tally_frames [simp]:
  "tally (spawn_thread as m) e = tally m e + count_list (concat (map carried as)) e"
  "tally (release_permits i k m) e = tally m e" "tally (m\<lparr>clock := t\<rparr>) e = tally m e"
proof -
  show "tally (spawn_thread as m) e = tally m e + count_list (concat (map carried as)) e"
    by (simp add: tally_def spawn_thread_def thread_count_def)
  show "tally (release_permits i k m) e = tally m e"
    using sum_list_map_update [of i "cons m" "\<lambda>c. count_list (held_by c) e"
        "(cons m ! i)\<lparr>permits := permits (cons m ! i) + k\<rparr>"]
    by (simp add: tally_def release_permits_def)
  show "tally (m\<lparr>clock := t\<rparr>) e = tally m e" by (simp add: tally_def)
qed

lemma tally_sh: "tally (m\<lparr>sh := s\<rparr>) e + stored (sh m) e = tally m e + stored s e"
  by (simp add: tally_def)

lemma carried_schedule [simp]:
  "concat (map carried (schedule_actions t e d)) = [e]"
  "concat (map carried (hold_actions t e d)) = [e]"
  by (simp_all add: schedule_actions_def hold_actions_def)

lemma tally_timer:
  assumes "i < length (timers m)" "timers m ! i = (t, e', h)"
  shows "tally (m\<lparr>timers := remove_nth i (timers m)\<rparr>) e + (if e = e' then 1 else 0) = tally m e"
  using count_remove_nth [OF assms(1), of "\<lambda>t. fst (snd t)" e] assms(2)
  by (auto simp: tally_def)

lemma sum_list_enumerate:
  "(\<And>i. i < length xs \<Longrightarrow> f (ys ! i) = f (xs ! i)) \<Longrightarrow> length ys = length xs \<Longrightarrow>
     sum_list (map f ys) = (sum_list (map f xs) :: nat)"
  by (rule arg_cong [of _ _ sum_list], rule nth_equalityI) simp_all

lemma tally_close: "close m = (r, m') \<Longrightarrow> tally m' e = tally m e"
proof -
  assume c: "close m = (r, m')"
  have "sum_list (map (\<lambda>c. count_list (held_by c) e) (cons m'))
      = sum_list (map (\<lambda>c. count_list (held_by c) e) (cons m))"
    by (rule sum_list_enumerate) (use close_cons [OF c] in auto)
  moreover have "sh m' = close_shared (sh m)" "handed m' = handed m" "timers m' = timers m"
    "threads m' = threads m"
    using c by (auto simp: close_def)
  ultimately show ?thesis by (simp add: tally_def)
qed

lemma tally_drop_stream:
  assumes "placed m" "drop_stream i m = Some m'"
  shows "tally m' e \<le> tally m e" "\<not> closed (sh m) \<Longrightarrow> tally m' e = tally m e"
proof -
  let ?c = "cons m ! i"
  have i: "i < length (cons m)" and m': "m' = m\<lparr>sh := requeue_unread (c_queue ?c) (chan ?c) (sh m),
      cons := (cons m)[i := ?c\<lparr>rx_open := False, chan := [], permits := permits ?c + length (chan ?c)\<rparr>]\<rparr>"
    using assms(2) by (auto simp: drop_stream_def Let_def split: if_splits)
  have "\<And>e. e \<in> set (chan ?c) \<Longrightarrow> queue e = c_queue ?c"
    using assms(1) i by (auto simp: placed_def held_by_def)
  note st = stored_requeue [OF this, of _ "sh m" e, simplified]
  have "count_list (held_by ?c) e = count_list (chan ?c) e + count_list (held_by (?c\<lparr>rx_open := False,
      chan := [], permits := permits ?c + length (chan ?c)\<rparr>)) e"
    by (simp add: held_by_def)
  with st sum_list_map_update [OF i, of "\<lambda>c. count_list (held_by c) e"
      "?c\<lparr>rx_open := False, chan := [], permits := permits ?c + length (chan ?c)\<rparr>"]
  show "tally m' e \<le> tally m e" "\<not> closed (sh m) \<Longrightarrow> tally m' e = tally m e"
    unfolding m' by (auto simp: tally_def)
qed

lemma tally_receive: "receive i m = Some m' \<Longrightarrow> tally m' e = tally m e"
proof -
  assume "receive i m = Some m'"
  then obtain e' rest where i: "i < length (cons m)" and c: "chan (cons m ! i) = e' # rest"
    and m': "m' = m\<lparr>cons := (cons m)[i := (cons m ! i)\<lparr>chan := rest\<rparr>], handed := handed m @ [(i, e')]\<rparr>"
    by (auto simp: receive_def split: if_splits list.splits)
  have "count_list (held_by (cons m ! i)) e
      = (if e' = e then 1 else 0) + count_list (held_by ((cons m ! i)\<lparr>chan := rest\<rparr>)) e"
    using c by (simp add: held_by_def)
  with sum_list_map_update [OF i, of "\<lambda>c. count_list (held_by c) e" "(cons m ! i)\<lparr>chan := rest\<rparr>"]
  show ?thesis by (auto simp: tally_def m')
qed

lemma tally_settle:
  assumes "exec m ev = Some (r, m')" "ev = Ack j \<or> ev = DeadLetter j reason \<or> ev = RetryD j nxt d
      \<or> ev = DeferD j nxt d \<or> ev = DropDelivery j"
  shows "tally m' e \<le> tally m e + count_list (submitted ev) e"
    "\<not> closed (sh m) \<Longrightarrow> \<not> abandons ev \<Longrightarrow> tally m' e = tally m e + count_list (submitted ev) e"
proof -
  obtain i e' m1 where t: "take_delivery j m = Some ((i, e'), m1)"
    using assms by (cases "take_delivery j m") (auto simp: silent_def delivery_ack_def
        delivery_dead_letter_def delivery_retry_def delivery_defer_def delivery_drop_def)
  have sh1: "sh m1 = sh m" using take_delivery_facts(1) [OF t] by simp
  note d = tally_deliver [OF t, of e]
  have dead: "record_dead e' reason (sh m) = (r, s) \<Longrightarrow>
      tally (m1\<lparr>sh := s\<rparr>) e = tally m1 e + (if e = e' \<and> \<not> closed (sh m) then 1 else 0)" for s
    using stored_record_dead [of e' reason "sh m" r s e] tally_sh [where m = m1 and s = s and e = e] sh1 by simp
  show "tally m' e \<le> tally m e + count_list (submitted ev) e"
    "\<not> closed (sh m) \<Longrightarrow> \<not> abandons ev \<Longrightarrow> tally m' e = tally m e + count_list (submitted ev) e"
    using assms d sh1 dead by (auto simp: t silent_def delivery_ack_def delivery_dead_letter_def
        delivery_retry_def delivery_defer_def delivery_drop_def split: if_splits prod.splits)
qed

lemma tally_exec:
  assumes "placed m" "loops_inv m" "exec m ev = Some (r, m')"
  shows "tally m' e \<le> tally m e + count_list (submitted ev) e"
    and "\<not> closed (sh m) \<Longrightarrow> \<not> abandons ev \<Longrightarrow> tally m' e = tally m e + count_list (submitted ev) e"
proof -
  have "tally m' e \<le> tally m e + count_list (submitted ev) e
     \<and> (\<not> closed (sh m) \<longrightarrow> \<not> abandons ev \<longrightarrow> tally m' e = tally m e + count_list (submitted ev) e)"
  proof (cases ev)
    case (RunThread t)
    then obtain a rest where "t < length (threads m)" "threads m ! t = a # rest"
      "m' = run_action a (m\<lparr>threads := (threads m)[t := rest]\<rparr>)"
      using assms(3) by (auto simp: silent_def run_thread_def split: if_splits list.splits)
    from run_action_tally [OF this] RunThread show ?thesis by simp
  next
    case (Fire i)
    then obtain t e' h where "i < length (timers m)" "timers m ! i = (t, e', h)"
      and m': "m' = m\<lparr>timers := remove_nth i (timers m), sh := enqueue_now e' h (sh m)\<rparr>"
      using assms(3) by (auto simp: silent_def fire_def split: if_splits prod.splits)
    from tally_timer [OF this(1,2), of e] Fire show ?thesis
      using tally_sh [where m = "m\<lparr>timers := remove_nth i (timers m)\<rparr>"
        and s = "enqueue_now e' h (sh m)" and e = e]
      by (auto simp: m')
  next
    case (AbortTimer i)
    then obtain t e' h where "i < length (timers m)" "timers m ! i = (t, e', h)"
      and m': "m' = m\<lparr>timers := remove_nth i (timers m), sh := released h (sh m)\<rparr>"
      using assms(3) by (auto simp: silent_def abort_timer_def released_def split: if_splits prod.splits)
    from tally_timer [OF this(1,2), of e] AbortTimer show ?thesis
      using tally_sh [where m = "m\<lparr>timers := remove_nth i (timers m)\<rparr>"
        and s = "released h (sh m)" and e = e]
      by (auto simp: m' released_def split: option.splits)
  next
    case (Consume qc)
    with assms(3) show ?thesis
      by (auto simp: consume_def Let_def tally_def held_by_def)
  next
    case (DropStream i)
    with assms tally_drop_stream [of m i m' e] show ?thesis by (auto simp: silent_def)
  next
    case Close
    with assms(3) tally_close [of m r m' e] show ?thesis by simp
  next
    case (RunLoop i)
    with assms tally_loop [of m i m' e] show ?thesis by (auto simp: silent_def)
  next
    case (Receive i)
    with assms(3) tally_receive [of i m m' e] show ?thesis by (auto simp: silent_def)
  next
    case (Ack j)
    with tally_settle [OF assms(3), of j _ _ _ e] show ?thesis by simp
  next
    case (DeadLetter j reason)
    with tally_settle [OF assms(3), of j reason _ _ e] show ?thesis by simp
  next
    case (RetryD j nxt d)
    with tally_settle [OF assms(3), of j _ nxt d e] show ?thesis by simp
  next
    case (DeferD j nxt d)
    with tally_settle [OF assms(3), of j _ nxt d e] show ?thesis by simp
  next
    case (DropDelivery j)
    with tally_settle [OF assms(3), of j _ _ _ e] show ?thesis by simp
  next
    case (Declare cs)
    with assms(3) show ?thesis
      by (auto simp: declare_all_def declare_queues_def tally_def split: if_splits)
  qed (use assms(3) in \<open>auto simp: publish_def backend_defer_def split: if_splits\<close>)
  then show "tally m' e \<le> tally m e + count_list (submitted ev) e"
    and "\<not> closed (sh m) \<Longrightarrow> \<not> abandons ev \<Longrightarrow> tally m' e = tally m e + count_list (submitted ev) e"
    by blast+
qed

end
