(* ===== verification/Memory_Properties.thy ===== *)
theory Memory_Properties
  imports Memory_Conservation
begin

text \<open>
  What the in-memory backend guarantees, over every interleaving of its tasks and its clients'
  calls. The invariants of \<open>Memory_Invariants\<close> and the counting of \<open>Memory_Conservation\<close> do the
  work; here they are put together over reachable states and over runs.
\<close>

fun run :: "mem \<Rightarrow> event list \<Rightarrow> mem option" where
  "run m [] = Some m"
| "run m (ev # evs) = (case (exec m ev :: ((string error + unit) \<times> mem) option) of
     None \<Rightarrow> None | Some (r, m') \<Rightarrow> run m' evs)"

lemma run_append: "run m (xs @ ys) = (case run m xs of None \<Rightarrow> None | Some m1 \<Rightarrow> run m1 ys)"
  by (induction xs arbitrary: m) (auto split: option.splits)

lemma run_induct [consumes 1, case_names start step]:
  assumes "run m evs = Some m'" "P m []"
    and "\<And>m1 ev evs (r :: string error + unit) m2. run m evs = Some m1 \<Longrightarrow> P m1 evs \<Longrightarrow>
      exec m1 ev = Some (r, m2) \<Longrightarrow> P m2 (evs @ [ev])"
  shows "P m' evs"
  using assms(1)
proof (induction evs arbitrary: m' rule: rev_induct)
  case Nil
  with assms(2) show ?case by simp
next
  case (snoc ev evs)
  from snoc.prems obtain m1 r where "run m evs = Some m1" "exec m1 ev = Some (r :: string error + unit, m')"
    by (auto simp: run_append split: option.splits prod.splits)
  with snoc.IH assms(3) show ?case by blast
qed

section \<open>The invariants hold in every reachable state\<close>

lemma invs_start: "permits_inv mem_new" "holds_inv mem_new" "loops_inv mem_new" "placed mem_new"
  by (simp_all add: permits_inv_def handed_of_def releases_def holds_inv_def holds_of_def loops_inv_def
      placed_def mem_new_def shared_new_def queue_at_def)

lemma reachable_invs:
  assumes "reachable m"
  shows "permits_inv m" "holds_inv m" "loops_inv m" "placed m"
proof -
  from assms have "permits_inv m \<and> holds_inv m \<and> loops_inv m \<and> placed m"
    by (induction rule: reachable.induct)
      (auto simp: invs_start intro: permits_inv_exec holds_inv_exec loops_inv_exec placed_exec)
  then show "permits_inv m" "holds_inv m" "loops_inv m" "placed m" by blast+
qed

lemma run_reachable: "run mem_new evs = Some m \<Longrightarrow> reachable m"
  by (induction rule: run_induct) (auto intro: reachable.intros)

lemma run_action_closed [simp]: "closed (sh (run_action a m)) = closed (sh m)"
  by (cases a) simp_all

lemma exec_closed: "exec m ev = Some (r, m') \<Longrightarrow> closed (sh m') \<longleftrightarrow> closed (sh m) \<or> ev = Close"
  by (cases ev) (auto simp: silent_def declare_all_def declare_queues_def delivery_ack_def
    delivery_dead_letter_def delivery_retry_def delivery_defer_def delivery_drop_def record_dead_def
    publish_def backend_defer_def receive_def drop_stream_def fire_def abort_timer_def consume_def
    spawn_thread_def take_delivery_def Let_def close_def run_loop_def run_thread_def
    queue_mut_parts(2) split: if_splits option.splits prod.splits list.splits
    dest: loop_step_shared(1))

lemma run_closed: "run m evs = Some m' \<Longrightarrow> closed (sh m') \<longleftrightarrow> closed (sh m) \<or> Close \<in> set evs"
  by (induction rule: run_induct) (auto dest: exec_closed)

section \<open>Conservation\<close>

lemma run_conserves:
  assumes "run mem_new evs = Some m" "Close \<notin> set evs" "\<forall>ev\<in>set evs. \<not> abandons ev"
  shows "tally m e = count_list (concat (map submitted evs)) e"
proof -
  have "Close \<notin> set evs \<longrightarrow> (\<forall>ev\<in>set evs. \<not> abandons ev) \<longrightarrow>
      tally m e = count_list (concat (map submitted evs)) e" using assms(1)
  proof (induction rule: run_induct)
    case start
    show ?case by (simp add: tally_def mem_new_def stored_def shared_new_def queue_at_def)
  next
    case (step m1 ev evs r m2)
    from step(1) have "reachable m1" by (rule run_reachable)
    with step tally_exec(2) [OF reachable_invs(4,3) step(2), of e] run_closed [OF step(1)]
    show ?case by (auto simp: mem_new_def shared_new_def)
  qed
  with assms show ?thesis by blast
qed

text \<open>C4: as long as the backend is not closed, and no delivery is dropped unsettled and no timer
  task aborted, every envelope that was submitted is, at every moment and under every interleaving,
  in exactly one place for each time it was submitted: nothing is lost and nothing is duplicated.\<close>

theorem open_backend_conserves_messages:
  assumes "run mem_new evs = Some m" "Close \<notin> set evs" "\<forall>ev\<in>set evs. \<not> abandons ev"
  shows "tally m e = count_list (concat (map submitted evs)) e"
  by (rule run_conserves [OF assms])

text \<open>no envelope is ever duplicated, closed backend or not: there are never more copies of it
  than times it was submitted.\<close>

theorem no_message_is_duplicated:
  assumes "run mem_new evs = Some m"
  shows "tally m e \<le> count_list (concat (map submitted evs)) e"
  using assms
proof (induction rule: run_induct)
  case start
  show ?case by (simp add: tally_def mem_new_def stored_def shared_new_def queue_at_def)
next
  case (step m1 ev evs r m2)
  from step(1) have "reachable m1" by (rule run_reachable)
  with step tally_exec(1) [OF reachable_invs(4,3) step(2), of e] show ?case by auto
qed

section \<open>The prefetch window\<close>

text \<open>The window is the one of the \<open>QueueConfig\<close> that was passed to \<open>consume\<close>: a run makes one consumer per
  call, in their order, and no later event changes the queue it serves or its number of slots.\<close>

fun consumed :: "event list \<Rightarrow> queue_config list" where
  "consumed [] = []"
| "consumed (Consume qc # evs) = qc # consumed evs"
| "consumed (ev # evs) = consumed evs"

definition window :: "queue_config \<Rightarrow> nat" where
  "window qc = (if prefetch qc = 0 then 2 ^ 61 - 1 else unat (prefetch qc))"

lemma consumed_append: "consumed (xs @ ys) = consumed xs @ consumed ys"
  by (induction xs rule: consumed.induct) auto

abbreviation identity :: "consumer \<Rightarrow> string \<times> nat" where
  "identity c \<equiv> (c_queue c, capacity c)"

lemma map_update_same: "i < length xs \<Longrightarrow> f x = f (xs ! i) \<Longrightarrow> map f (xs[i := x]) = map f xs"
  by (simp add: map_update list_update_same_conv)

lemma run_action_identity: "map identity (cons (run_action a m)) = map identity (cons m)"
  by (cases a) (simp_all add: release_permits_def map_update_same)

lemma exec_identity:
  assumes "exec m ev = Some (r, m')"
  shows "map identity (cons m') = map identity (cons m) @ map (\<lambda>qc. (qc_name qc, window qc)) (consumed [ev])"
proof (cases ev)
  case (RunThread t)
  then obtain a rest where "m' = run_action a (m\<lparr>threads := (threads m)[t := rest]\<rparr>)"
    using assms by (auto simp: silent_def run_thread_def split: if_splits list.splits)
  with RunThread show ?thesis by (simp add: run_action_identity)
next
  case (Consume qc)
  with assms show ?thesis by (auto simp: silent_def consume_def window_def MAX_PERMITS_def Let_def)
next
  case Close
  with assms show ?thesis by (auto simp: close_def enumerate_eq_zip comp_def split_beta intro!: nth_equalityI)
next
  case (RunLoop i)
  with assms show ?thesis
    by (auto simp: silent_def run_loop_def map_update_same split: if_splits option.splits prod.splits
        dest!: loop_step_permits)
qed (use assms in \<open>auto simp: silent_def declare_all_def declare_queues_def delivery_ack_def
    delivery_dead_letter_def delivery_retry_def delivery_defer_def delivery_drop_def
    publish_def backend_defer_def receive_def drop_stream_def fire_def abort_timer_def
    spawn_thread_def take_delivery_def Let_def release_permits_def map_update_same
    split: if_splits option.splits prod.splits list.splits\<close>)

lemma run_identity:
  "run mem_new evs = Some m \<Longrightarrow> map identity (cons m) = map (\<lambda>qc. (qc_name qc, window qc)) (consumed evs)"
  by (induction rule: run_induct) (auto simp: mem_new_def consumed_append dest: exec_identity)

lemma run_consumer:
  assumes "run mem_new evs = Some m" "i < length (cons m)"
  shows "i < length (consumed evs)" "c_queue (cons m ! i) = qc_name (consumed evs ! i)"
    "capacity (cons m ! i) = window (consumed evs ! i)"
proof -
  have len: "length (cons m) = length (consumed evs)"
    using run_identity [OF assms(1)] by (metis length_map)
  with assms(2) show "i < length (consumed evs)" by simp
  have "identity (cons m ! i) = (qc_name (consumed evs ! i), window (consumed evs ! i))"
    using arg_cong [OF run_identity [OF assms(1)], of "\<lambda>xs. xs ! i"] assms(2) len by simp
  then show "c_queue (cons m ! i) = qc_name (consumed evs ! i)"
    "capacity (cons m ! i) = window (consumed evs ! i)" by simp_all
qed

text \<open>C8: after any run, the consumer that the \<open>i\<close>-th call of \<open>consume\<close> made serves the queue of the
  configuration it was given, and its free slots, the message its loop is fetching, the deliveries
  in its channel, the unsettled ones in the client's hands and the slots that settled deliveries
  are about to give back add up to exactly the prefetch of that configuration, or to the largest
  semaphore when the prefetch is zero. So no more deliveries than that are ever outstanding, and no
  slot is ever lost.\<close>

theorem prefetch_window_respected:
  assumes "run mem_new evs = Some m" "i < length (cons m)"
  shows "i < length (consumed evs) \<and> c_queue (cons m ! i) = qc_name (consumed evs ! i)
    \<and> permits (cons m ! i) + in_loop (pc (cons m ! i)) + length (chan (cons m ! i)) + handed_of m i
        + releases m i = (let n = prefetch (consumed evs ! i) in if n = 0 then 2 ^ 61 - 1 else unat n)
    \<and> in_loop (pc (cons m ! i)) + length (chan (cons m ! i)) + handed_of m i
        \<le> (let n = prefetch (consumed evs ! i) in if n = 0 then 2 ^ 61 - 1 else unat n)"
  using run_consumer [OF assms] permits_invD(1) [OF reachable_invs(1) [OF run_reachable [OF assms(1)]] assms(2)]
  by (simp add: window_def Let_def)

section \<open>Holds\<close>

text \<open>C31: \<open>deferred(queue)\<close> is exactly the number of live holds of the queue, and its decrement never
  saturates.\<close>

theorem deferred_counts_live_holds:
  assumes "reachable m"
  shows "deferred_count (sh m) n = holds_of m n"
  using reachable_invs(2) [OF assms]
  by (auto simp: holds_inv_def deferred_count_def queue_at_def split: option.splits dest: spec [of _ n])

section \<open>Wake-ups\<close>

lemma pending_count_eq: "pending_count s n = length (pending (queue_at s n))"
  by (simp add: pending_count_def queue_at_def split: option.split)

lemma blocked_consumer:
  assumes "reachable m" "i < length (cons m)" "run_loop i m = None"
  shows "pc (cons m ! i) = Ended
    \<or> (pc (cons m ! i) = AwaitPermit \<and> permits (cons m ! i) = 0 \<and> \<not> closed (sh m))
    \<or> (pc (cons m ! i) = Waiting \<and> pending_count (sh m) (c_queue (cons m ! i)) = 0 \<and> \<not> closed (sh m))"
proof -
  have ok: "consumer_ok (sh m) i (cons m ! i)" and cl: "closed (sh m) \<Longrightarrow> consumers (queue_at (sh m) n) = []" for n
    using reachable_invs(3) [OF assms(1)] assms(2) by (auto simp: loops_inv_def)
  have "loop_step i (sh m) (cons m ! i) = None"
    using assms(2,3) by (auto simp: run_loop_def split: option.splits)
  then show ?thesis using ok cl
    by (auto simp: loop_step_def consumer_ok_def Let_def pending_count_eq
        split: loop_pc.splits if_splits prod.splits option.splits)
qed

text \<open>C23: a consumer loop that cannot move has ended, or is at the limit of its prefetch window, or
  the queue it serves is empty and the backend open: no wake-up is ever lost.\<close>

theorem blocked_consumer_has_nothing_to_fetch:
  assumes "reachable m" "i < length (cons m)" "run_loop i m = None"
  shows "pc (cons m ! i) = Ended
    \<or> (pc (cons m ! i) = AwaitPermit \<and> permits (cons m ! i) = 0 \<and> \<not> closed (sh m))
    \<or> (pc (cons m ! i) = Waiting \<and> pending_count (sh m) (c_queue (cons m ! i)) = 0 \<and> \<not> closed (sh m))"
  by (rule blocked_consumer [OF assms])

section \<open>Closing\<close>

definition loop_rank :: "loop_pc \<Rightarrow> nat" where
  "loop_rank p = (case p of Ended \<Rightarrow> 0 | Leaving \<Rightarrow> 1 | AwaitPermit \<Rightarrow> 2 | Check \<Rightarrow> 2 | PutBack _ \<Rightarrow> 2
     | Waiting \<Rightarrow> 3 | Send _ \<Rightarrow> 3)"

lemma cons_frame:
  assumes "exec m ev = Some (r, m')" "ev \<noteq> RunLoop i" "i < length (cons m)"
  shows "i < length (cons m')" "pc (cons m' ! i) = pc (cons m ! i)"
proof -
  have "i < length (cons m') \<and> pc (cons m' ! i) = pc (cons m ! i)"
  proof (cases ev)
    case (RunThread t)
    then obtain a rest where "m' = run_action a (m\<lparr>threads := (threads m)[t := rest]\<rparr>)"
      using assms(1) by (auto simp: silent_def run_thread_def split: if_splits list.splits)
    with assms(3) show ?thesis by (simp add: run_action_cons run_action_frame)
  next
    case Close
    with assms close_cons [of m r m'] show ?thesis by auto
  qed (use assms in \<open>auto simp: silent_def declare_all_def declare_queues_def delivery_ack_def
      delivery_dead_letter_def delivery_retry_def delivery_defer_def delivery_drop_def
      publish_def backend_defer_def receive_def drop_stream_def fire_def abort_timer_def consume_def
      spawn_thread_def take_delivery_def Let_def run_loop_def release_permits_def
      nth_list_update nth_append split: if_splits option.splits prod.splits list.splits\<close>)
  then show "i < length (cons m')" "pc (cons m' ! i) = pc (cons m ! i)" by blast+
qed

lemma closed_loop_rank:
  assumes "consumer_ok s i c" "closed s" "consumers (queue_at s (c_queue c)) = []"
    and "loop_step i s c = Some (s', c')"
  shows "loop_rank (pc c') < loop_rank (pc c)"
  using assms by (auto simp: loop_step_def consumer_ok_def Let_def leave_def loop_rank_def
      split: loop_pc.splits if_splits)

lemma closed_exec_rank:
  assumes "reachable m" "closed (sh m)" "i < length (cons m)" "exec m ev = Some (r, m')"
  shows "loop_rank (pc (cons m' ! i)) + (if ev = RunLoop i then 1 else 0) \<le> loop_rank (pc (cons m ! i))"
    and "i < length (cons m')"
proof -
  have "i < length (cons m') \<and>
    loop_rank (pc (cons m' ! i)) + (if ev = RunLoop i then 1 else 0) \<le> loop_rank (pc (cons m ! i))"
  proof (cases "ev = RunLoop i")
    case True
    then obtain s' c' where st: "loop_step i (sh m) (cons m ! i) = Some (s', c')"
      and m': "m' = m\<lparr>sh := s', cons := (cons m)[i := c']\<rparr>"
      using assms(3,4) by (auto simp: silent_def run_loop_def split: option.splits)
    have "loop_rank (pc c') < loop_rank (pc (cons m ! i))"
      by (rule closed_loop_rank [OF _ assms(2) _ st])
        (use reachable_invs(3) [OF assms(1)] assms(2,3) in \<open>auto simp: loops_inv_def\<close>)
    with True m' assms(3) show ?thesis by simp
  qed (use cons_frame [OF assms(4) _ assms(3)] in simp)
  then show "loop_rank (pc (cons m' ! i)) + (if ev = RunLoop i then 1 else 0) \<le> loop_rank (pc (cons m ! i))"
    and "i < length (cons m')" by blast+
qed

text \<open>C19: once the backend is closed every consumer loop ends within three turns of its own, whatever
  else happens in between: the turns it has taken and the ones it has left never exceed three, and
  as long as it has not ended it is able to take one.\<close>

theorem close_stops_every_consumer:
  assumes "reachable m" "closed (sh m)" "i < length (cons m)" "run m evs = Some m'"
  shows "count_list evs (RunLoop i) + loop_rank (pc (cons m' ! i)) \<le> 3
    \<and> (run_loop i m' = None \<longrightarrow> pc (cons m' ! i) = Ended)"
proof -
  have "i < length (cons m') \<and> reachable m'
      \<and> count_list evs (RunLoop i) + loop_rank (pc (cons m' ! i)) \<le> loop_rank (pc (cons m ! i))"
    using assms(4)
  proof (induction rule: run_induct)
    case start
    with assms show ?case by simp
  next
    case (step m1 ev evs r m2)
    have "closed (sh m1)" using run_closed [OF step(1)] assms(2) by simp
    with step closed_exec_rank [of m1 i ev r m2] show ?case by (auto intro: reachable.step)
  qed
  moreover have "loop_rank (pc (cons m ! i)) \<le> 3" by (simp add: loop_rank_def split: loop_pc.split)
  ultimately show ?thesis
    using blocked_consumer [of m' i] run_closed [OF assms(4)] assms(2) by auto
qed

section \<open>Delays\<close>

definition unseen :: "envelope \<Rightarrow> mem \<Rightarrow> bool" where
  "unseen e m \<longleftrightarrow> (\<forall>n. e \<notin> set (pending (queue_at (sh m) n)))
     \<and> (\<forall>c\<in>set (cons m). e \<notin> set (held_by c)) \<and> e \<notin> snd ` set (handed m)"

definition waits_until :: "nat \<Rightarrow> envelope \<Rightarrow> mem \<Rightarrow> bool" where
  "waits_until t e m \<longleftrightarrow> (\<forall>(t', e', h)\<in>set (timers m). e' = e \<longrightarrow> t \<le> t')
     \<and> (\<forall>th\<in>set (threads m). \<forall>a\<in>set th. a \<noteq> DoEnqueue e
          \<and> (\<forall>t'. a = DoSpawn e t' \<or> a = DoHold e t' \<longrightarrow> t \<le> t'))"

lemma set_remove_nth: "set (remove_nth i xs) \<subseteq> set xs"
  by (auto simp: remove_nth_def dest: in_set_takeD in_set_dropD)

lemma unseen_loop:
  assumes "unseen e m" "run_loop i m = Some m'"
  shows "unseen e m'" "timers m' = timers m" "threads m' = threads m"
proof -
  obtain s' c' where i: "i < length (cons m)" and st: "loop_step i (sh m) (cons m ! i) = Some (s', c')"
    and m': "m' = m\<lparr>sh := s', cons := (cons m)[i := c']\<rparr>"
    using assms(2) by (auto simp: run_loop_def split: if_splits option.splits)
  have no: "e \<notin> set (pending (queue_at (sh m) n))" "e \<notin> set (held_by (cons m ! i))" for n
    using assms(1) i by (auto simp: unseen_def)
  have "e \<notin> set (pending (queue_at s' n)) \<and> e \<notin> set (held_by c')" for n
  proof (cases "pc (cons m ! i) = Check")
    case True
    show ?thesis
    proof (cases rule: pop_pending_cases [of "c_queue (cons m ! i)" "sh m"])
      case empty
      with True st no show ?thesis
        by (auto simp: loop_step_def held_by_def leave_def split: if_splits)
    next
      case (popped e1 rest)
      then have "e \<noteq> e1" "e \<notin> set rest" using no(1) [of "c_queue (cons m ! i)"] by auto
      with popped True st no show ?thesis
        by (auto simp: loop_step_def held_by_def leave_def split: if_splits)
    qed
  next
    case False
    with st no show ?thesis
      by (auto simp: loop_step_def held_by_def leave_def split: loop_pc.splits if_splits)
  qed
  with assms(1) show "unseen e m'"
    using set_update_subset_insert [of "cons m" i c'] by (auto simp: unseen_def m')
  show "timers m' = timers m" "threads m' = threads m" by (simp_all add: m')
qed

definition in_consumers :: "mem \<Rightarrow> envelope set" where
  "in_consumers m = (\<Union>c\<in>set (cons m). set (held_by c))"

lemma unseen_frame:
  assumes "unseen e m" "\<And>n. pending (queue_at (sh m') n) = pending (queue_at (sh m) n)"
    "in_consumers m' \<subseteq> in_consumers m" "snd ` set (handed m') \<subseteq> snd ` set (handed m)"
  shows "unseen e m'"
proof -
  have alt: "unseen e m \<longleftrightarrow> (\<forall>n. e \<notin> set (pending (queue_at (sh m) n)))
     \<and> e \<notin> in_consumers m \<and> e \<notin> snd ` set (handed m)" for m
    by (simp add: unseen_def in_consumers_def)
  from assms(1) have "e \<notin> in_consumers m" "e \<notin> snd ` set (handed m)" by (simp_all add: alt)
  with assms show ?thesis unfolding alt assms(2) by (meson subsetD)
qed

lemma held_by_update:
  assumes "i < length (cons m)" "set (held_by c) \<subseteq> set (held_by (cons m ! i))"
    "cons m' = (cons m)[i := c]"
  shows "in_consumers m' \<subseteq> in_consumers m"
proof
  fix x assume "x \<in> in_consumers m'"
  then obtain d where d: "d \<in> set ((cons m)[i := c])" "x \<in> set (held_by d)"
    by (auto simp: in_consumers_def assms(3))
  then have "d = c \<or> d \<in> set (cons m)" using set_update_subset_insert by fast
  moreover have "cons m ! i \<in> set (cons m)" using assms(1) by simp
  ultimately show "x \<in> in_consumers m" using d(2) assms(2) unfolding in_consumers_def by blast
qed

lemma in_consumers_frame: "cons m' = cons m \<Longrightarrow> in_consumers m' = in_consumers m"
  by (simp add: in_consumers_def)

lemma release_permits_held [simp]: "in_consumers (release_permits i k m) \<subseteq> in_consumers m"
proof (cases "i < length (cons m)")
  case True
  then show ?thesis
    by (intro held_by_update [where i = i and c = "(cons m ! i)\<lparr>permits := permits (cons m ! i) + k\<rparr>"])
      (simp_all add: release_permits_def)
qed (simp add: release_permits_def)

lemma run_action_waits:
  assumes "unseen e m" "waits_until t e m" "run_thread k m = Some m'"
  shows "unseen e m'" "waits_until t e m'"
proof -
  obtain a rest where k: "k < length (threads m)" "threads m ! k = a # rest"
    and m': "m' = run_action a (m\<lparr>threads := (threads m)[k := rest]\<rparr>)"
    using assms(3) by (auto simp: run_thread_def split: if_splits list.splits)
  then have mem: "a # rest \<in> set (threads m)" by (metis nth_mem)
  have sub: "set ((threads m)[k := rest]) \<subseteq> insert rest (set (threads m))"
    by (rule set_update_subset_insert)
  from mem assms(2) have a: "a \<noteq> DoEnqueue e" "\<And>t'. a = DoSpawn e t' \<or> a = DoHold e t' \<Longrightarrow> t \<le> t'"
    by (auto simp: waits_until_def)
  let ?m = "m\<lparr>threads := (threads m)[k := rest]\<rparr>"
  have "in_consumers m' \<subseteq> in_consumers ?m"
    using release_permits_held [where m = ?m] by (cases a) (auto simp: m' in_consumers_def)
  then have cons: "in_consumers m' \<subseteq> in_consumers m" by (simp add: in_consumers_def)
  have "e \<notin> set (pending (queue_at (sh m') n))" for n
    using assms(1) a(1) by (cases a) (auto simp: unseen_def m')
  moreover have "handed m' = handed m" by (simp add: m' run_action_frame)
  ultimately show "unseen e m'"
    using assms(1) cons by (auto simp: unseen_def in_consumers_def)
  have "\<forall>th\<in>insert rest (set (threads m)). \<forall>a\<in>set th. a \<noteq> DoEnqueue e
          \<and> (\<forall>t'. a = DoSpawn e t' \<or> a = DoHold e t' \<longrightarrow> t \<le> t')"
    using assms(2) mem by (auto simp: waits_until_def)
  with sub have "\<forall>th\<in>set ((threads m)[k := rest]). \<forall>a\<in>set th. a \<noteq> DoEnqueue e
          \<and> (\<forall>t'. a = DoSpawn e t' \<or> a = DoHold e t' \<longrightarrow> t \<le> t')" by blast
  with assms(2) a show "waits_until t e m'"
    by (cases a) (auto simp: waits_until_def m' release_permits_def)
qed

lemma waits_timers:
  "waits_until t e m \<Longrightarrow> set (timers m') \<subseteq> set (timers m) \<Longrightarrow> threads m' = threads m \<Longrightarrow> waits_until t e m'"
  unfolding waits_until_def by (elim conjE, intro conjI) (blast, simp)

lemma waits_spawn:
  "waits_until t e m \<Longrightarrow> (\<And>a. a \<in> set as \<Longrightarrow> a \<noteq> DoEnqueue e
       \<and> (\<forall>t'. a = DoSpawn e t' \<or> a = DoHold e t' \<longrightarrow> t \<le> t')) \<Longrightarrow> waits_until t e (spawn_thread as m)"
  by (auto simp: waits_until_def spawn_thread_def)

lemma unseen_timer_step:
  assumes "unseen e m" "timers m ! i = (t', e', h)" "e' \<noteq> e"
  shows "unseen e (m\<lparr>timers := ts, sh := enqueue_now e' h (sh m)\<rparr>)"
  using assms by (auto simp: unseen_def)

lemma unseen_alt: "unseen e m \<longleftrightarrow> (\<forall>n. e \<notin> set (pending (queue_at (sh m) n)))
     \<and> e \<notin> in_consumers m \<and> e \<notin> snd ` set (handed m)"
  by (simp add: unseen_def in_consumers_def)

lemma unseen_spawn [simp]: "unseen e (spawn_thread as m) = unseen e m"
  by (simp add: unseen_def spawn_thread_def)

lemma waits_settle:
  assumes u: "unseen e m" and w: "waits_until t e m" and ex: "exec m ev = Some (r, m')"
    and no: "e \<notin> set (submitted ev)" and st: "settles ev j reason nxt d"
  shows "unseen e m' \<and> waits_until t e m'"
  using ex st
proof (rule settle_forms)
  fix i e' m1
  assume td: "take_delivery j m = Some ((i, e'), m1)" and f: "(m' = release_permits i 1 m1) \<or>
     (\<exists>r :: string error + unit. \<exists>s. record_dead e' reason (sh m1) = (r, s) \<and> ev = DeadLetter j reason
        \<and> m' = release_permits i 1 (m1\<lparr>sh := s\<rparr>)) \<or>
     (\<exists>pre k. m' = spawn_thread (pre @ [DoRecordAck e' k, DoRelease i]) m1 \<and>
        (pre = [] \<or> (pre = schedule_actions (clock m) nxt d \<and> ev = RetryD j nxt d)
          \<or> (pre = hold_actions (clock m) nxt d \<and> ev = DeferD j nxt d)))"
  note m1 = take_delivery_facts(1-3) [OF td]
  have u1: "unseen e m1"
    by (rule unseen_frame [OF u]) (use set_remove_nth [of j "handed m"] in
        \<open>auto simp: m1(1) in_consumers_def\<close>)
  have w1: "waits_until t e m1" using w by (auto simp: m1(1) waits_until_def)
  have rel: "unseen e (release_permits i 1 m2) \<and> waits_until t e (release_permits i 1 m2)"
    if "unseen e m2" "waits_until t e m2" for m2
  proof
    show "unseen e (release_permits i 1 m2)"
      by (rule unseen_frame [OF that(1) _ release_permits_held]) (simp_all add: release_permits_def)
    show "waits_until t e (release_permits i 1 m2)"
      using that(2) by (auto simp: waits_until_def release_permits_def)
  qed
  from f show "unseen e m' \<and> waits_until t e m'"
  proof (elim disjE exE conjE)
    fix r :: "string error + unit" and s
    assume "record_dead e' reason (sh m1) = (r, s)" "m' = release_permits i 1 (m1\<lparr>sh := s\<rparr>)"
    moreover from this(1) have "pending (queue_at s n) = pending (queue_at (sh m1) n)" for n
      by (auto simp: record_dead_def split: if_splits)
    ultimately show ?thesis
      using u1 w1 rel [of "m1\<lparr>sh := s\<rparr>"] by (auto simp: unseen_def waits_until_def)
  next
    assume "m' = release_permits i 1 m1"
    with rel [OF u1 w1] show ?thesis by simp
  next
    fix pre k
    assume m': "m' = spawn_thread (pre @ [DoRecordAck e' k, DoRelease i]) m1"
      and pre: "pre = schedule_actions (clock m) nxt d" and ev: "ev = RetryD j nxt d"
    have "waits_until t e m'" unfolding m'
      by (rule waits_spawn [OF w1]) (use no pre ev in \<open>auto simp: schedule_actions_def split: if_splits\<close>)
    with u1 show ?thesis by (simp add: m')
  next
    fix pre k
    assume m': "m' = spawn_thread (pre @ [DoRecordAck e' k, DoRelease i]) m1"
      and pre: "pre = hold_actions (clock m) nxt d" and ev: "ev = DeferD j nxt d"
    have "waits_until t e m'" unfolding m'
      by (rule waits_spawn [OF w1]) (use no pre ev in \<open>auto simp: hold_actions_def split: if_splits\<close>)
    with u1 show ?thesis by (simp add: m')
  next
    fix pre k
    assume m': "m' = spawn_thread (pre @ [DoRecordAck e' k, DoRelease i]) m1" and pre: "pre = []"
    have "waits_until t e m'" unfolding m'
      by (rule waits_spawn [OF w1]) (use pre in auto)
    with u1 show ?thesis by (simp add: m')
  qed
qed

lemma consume_form:
  obtains s c where "consume qc m = m\<lparr>sh := s, cons := cons m @ [c]\<rparr>" "held_by c = []"
    "\<And>n. pending (queue_at s n) = pending (queue_at (sh m) n)"
proof (cases "closed (sh m)")
  case True
  then show ?thesis by (intro that [where s = "sh m"]) (auto simp: consume_def Let_def held_by_def)
next
  case False
  then show ?thesis
    by (intro that [where s = "register_consumer (qc_name qc) (length (cons m)) (sh m)"])
      (auto simp: consume_def Let_def held_by_def)
qed

lemma waits_exec:
  assumes u: "unseen e m" and w: "waits_until t e m" and ex: "exec m ev = Some (r, m')"
    and no: "e \<notin> set (submitted ev)" and now: "clock m < t"
  shows "unseen e m' \<and> waits_until t e m'"
proof (cases ev)
  case (RunThread k)
  with ex run_action_waits [OF u w] show ?thesis by (auto simp: silent_def)
next
  case (RunLoop i)
  with ex unseen_loop [OF u] w show ?thesis by (auto simp: silent_def waits_until_def)
next
  case (Fire i)
  then obtain t' e' h where i: "i < length (timers m)" "timers m ! i = (t', e', h)" "t' \<le> clock m"
    and m': "m' = m\<lparr>timers := remove_nth i (timers m), sh := enqueue_now e' h (sh m)\<rparr>"
    using ex by (auto simp: silent_def fire_def split: if_splits prod.splits)
  from i have "(t', e', h) \<in> set (timers m)" by (metis nth_mem)
  with w i(3) now have "e' \<noteq> e" by (auto simp: waits_until_def)
  with u i w set_remove_nth [of i "timers m"] show ?thesis
    unfolding m' by (auto intro!: unseen_timer_step waits_timers [where m = m])
next
  case (AbortTimer i)
  then obtain t' e' h where m': "m' = m\<lparr>timers := remove_nth i (timers m), sh := released h (sh m)\<rparr>"
    using ex by (auto simp: silent_def abort_timer_def released_def split: if_splits prod.splits)
  from u w set_remove_nth [of i "timers m"] show ?thesis
    unfolding m' by (auto simp: unseen_def intro!: waits_timers [where m = m])
next
  case (Publish e' d)
  with ex u w no show ?thesis
    by (auto simp: publish_def schedule_actions_def unseen_def spawn_thread_def waits_until_def
        split: if_splits)
next
  case (Defer e' d)
  with ex u w no show ?thesis
    by (auto simp: backend_defer_def hold_actions_def unseen_def spawn_thread_def waits_until_def
        split: if_splits)
next
  case (Receive i)
  then obtain e' rest where i: "i < length (cons m)" and c: "chan (cons m ! i) = e' # rest"
    and m': "m' = m\<lparr>cons := (cons m)[i := (cons m ! i)\<lparr>chan := rest\<rparr>], handed := handed m @ [(i, e')]\<rparr>"
    using ex by (auto simp: silent_def receive_def split: if_splits list.splits)
  have "in_consumers m' \<subseteq> in_consumers m"
    by (rule held_by_update [OF i]) (use c in \<open>auto simp: m' held_by_def\<close>)
  moreover have "e' \<in> set (held_by (cons m ! i))" using c by (simp add: held_by_def)
  then have "e' \<in> in_consumers m" using nth_mem [OF i] unfolding in_consumers_def by blast
  ultimately show ?thesis using u w by (auto simp: unseen_alt m' waits_until_def)
next
  case (DropStream i)
  let ?c = "cons m ! i"
  from DropStream have i: "i < length (cons m)" and m': "m' = m\<lparr>sh := requeue_unread (c_queue ?c) (chan ?c) (sh m),
      cons := (cons m)[i := ?c\<lparr>rx_open := False, chan := [], permits := permits ?c + length (chan ?c)\<rparr>]\<rparr>"
    using ex by (auto simp: silent_def drop_stream_def Let_def split: if_splits)
  have "in_consumers m' \<subseteq> in_consumers m"
    by (rule held_by_update [OF i]) (auto simp: m' held_by_def)
  moreover have "set (chan ?c) \<subseteq> set (held_by ?c)" by (simp add: held_by_def)
  then have "set (chan ?c) \<subseteq> in_consumers m" using nth_mem [OF i] unfolding in_consumers_def by blast
  ultimately show ?thesis using u w by (auto simp: unseen_alt m' waits_until_def)
next
  case Close
  have "in_consumers m' = in_consumers m"
  proof -
    have "map held_by (cons m') = map held_by (cons m)"
      using close_cons [of m r m'] ex Close by (intro nth_equalityI) auto
    then show ?thesis unfolding in_consumers_def by (metis list.set_map image_image)
  qed
  moreover have "sh m' = close_shared (sh m)" "handed m' = handed m" "timers m' = timers m"
    "threads m' = threads m"
    using ex Close by (auto simp: close_def)
  ultimately show ?thesis using u w by (simp add: unseen_alt waits_until_def)
next
  case (Consume qc)
  obtain s c where c: "m' = m\<lparr>sh := s, cons := cons m @ [c]\<rparr>" "held_by c = []"
    "\<And>n. pending (queue_at s n) = pending (queue_at (sh m) n)"
    using ex Consume consume_form [of qc m] by (metis Pair_inject exec.simps(4) option.inject)
  with u w show ?thesis by (simp add: unseen_def waits_until_def)
next
  case (Declare cs)
  with ex u w show ?thesis
    by (auto simp: declare_all_def declare_queues_def unseen_def waits_until_def split: if_splits)
next
  case (Tick d)
  with ex u w show ?thesis by (auto simp: unseen_def waits_until_def)
qed (use waits_settle [OF u w ex no] in \<open>auto simp: settles_def\<close>)

lemma exec_clock: "exec m ev = Some (r, m') \<Longrightarrow> clock m \<le> clock m'"
  by (cases ev) (auto simp: silent_def declare_all_def declare_queues_def delivery_ack_def
    delivery_dead_letter_def delivery_retry_def delivery_defer_def delivery_drop_def record_dead_def
    publish_def backend_defer_def receive_def drop_stream_def fire_def abort_timer_def consume_def
    spawn_thread_def take_delivery_def Let_def close_def run_loop_def run_thread_def run_action_frame
    release_permits_def split: if_splits option.splits prod.splits list.splits)

lemma tally_unseen: "reachable m \<Longrightarrow> tally m e = 0 \<Longrightarrow> unseen e m \<and> waits_until t e m"
proof
  assume r: "reachable m" and z: "tally m e = 0"
  have "e \<notin> set (pending (queue_at (sh m) n))" for n
    using z reachable_invs(4) [OF r]
    by (cases "queue e = n") (auto simp: tally_def stored_def Let_def count_list_0_iff placed_def)
  with z show "unseen e m"
    by (auto simp: unseen_def tally_def count_list_0_iff)
  have "thread_count e th = 0" if "th \<in> set (threads m)" for th
    using z that by (auto simp: tally_def)
  then have "e \<notin> set (carried a)" if "th \<in> set (threads m)" "a \<in> set th" for th a
    using that by (fastforce simp: thread_count_def count_list_0_iff)
  then have "\<forall>th\<in>set (threads m). \<forall>a\<in>set th. a \<noteq> DoEnqueue e
      \<and> (\<forall>t'. a = DoSpawn e t' \<or> a = DoHold e t' \<longrightarrow> t \<le> t')" by fastforce
  moreover have "e \<notin> (\<lambda>t. fst (snd t)) ` set (timers m)"
    using z by (simp add: tally_def count_list_0_iff)
  ultimately show "waits_until t e m" by (force simp: waits_until_def)
qed

lemma run_clock: "run m evs = Some m' \<Longrightarrow> clock m \<le> clock m'"
  by (induction rule: run_induct) (auto dest: exec_clock)

text \<open>The call that submits an envelope with a delay leaves it waiting for at least that long.\<close>

lemma submit_waits:
  assumes u: "unseen e m" and w: "waits_until (clock m + d) e m"
    and ev: "ev = Publish e (Some d) \<or> ev = Defer e d \<or> ev = RetryD j e d \<or> ev = DeferD j e d"
    and ex: "exec m ev = Some (r, m')" and d: "d \<noteq> 0"
  shows "unseen e m' \<and> waits_until (clock m + d) e m'"
proof (cases "ev = RetryD j e d \<or> ev = DeferD j e d")
  case False
  with ev ex u w d show ?thesis
    by (auto simp: publish_def backend_defer_def schedule_actions_def hold_actions_def
        split: if_splits intro!: waits_spawn)
next
  case True
  then obtain i e' m1 where td: "take_delivery j m = Some ((i, e'), m1)"
    using ex by (cases "take_delivery j m") (auto simp: delivery_retry_def delivery_defer_def)
  note m1 = take_delivery_facts(1-3) [OF td]
  have u1: "unseen e m1"
    by (rule unseen_frame [OF u]) (use set_remove_nth [of j "handed m"] in
        \<open>auto simp: m1(1) in_consumers_def\<close>)
  have w1: "waits_until (clock m + d) e m1" "clock m1 = clock m"
    using w by (auto simp: m1(1) waits_until_def)
  have "waits_until (clock m + d) e (spawn_thread (schedule_actions (clock m) e d
      @ [DoRecordAck e' k, DoRelease i]) m1)" for k
    by (rule waits_spawn [OF w1(1)]) (use d in \<open>auto simp: schedule_actions_def\<close>)
  moreover have "waits_until (clock m + d) e (spawn_thread (hold_actions (clock m) e d
      @ [DoRecordAck e' k, DoRelease i]) m1)" for k
    by (rule waits_spawn [OF w1(1)]) (use d in \<open>auto simp: hold_actions_def\<close>)
  moreover have "unseen e (release_permits i 1 m1)"
    by (rule unseen_frame [OF u1 _ release_permits_held]) (simp_all add: release_permits_def)
  moreover have "waits_until (clock m + d) e (release_permits i 1 m1)"
    using w1(1) by (auto simp: waits_until_def release_permits_def)
  ultimately show ?thesis
    using True ex u1 w1(2) by (auto simp: td delivery_retry_def delivery_defer_def split: if_splits)
qed

text \<open>C13: nothing is delivered early. After a delayed publish, deferral or retry of an envelope the
  backend does not have yet, and as long as less than the delay has passed on the clock, no queue
  has it pending, no consumer is carrying it and no client has received it, whatever else runs.\<close>

theorem delayed_message_never_early:
  assumes "reachable m" "tally m e = 0"
    and "ev = Publish e (Some d) \<or> ev = Defer e d \<or> ev = RetryD j e d \<or> ev = DeferD j e d"
    and "exec m ev = Some (r :: string error + unit, m1)" "run m1 evs = Some m2"
    and "e \<notin> set (concat (map submitted evs))" "clock m2 < clock m + d"
  shows "e \<notin> set (pending (queue_at (sh m2) n))
    \<and> (\<forall>c\<in>set (cons m2). e \<notin> set (held_by c)) \<and> e \<notin> set (map snd (handed m2))"
proof -
  let ?t = "clock m + d"
  have d: "d \<noteq> 0" using assms(7) exec_clock [OF assms(4)] run_clock [OF assms(5)] by auto
  have 0: "unseen e m1 \<and> waits_until ?t e m1"
    by (rule submit_waits [OF _ _ assms(3,4) d]) (use tally_unseen [OF assms(1,2)] in blast)+
  from assms(5) have "clock m2 < ?t \<longrightarrow> e \<notin> set (concat (map submitted evs)) \<longrightarrow>
      unseen e m2 \<and> waits_until ?t e m2"
  proof (induction rule: run_induct)
    case (step ma ev evs r mb)
    have "clock ma \<le> clock mb" by (rule exec_clock [OF step(2)])
    with step waits_exec [OF _ _ step(2), of e ?t] show ?case by auto
  qed (use 0 in simp)
  with assms(6,7) show ?thesis by (auto simp: unseen_def)
qed

section \<open>Order\<close>

lemma enqueues_pending:
  assumes "\<not> closed s" "\<forall>e\<in>set es. queue e = n"
  shows "pending (queue_at (foldl (\<lambda>s e. enqueue_now e None s) s es) n)
    = foldl (\<lambda>q e. insert_pending e q) (pending (queue_at s n)) es"
  using assms by (induction es arbitrary: s) simp_all

text \<open>C11: publishing jobs one after the other orders a queue by falling priority and, within a
  priority, by arrival: the pending list is the stable sort of everything published, so what is
  handed out next is always the oldest job of the highest priority.\<close>

theorem publish_order_is_stable_sort:
  assumes "\<not> closed s" "\<forall>e\<in>set es. queue e = n"
    and "sorted (rev (map priority (pending (queue_at s n))))"
  shows "pending (queue_at (foldl (\<lambda>s e. enqueue_now e None s) s es) n)
    = rev (sort_key priority (rev (pending (queue_at s n) @ es)))"
  unfolding enqueues_pending [OF assms(1,2)] by (rule fifo.inserts_stable_sort [OF assms(3)])

section \<open>Declaring, and the closed backend\<close>

lemma declare_loop_same: "(\<And>c. c \<in> set cs \<Longrightarrow> declared s (qc_name c)) \<Longrightarrow> declare_loop cs s = s"
proof (induction cs)
  case (Cons c cs)
  then have "declare_one c s = s" by (force simp: declare_one_def declared_def split: option.split)
  with Cons show ?case by simp
qed simp

text \<open>declaring makes every queue exist, leaves the queues that already exist exactly as they are
  (messages, consumers and the first configuration), and doing it again changes nothing.\<close>

theorem declare_is_idempotent:
  assumes "declare_queues cs s = (Inr (), s')"
  shows "(\<forall>c\<in>set cs. declared s' (qc_name c)) \<and> (\<forall>n q. queues s n = Some q \<longrightarrow> queues s' n = Some q)
    \<and> declare_queues cs s' = (Inr () :: 'b error + unit, s')"
proof -
  have s': "\<not> closed s" "s' = declare_loop cs s" using assms by (auto simp: declare_queues_def split: if_splits)
  have "declare_loop cs s' = s'" by (rule declare_loop_same) (auto simp: s'(2))
  with s' show ?thesis by (auto simp: declare_queues_def declare_loop_kept)
qed

text \<open>on a closed backend declare, publish, defer, and the dead-lettering, retry and deferral of a
  delivery fail with \<open>ShutDown\<close> and leave queues, timers and the calls under way untouched.\<close>

theorem closed_backend_rejects:
  assumes "closed (sh m)" "exec m ev = Some (r, m')"
    and "ev = Declare cs \<or> ev = Publish e d \<or> ev = Defer e t \<or> ev = DeadLetter j reason
      \<or> ev = RetryD j e t \<or> ev = DeferD j e t"
  shows "r = Inl ShutDown \<and> sh m' = sh m \<and> timers m' = timers m \<and> threads m' = threads m"
  using assms by (auto simp: declare_all_def declare_queues_def publish_def backend_defer_def
      delivery_dead_letter_def delivery_retry_def delivery_defer_def record_dead_def take_delivery_def
      release_permits_def split: if_splits prod.splits)

section \<open>A run, for the witnesses\<close>

definition sample :: envelope where
  "sample = envelope_raw 7 1000 ''t'' ''q'' JNull"

definition sample_trace :: "event list" where
  "sample_trace = [Publish sample None, RunThread 0, Consume (queue_config_new ''q''),
     RunLoop 0, RunLoop 0, RunLoop 0, Receive 0]"

definition sample_mem :: mem where
  "sample_mem = the (run mem_new sample_trace)"

lemma sample_runs: "run mem_new sample_trace = Some sample_mem"
proof -
  have "run mem_new sample_trace \<noteq> None" unfolding sample_trace_def by code_simp
  then show ?thesis by (auto simp: sample_mem_def)
qed

lemma sample_state: "length (cons sample_mem) = 1" "closed (sh sample_mem) = False"
  "handed sample_mem = [(0, sample)]" "c_queue (cons sample_mem ! 0) = ''q''"
  "capacity (cons sample_mem ! 0) = 16" "clock sample_mem = 0"
  by (simp_all add: sample_mem_def sample_trace_def) code_simp+

lemma sample_closed:
  "exec sample_mem Close = Some (Inr (), snd (close sample_mem))" "closed (sh (snd (close sample_mem)))"
  by (simp_all add: close_def)

lemma stored_record_ack: "stored (record_ack e k s) x = stored s x + (if x = e then 1 else 0)"
  by (simp add: stored_def Let_def)

lemma retried_record_ack:
  "retried (record_ack e Retried s) (queue e) = retried s (queue e) @ [e]"
  by (simp add: retried_def settled_by_def record_ack_def queue_at_def queue_state_new_def
      split: option.split)

lemma retried_close: "retried (close_shared s) n = retried s n"
  by (simp add: retried_def settled_by_def close_shared_def split: option.split)

text \<open>C33: a retry the backend has accepted is lost when the backend is closed between the check of
  \<open>closed\<close> and the insertion. In every state of an open backend, and for every delivery the client
  holds: an immediate retry is answered \<open>Ok\<close>; if \<open>close\<close> comes next and the call then does its two
  remaining critical sections, the original is recorded as retried, and the successor is
  nowhere: no envelope has one copy more than before the retry.\<close>

theorem close_races_an_accepted_retry:
  assumes "\<not> closed (sh m)" "j < length (handed m)" "handed m ! j = (i, e)"
  shows "map_option fst (exec m (RetryD j next 0)) = Some (Inr () :: string error + unit)
    \<and> (\<exists>m'. run m [RetryD j next 0, Close, RunThread (length (threads m)), RunThread (length (threads m))]
          = Some m'
        \<and> retried (sh m') (queue e) = retried (sh m) (queue e) @ [e]
        \<and> (\<forall>x. tally m' x = tally m x))"
proof -
  define th where "th = threads m"
  define m0 where "m0 = m\<lparr>handed := remove_nth j (handed m)\<rparr>"
  define m1 where "m1 = spawn_thread [DoEnqueue next, DoRecordAck e Retried, DoRelease i] m0"
  define m2 where "m2 = snd (close m1 :: (string error + unit) \<times> mem)"
  define m4 where "m4 = m2\<lparr>threads := th @ [[DoRelease i]], sh := record_ack e Retried (sh m2)\<rparr>"
  have take: "take_delivery j m = Some ((i, e), m0)"
    using assms(2,3) by (simp add: take_delivery_def m0_def)
  have ex: "exec m (RetryD j next 0) = Some (Inr () :: string error + unit, m1)"
    using assms(1) by (simp add: delivery_retry_def take schedule_actions_def m1_def m0_def)
  have cl: "close m1 = (Inr () :: string error + unit, m2)" by (simp add: m2_def close_def)
  have sh2: "sh m2 = close_shared (sh m)" "threads m2 = th @ [[DoEnqueue next, DoRecordAck e Retried, DoRelease i]]"
    by (simp_all add: m2_def close_def m1_def m0_def spawn_thread_def th_def)
  have "run m2 [RunThread (length th), RunThread (length th)] = Some m4"
    by (simp add: silent_def run_thread_def sh2 m4_def enqueue_now_def)
  then have r: "run m [RetryD j next 0, Close, RunThread (length (threads m)), RunThread (length (threads m))]
      = Some m4"
    using ex cl by (simp add: th_def)
  have "tally m4 x = tally m x" for x
  proof -
    have "tally m2 x = tally m0 x + count_list [next, e] x"
      using tally_close [OF cl] by (simp add: m1_def)
    moreover have "tally m0 x + (if x = e then 1 else 0) = tally m x"
      using tally_deliver [OF take] by simp
    moreover have "tally m4 x + count_list [next, e] x = tally m2 x + (if x = e then 1 else 0)"
      by (simp add: m4_def tally_def sh2 thread_count_def stored_record_ack)
    ultimately show ?thesis by simp
  qed
  moreover have "retried (sh m4) (queue e) = retried (sh m) (queue e) @ [e]"
    by (simp add: m4_def sh2 retried_record_ack retried_close)
  ultimately show ?thesis using r ex by (auto simp del: exec.simps run.simps)
qed

section \<open>Witnesses\<close>

theorem open_backend_conserves_messages_witness: "tally sample_mem sample = 1"
  using open_backend_conserves_messages [OF sample_runs, of sample] by (simp add: sample_trace_def)

theorem no_message_is_duplicated_witness: "tally sample_mem sample \<le> 1"
  using no_message_is_duplicated [OF sample_runs, of sample] by (simp add: sample_trace_def)

lemma sample_reachable: "reachable sample_mem"
  by (rule run_reachable [OF sample_runs])

theorem prefetch_window_respected_witness:
  "permits (cons sample_mem ! 0) + in_loop (pc (cons sample_mem ! 0)) + length (chan (cons sample_mem ! 0))
     + handed_of sample_mem 0 + releases sample_mem 0 = 16"
  using prefetch_window_respected [OF sample_runs, of 0]
  by (simp add: sample_state sample_trace_def queue_config_new_def)

theorem deferred_counts_live_holds_witness: "deferred_count (sh sample_mem) ''q'' = holds_of sample_mem ''q''"
  using deferred_counts_live_holds [OF sample_reachable] .

text \<open>After two more turns the loop of the sample waits for a message.\<close>

definition idle_mem :: mem where
  "idle_mem = the (run mem_new (sample_trace @ [RunLoop 0, RunLoop 0]))"

lemma idle_runs: "run mem_new (sample_trace @ [RunLoop 0, RunLoop 0]) = Some idle_mem"
proof -
  have "run mem_new (sample_trace @ [RunLoop 0, RunLoop 0]) \<noteq> None"
    unfolding sample_trace_def by code_simp
  then show ?thesis by (auto simp: idle_mem_def)
qed

theorem close_stops_every_consumer_witness:
  "count_list [RunLoop 0, RunLoop 0] (RunLoop 0) + loop_rank (pc (cons
     (the (run (snd (close sample_mem :: (string error + unit) \<times> mem)) [RunLoop 0, RunLoop 0])) ! 0)) \<le> 3"
proof -
  let ?m = "snd (close sample_mem :: (string error + unit) \<times> mem)"
  have r: "reachable ?m" using reachable.step [OF sample_reachable sample_closed(1)] .
  have len: "0 < length (cons ?m)" by (simp add: close_def sample_state)
  have "run ?m [RunLoop 0, RunLoop 0] \<noteq> None"
    unfolding sample_mem_def sample_trace_def by code_simp
  then show ?thesis using close_stops_every_consumer [OF r _ len, of "[RunLoop 0, RunLoop 0]"]
    by (auto simp: close_def)
qed

theorem close_races_an_accepted_retry_witness:
  "\<exists>m'. run sample_mem [RetryD 0 (next_attempt sample) 0, Close, RunThread (length (threads sample_mem)),
        RunThread (length (threads sample_mem))] = Some m'
     \<and> tally m' (next_attempt sample) = tally sample_mem (next_attempt sample)"
  using close_races_an_accepted_retry [of sample_mem 0 0 sample "next_attempt sample"]
  by (auto simp: sample_state simp del: exec.simps run.simps)

theorem publish_order_is_stable_sort_witness:
  "pending (queue_at (foldl (\<lambda>s e. enqueue_now e None s) shared_new
     [sample, deferred sample 10, next_attempt sample]) ''q'')
   = rev (sort_key priority (rev [sample, deferred sample 10, next_attempt sample]))"
  using publish_order_is_stable_sort [of shared_new "[sample, deferred sample 10, next_attempt sample]" "''q''"]
  by (simp add: shared_new_def queue_at_def sample_def envelope_raw_def deferred_def next_attempt_def)

theorem declare_is_idempotent_witness:
  "declare_queues [queue_config_new ''q''] (declare_loop [queue_config_new ''q''] shared_new)
     = (Inr () :: string error + unit, declare_loop [queue_config_new ''q''] shared_new)"
  using declare_is_idempotent [of "[queue_config_new ''q'']" shared_new
      "declare_loop [queue_config_new ''q''] shared_new", where 'a = "string" and 'b = "string"]
  by (simp add: declare_queues_def shared_new_def)

theorem closed_backend_rejects_witness:
  "\<exists>m'. exec (snd (close sample_mem :: (string error + unit) \<times> mem)) (Publish sample None)
      = Some (Inl ShutDown :: string error + unit, m')
    \<and> threads m' = threads (snd (close sample_mem :: (string error + unit) \<times> mem))"
proof -
  obtain r m' where e: "exec (snd (close sample_mem :: (string error + unit) \<times> mem)) (Publish sample None)
      = Some (r :: string error + unit, m')"
    by (cases "publish sample None (snd (close sample_mem :: (string error + unit) \<times> mem))
        :: (string error + unit) \<times> mem") auto
  from closed_backend_rejects [OF sample_closed(2) e] e show ?thesis by simp
qed

theorem blocked_consumer_has_nothing_to_fetch_witness:
  "pc (cons idle_mem ! 0) = Waiting \<longleftrightarrow> pending_count (sh idle_mem) ''q'' = 0"
proof -
  have f: "length (cons idle_mem) = 1" "pc (cons idle_mem ! 0) = Waiting"
    "c_queue (cons idle_mem ! 0) = ''q''"
    unfolding idle_mem_def sample_trace_def by code_simp+
  have "run_loop 0 idle_mem \<noteq> None \<longrightarrow> False"
    unfolding idle_mem_def sample_trace_def by code_simp
  with blocked_consumer_has_nothing_to_fetch [OF run_reachable [OF idle_runs], of 0] f show ?thesis by simp
qed

theorem delayed_message_never_early_witness:
  "sample \<notin> set (pending (queue_at (sh (the (run (snd (publish sample (Some 5) mem_new
     :: (string error + unit) \<times> mem)) [RunThread 0, Tick 4]))) ''q''))"
proof -
  let ?r = "publish sample (Some 5) mem_new :: (string error + unit) \<times> mem"
  let ?m = "the (run (snd ?r) [RunThread 0, Tick 4])"
  have "run (snd ?r) [RunThread 0, Tick 4] \<noteq> None" by code_simp
  then have run: "run (snd ?r) [RunThread 0, Tick 4] = Some ?m" by auto
  have new: "tally mem_new sample = 0"
    by (simp add: tally_def mem_new_def stored_def shared_new_def queue_at_def)
  have ex: "exec mem_new (Publish sample (Some 5)) = Some (fst ?r, snd ?r)" by simp
  have "clock ?m = 4" by code_simp
  then have now: "clock ?m < clock mem_new + 5" by (simp add: mem_new_def)
  show ?thesis
    using delayed_message_never_early [OF reachable.start new disjI1 [OF refl] ex run _ now, of "''q''"]
    by simp
qed

end
