(* ===== verification/Backend_Spec.thy ===== *)
theory Backend_Spec
  imports Memory_Properties
begin

text \<open>
  \<open>crates/core/src/backend.rs\<close>: the traits \<open>Backend\<close> and \<open>Delivery\<close> as records of state-passing
  functions (the trait objects the worker and the producer hold), and the contract their
  documentation states as the locale \<open>at_least_once\<close>, with the stronger \<open>transport\<close>. A state of the
  transport is whatever the implementation has; the contract talks about it through \<open>copies\<close>, how many
  copies of an envelope the system still accounts for. The in-memory backend provides \<open>transport\<close>, with
  \<open>tally\<close> for \<open>copies\<close>; the RabbitMQ backend provides \<open>at_least_once\<close> (\<open>Rmq_Transport\<close>).
\<close>

record ('s, 'b) backend_ops =
  b_declare :: "queue_config list \<Rightarrow> 's \<Rightarrow> ('b error + unit) \<times> 's"
  b_publish :: "envelope \<Rightarrow> duration option \<Rightarrow> 's \<Rightarrow> ('b error + unit) \<times> 's"
  b_defer :: "envelope \<Rightarrow> duration \<Rightarrow> 's \<Rightarrow> ('b error + unit) \<times> 's"
  b_close :: "'s \<Rightarrow> ('b error + unit) \<times> 's"

record ('d, 's, 'b) delivery_ops =
  d_envelope :: "'d \<Rightarrow> envelope"
  d_ack :: "'d \<Rightarrow> 's \<Rightarrow> ('b error + unit) \<times> 's"
  d_dead_letter :: "'d \<Rightarrow> string \<Rightarrow> 's \<Rightarrow> ('b error + unit) \<times> 's"
  d_retry :: "'d \<Rightarrow> envelope \<Rightarrow> duration \<Rightarrow> 's \<Rightarrow> ('b error + unit) \<times> 's"
  d_defer :: "'d \<Rightarrow> envelope \<Rightarrow> duration \<Rightarrow> 's \<Rightarrow> ('b error + unit) \<times> 's"

text \<open>The four ways a delivery is settled, as data, and the call each stands for.\<close>

datatype settlement =
    SAck
  | SDeadLetter string
  | SRetry envelope duration
  | SDefer envelope duration

fun apply_settlement :: "('d, 's, 'b) delivery_ops \<Rightarrow> settlement \<Rightarrow> 'd \<Rightarrow> 's \<Rightarrow> ('b error + unit) \<times> 's" where
  "apply_settlement D SAck d s = d_ack D d s"
| "apply_settlement D (SDeadLetter r) d s = d_dead_letter D d r s"
| "apply_settlement D (SRetry e t) d s = d_retry D d e t s"
| "apply_settlement D (SDefer e t) d s = d_defer D d e t s"

fun successor :: "settlement \<Rightarrow> envelope list" where
  "successor (SRetry e t) = [e]"
| "successor (SDefer e t) = [e]"
| "successor _ = []"

section \<open>The contract of a transport\<close>

text \<open>
  \<open>copies\<close> counts the copies the system is responsible for, by what identifies an envelope to it
  (\<open>key\<close>); \<open>came_back\<close> holds of the state of a call that returned. A publish that succeeds adds the
  envelope, one that fails adds nothing. Settling adds exactly the successor when it succeeds, the
  original still being accounted for; a settlement that fails may have added the successor, for whoever
  publishes before it settles: the delivery comes again, so a job may run twice but is not lost.
\<close>

locale at_least_once =
  fixes publish_op :: "envelope \<Rightarrow> duration option \<Rightarrow> 's \<Rightarrow> ('b error + unit) \<times> 's"
    and defer_op :: "envelope \<Rightarrow> duration \<Rightarrow> 's \<Rightarrow> ('b error + unit) \<times> 's"
    and settle_op :: "settlement \<Rightarrow> 'd \<Rightarrow> 's \<Rightarrow> ('b error + unit) \<times> 's"
    and outstanding :: "'s \<Rightarrow> 'd \<Rightarrow> bool"
    and came_back :: "'s \<Rightarrow> bool"
    and key :: "envelope \<Rightarrow> 'k"
    and copies :: "'s \<Rightarrow> 'k \<Rightarrow> nat"
  assumes publish_ok: "came_back s' \<Longrightarrow> publish_op e t s = (Inr (), s') \<Longrightarrow>
      copies s' x = copies s x + (if x = key e then 1 else 0)"
    and publish_err: "came_back s' \<Longrightarrow> publish_op e t s = (Inl r, s') \<Longrightarrow> copies s' x = copies s x"
    and defer_ok: "came_back s' \<Longrightarrow> defer_op e d s = (Inr (), s') \<Longrightarrow>
      copies s' x = copies s x + (if x = key e then 1 else 0)"
    and defer_err: "came_back s' \<Longrightarrow> defer_op e d s = (Inl r, s') \<Longrightarrow> copies s' x = copies s x"
    and settle_ok: "came_back s' \<Longrightarrow> outstanding s v \<Longrightarrow> settle_op st v s = (Inr (), s') \<Longrightarrow>
      copies s' x = copies s x + count_list (map key (successor st)) x"
    and settle_err: "came_back s' \<Longrightarrow> outstanding s v \<Longrightarrow> settle_op st v s = (Inl r, s') \<Longrightarrow>
      copies s' x \<le> copies s x + count_list (map key (successor st)) x"
begin

lemma settle_bound:
  "came_back s' \<Longrightarrow> outstanding s v \<Longrightarrow> settle_op st v s = (r, s') \<Longrightarrow>
     copies s' x \<le> copies s x + count_list (map key (successor st)) x"
  by (cases r) (auto simp: settle_ok dest: settle_err [of _ _ _ _ _ x])

end

text \<open>
  Where settling is one critical section, it fails only on a transport that was shut down; then no
  successor was added, and the delivery itself, which the caller gave up, is what left.
\<close>

locale transport = at_least_once publish_op defer_op settle_op outstanding "\<lambda>s. True" "\<lambda>e. e" copies
  for publish_op :: "envelope \<Rightarrow> duration option \<Rightarrow> 's \<Rightarrow> ('b error + unit) \<times> 's"
    and defer_op :: "envelope \<Rightarrow> duration \<Rightarrow> 's \<Rightarrow> ('b error + unit) \<times> 's"
    and settle_op :: "settlement \<Rightarrow> 'd \<Rightarrow> 's \<Rightarrow> ('b error + unit) \<times> 's"
    and outstanding :: "'s \<Rightarrow> 'd \<Rightarrow> bool"
    and copies :: "'s \<Rightarrow> envelope \<Rightarrow> nat" +
  fixes shut :: "'s \<Rightarrow> bool" and envelope_of :: "'d \<Rightarrow> envelope"
  assumes failed_settle: "outstanding s v \<Longrightarrow> settle_op st v s = (Inl r, s') \<Longrightarrow>
      shut s \<and> copies s' x + (if x = envelope_of v then 1 else 0) = copies s x"

section \<open>The in-memory backend as a transport\<close>

text \<open>A delivery of the in-memory backend is the pair of its consumer and its envelope; two equal
  pairs cannot be told apart, so the first of them is taken. A boxed delivery is owned by its holder,
  so a call always finds it; \<open>mem_call\<close> only makes the record's functions total.\<close>

definition position :: "'a \<Rightarrow> 'a list \<Rightarrow> nat" where
  "position x xs = length (takeWhile (\<lambda>y. y \<noteq> x) xs)"

lemma position_less: "x \<in> set xs \<Longrightarrow> position x xs < length xs \<and> xs ! position x xs = x"
  unfolding position_def by (induction xs) auto

definition mem_call :: "(('b error + unit) \<times> mem) option \<Rightarrow> mem \<Rightarrow> ('b error + unit) \<times> mem" where
  "mem_call r m = (case r of Some x \<Rightarrow> x | None \<Rightarrow> (Inl ShutDown, m))"

definition memory_backend :: "(mem, string) backend_ops" where
  "memory_backend = \<lparr>b_declare = declare_all, b_publish = publish, b_defer = backend_defer, b_close = close\<rparr>"

definition memory_delivery :: "(nat \<times> envelope, mem, string) delivery_ops" where
  "memory_delivery = \<lparr>d_envelope = snd,
     d_ack = (\<lambda>d m. mem_call (delivery_ack (position d (handed m)) m) m),
     d_dead_letter = (\<lambda>d r m. mem_call (delivery_dead_letter (position d (handed m)) r m) m),
     d_retry = (\<lambda>d e t m. mem_call (delivery_retry (position d (handed m)) e t m) m),
     d_defer = (\<lambda>d e t m. mem_call (delivery_defer (position d (handed m)) e t m) m)\<rparr>"

lemma mem_call_simps [simp]: "mem_call (Some x) m = x" "mem_call None m = (Inl ShutDown, m)"
  by (simp_all add: mem_call_def)

lemma take_at_position:
  "d \<in> set (handed m) \<Longrightarrow> take_delivery (position d (handed m)) m
     = Some (d, m\<lparr>handed := remove_nth (position d (handed m)) (handed m)\<rparr>)"
  using position_less [of d "handed m"] by (simp add: take_delivery_def)

text \<open>Settling a delivery the client holds: the copies before and after, by reply.\<close>

lemma memory_settle_copies:
  assumes "d \<in> set (handed m)" "apply_settlement memory_delivery st d m = (r, m')"
  shows "r = Inr () \<Longrightarrow> tally m' x = tally m x + count_list (successor st) x"
    and "r = Inl z \<Longrightarrow> closed (sh m) \<and> tally m' x + (if x = snd d then 1 else 0) = tally m x"
proof -
  obtain i e where d: "d = (i, e)" by (cases d)
  let ?j = "position d (handed m)"
  let ?m1 = "m\<lparr>handed := remove_nth ?j (handed m)\<rparr>"
  have t: "take_delivery ?j m = Some ((i, e), ?m1)"
    using take_at_position [OF assms(1)] d by simp
  note c = tally_deliver [OF t, of x]
  have dead: "tally (?m1\<lparr>sh := s\<rparr>) x = tally ?m1 x + (if x = e then 1 else 0)"
    if "record_dead e reason (sh m) = (Inr () :: string error + unit, s)" for s reason
    using that stored_record_dead [OF that, of x] tally_sh [where m = ?m1 and s = s and e = x]
    by (auto simp: record_dead_def split: if_splits)
  have dead': "closed (sh m) \<and> tally (?m1\<lparr>sh := s\<rparr>) x = tally ?m1 x"
    if "record_dead e reason (sh m) = (Inl y :: string error + unit, s)" for s reason y
  proof -
    have "s = sh m" "closed (sh m)" using that by (simp_all add: record_dead_def split: if_splits)
    then show ?thesis by (simp add: tally_def)
  qed
  show "r = Inr () \<Longrightarrow> tally m' x = tally m x + count_list (successor st) x"
    using assms(2) c dead by (cases st) (auto simp: memory_delivery_def delivery_ack_def
        delivery_dead_letter_def delivery_retry_def delivery_defer_def t split: if_splits prod.splits)
  have sd: "snd d = e" using d by simp
  show "r = Inl z \<Longrightarrow> closed (sh m) \<and> tally m' x + (if x = snd d then 1 else 0) = tally m x"
    using assms(2) c dead' by (cases st) (auto simp: memory_delivery_def delivery_ack_def
        delivery_dead_letter_def delivery_retry_def delivery_defer_def t sd split: if_splits prod.splits)
qed

interpretation memory: transport "b_publish memory_backend" "b_defer memory_backend"
  "apply_settlement memory_delivery" "\<lambda>m d. d \<in> set (handed m)" tally "\<lambda>m. closed (sh m)" snd
proof unfold_locales
  fix e t m m' x and r :: "string error"
  show "b_publish memory_backend e t m = (Inr (), m') \<Longrightarrow> tally m' x = tally m x + (if x = e then 1 else 0)"
    "b_publish memory_backend e t m = (Inl r, m') \<Longrightarrow> tally m' x = tally m x"
    by (auto simp: memory_backend_def publish_def split: if_splits)
next
  fix e d m m' x and r :: "string error"
  show "b_defer memory_backend e d m = (Inr (), m') \<Longrightarrow> tally m' x = tally m x + (if x = e then 1 else 0)"
    "b_defer memory_backend e d m = (Inl r, m') \<Longrightarrow> tally m' x = tally m x"
    by (auto simp: memory_backend_def backend_defer_def split: if_splits)
next
  fix m m' :: mem and d st x and r :: "string error"
  assume d: "d \<in> set (handed m)"
  show "apply_settlement memory_delivery st d m = (Inr (), m') \<Longrightarrow>
      tally m' x = tally m x + count_list (map (\<lambda>e. e) (successor st)) x"
    using memory_settle_copies(1) [OF d] by simp
  show "apply_settlement memory_delivery st d m = (Inl r, m') \<Longrightarrow>
      closed (sh m) \<and> tally m' x + (if x = snd d then 1 else 0) = tally m x"
    by (rule memory_settle_copies(2) [OF d]) simp_all
  then show "apply_settlement memory_delivery st d m = (Inl r, m') \<Longrightarrow>
      tally m' x \<le> tally m x + count_list (map (\<lambda>e. e) (successor st)) x" by fastforce
qed

end
