(* ===== verification/Worker_Dispatch.thy ===== *)
theory Worker_Dispatch
  imports Job_Context Backend_Spec
begin

text \<open>
  The per-delivery half of \<open>crates/core/src/worker.rs\<close>: the type-erased handler, running one job
  (decoding, per-job policy, context, timeout), the dispatch of its outcome, the dead-letter hook and
  the accounting of failed settlements.

  A function that awaits user code may not come back: \<open>flow\<close> says whether it is done, has unwound
  with a panic, or waits for ever, and carries the state reached either way. The state is the
  transport's, the counter of failed settlements, and the calls of the hook in order.
\<close>

datatype job_outcome =
    OutSuccess
  | OutDecode string
  | OutRetryable string
  | OutFatal string
  | OutDeferred duration string

datatype 'a flow = Done 'a | Unwound 'a | Blocked 'a

datatype run_result = Ran job_outcome retry_policy | RunPanics | RunHangs

record erased_handler =
  declared_policy :: retry_policy
  eh_queue :: string
  defer_priority :: u8
  eh_run :: "u64 \<Rightarrow> envelope \<Rightarrow> duration option \<Rightarrow> retry_policy \<Rightarrow> run_result"

section \<open>Running one job\<close>

definition job_declared_policy :: "'q queue_set \<Rightarrow> ('j, 'q) job \<Rightarrow> retry_policy" where
  "job_declared_policy Q J = (case job_retry_policy J of Some p \<Rightarrow> p | None \<Rightarrow> qc_retry (qs_config Q (QUEUE J)))"

definition job_context_of ::
  "'q queue_set \<Rightarrow> ('j, 'q) job \<Rightarrow> u64 \<Rightarrow> envelope \<Rightarrow> retry_policy \<Rightarrow> job_context" where
  "job_context_of Q J now env policy = \<lparr>ctx_job_id = job_id env, ctx_job_type = NAME J,
     ctx_queue = qs_name Q (QUEUE J), ctx_attempt = attempt env,
     ctx_max_attempts = max_attempts policy, ctx_deferrals = deferrals env,
     ctx_priority = priority env,
     ctx_age = from_millis (unat (saturating_sub now (enqueued_at_ms env))),
     ctx_correlation_id = correlation_id env\<rparr>"

text \<open>The result of the joined task.\<close>

fun outcome_of :: "(job_error + unit) outcome \<Rightarrow> job_outcome option" where
  "outcome_of (Returns t (Inr u)) = Some OutSuccess"
| "outcome_of (Returns t (Inl (JobRetryable e))) = Some (OutRetryable e)"
| "outcome_of (Returns t (Inl (JobFatal e))) = Some (OutFatal e)"
| "outcome_of (Returns t (Inl (JobDeferred d r))) = Some (OutDeferred d r)"
| "outcome_of (Panics t) = Some (OutRetryable ''handler panicked'')"
| "outcome_of (Cancelled t e) = Some (OutRetryable (''handler task failed: '' @ e))"
| "outcome_of Hangs = None"
| "outcome_of Spins = None"

fun duration_of :: "'a outcome \<Rightarrow> duration option" where
  "duration_of (Returns t x) = Some t"
| "duration_of (Panics t) = Some t"
| "duration_of (Cancelled t e) = Some t"
| "duration_of Hangs = None"
| "duration_of Spins = None"

definition yields :: "'a outcome \<Rightarrow> bool" where
  "yields task = (case task of Spins \<Rightarrow> False | _ \<Rightarrow> True)"

text \<open>
  \<open>tokio::time::timeout(limit, task)\<close> polls the task before the clock, so a task that is ready when
  the limit is reached still counts; otherwise the task is aborted, the worker waits until it is gone,
  and the job timed out. A task that never yields is never gone. \<open>dbg\<close> is the \<open>{:?}\<close> rendering of a duration.
\<close>

definition await_job :: "(duration \<Rightarrow> string) \<Rightarrow> duration option \<Rightarrow> (job_error + unit) outcome \<Rightarrow> job_outcome option" where
  "await_job dbg timeout task = (case timeout of
       Some limit \<Rightarrow>
         (if \<exists>t. duration_of task = Some t \<and> t \<le> limit then outcome_of task
          else if yields task then Some (OutRetryable (''job timed out after '' @ dbg limit)) else None)
     | None \<Rightarrow> outcome_of task)"

lemma await_job_code [code]:
  "await_job dbg timeout task = (case timeout of
       Some limit \<Rightarrow> (case duration_of task of
           Some t \<Rightarrow> (if t \<le> limit then outcome_of task
             else Some (OutRetryable (''job timed out after '' @ dbg limit)))
         | None \<Rightarrow> (if yields task then Some (OutRetryable (''job timed out after '' @ dbg limit)) else None))
     | None \<Rightarrow> outcome_of task)"
  by (cases task) (auto simp: await_job_def yields_def split: option.split)

definition run_job :: "('b \<Rightarrow> string) \<Rightarrow> (duration \<Rightarrow> string) \<Rightarrow> 'q queue_set \<Rightarrow> ('j, 'q) job \<Rightarrow> 'j job_handler
    \<Rightarrow> u64 \<Rightarrow> envelope \<Rightarrow> duration option \<Rightarrow> retry_policy \<Rightarrow> run_result" where
  "run_job sb dbg Q J H now env timeout configured =
     (case decode J env of
        Inl e \<Rightarrow> Ran (OutDecode (show_error sb e)) configured
      | Inr job \<Rightarrow> (case set_retry_policy H job of
          None \<Rightarrow> RunPanics
        | Some chosen \<Rightarrow>
            (let policy = (case chosen of Some p \<Rightarrow> p | None \<Rightarrow> configured);
                 ctx = job_context_of Q J now env policy
             in case await_job dbg timeout (handle H job ctx) of
                  None \<Rightarrow> RunHangs
                | Some outcome \<Rightarrow> Ran outcome policy)))"

definition erase :: "('b \<Rightarrow> string) \<Rightarrow> (duration \<Rightarrow> string) \<Rightarrow> 'q queue_set \<Rightarrow> ('j, 'q) job \<Rightarrow> 'j job_handler
    \<Rightarrow> erased_handler" where
  "erase sb dbg Q J H = \<lparr>declared_policy = job_declared_policy Q J, eh_queue = qs_name Q (QUEUE J),
     defer_priority = top_priority (qs_config Q (QUEUE J)), eh_run = run_job sb dbg Q J H\<rparr>"

section \<open>Settling\<close>

record 's proc =
  bk :: 's
  failures :: u64
  hooked :: "dead_letter list"

type_synonym hook = "dead_letter \<Rightarrow> unit outcome"

definition settle :: "('b error + unit) \<times> 's \<Rightarrow> 's proc \<Rightarrow> 's proc" where
  "settle r p = (case r of
       (Inl e, s) \<Rightarrow> p\<lparr>bk := s, failures := failures p + 1\<rparr>
     | (Inr u, s) \<Rightarrow> p\<lparr>bk := s\<rparr>)"

text \<open>A panicking or cancelled hook is logged and dead-lettering goes on; one that never returns blocks it.\<close>

definition notify_dead :: "hook option \<Rightarrow> envelope \<Rightarrow> dead_letter_cause \<Rightarrow> string \<Rightarrow> u32 option
    \<Rightarrow> 's proc \<Rightarrow> 's proc flow" where
  "notify_dead h env cause reason maxa p = (case h of
       None \<Rightarrow> Done p
     | Some f \<Rightarrow>
         (let dead = \<lparr>dl_envelope = env, dl_cause = cause, dl_reason = reason, dl_max_attempts = maxa\<rparr>;
              p = p\<lparr>hooked := hooked p @ [dead]\<rparr>
          in case f dead of Hangs \<Rightarrow> Blocked p | Spins \<Rightarrow> Blocked p | _ \<Rightarrow> Done p))"

definition then_flow :: "'a flow \<Rightarrow> ('a \<Rightarrow> 'a flow) \<Rightarrow> 'a flow" where
  "then_flow r k = (case r of Done p \<Rightarrow> k p | Unwound p \<Rightarrow> Unwound p | Blocked p \<Rightarrow> Blocked p)"

definition give_up :: "('d, 's, 'b) delivery_ops \<Rightarrow> hook option \<Rightarrow> 'd \<Rightarrow> envelope \<Rightarrow> dead_letter_cause \<Rightarrow> string
    \<Rightarrow> u32 option \<Rightarrow> 's proc \<Rightarrow> 's proc flow" where
  "give_up D h d env cause reason maxa p =
     then_flow (notify_dead h env cause reason maxa p)
       (\<lambda>p. Done (settle (d_dead_letter D d reason (bk p)) p))"

section \<open>Dispatch\<close>

definition no_handler_reason :: "envelope \<Rightarrow> string" where
  "no_handler_reason env = ''no handler for job type `'' @ job_type env @ ''`''"

definition exhausted_reason :: "retry_policy \<Rightarrow> envelope \<Rightarrow> string \<Rightarrow> string" where
  "exhausted_reason policy env e = ''max attempts ('' @ show_nat (unat (max_attempts policy))
     @ '') exhausted after attempt '' @ show_nat (unat (attempt env)) @ '': '' @ e"

definition dispatch :: "platform \<Rightarrow> ('d, 's, 'b) delivery_ops \<Rightarrow> (string \<Rightarrow> erased_handler option)
    \<Rightarrow> (string \<Rightarrow> retry_policy option) \<Rightarrow> hook option \<Rightarrow> duration option \<Rightarrow> u64 \<Rightarrow> 'd \<Rightarrow> envelope
    \<Rightarrow> 's proc \<Rightarrow> 's proc flow" where
  "dispatch pf D handlers policies h timeout now d env p =
     (case handlers (job_type env) of
        None \<Rightarrow> give_up D h d env CauseNoHandler (no_handler_reason env) None p
      | Some handler \<Rightarrow>
          (let configured = (case policies (job_type env) of Some q \<Rightarrow> q | None \<Rightarrow> declared_policy handler)
           in case eh_run handler now env timeout configured of
                RunPanics \<Rightarrow> Unwound p
              | RunHangs \<Rightarrow> Blocked p
              | Ran outcome policy \<Rightarrow> (case outcome of
                    OutSuccess \<Rightarrow> Done (settle (d_ack D d (bk p)) p)
                  | OutDecode e \<Rightarrow> give_up D h d env CauseDecode (''decode error: '' @ e)
                      (Some (max_attempts policy)) p
                  | OutFatal e \<Rightarrow> give_up D h d env CauseFatal (''fatal error: '' @ e)
                      (Some (max_attempts policy)) p
                  | OutDeferred dly reason \<Rightarrow>
                      Done (settle (d_defer D d (deferred env (defer_priority handler)) dly (bk p)) p)
                  | OutRetryable e \<Rightarrow> (case decide pf policy (attempt env) of
                        None \<Rightarrow> Unwound p
                      | Some (Retry dly) \<Rightarrow> Done (settle (d_retry D d (next_attempt env) dly (bk p)) p)
                      | Some GiveUp \<Rightarrow> give_up D h d env CauseExhausted (exhausted_reason policy env e)
                          (Some (max_attempts policy)) p))))"

definition process :: "platform \<Rightarrow> ('d, 's, 'b) delivery_ops \<Rightarrow> (string \<Rightarrow> erased_handler option)
    \<Rightarrow> (string \<Rightarrow> retry_policy option) \<Rightarrow> hook option \<Rightarrow> duration option \<Rightarrow> u64 \<Rightarrow> 'd \<Rightarrow> 's proc \<Rightarrow> 's proc flow" where
  "process pf D handlers policies h timeout now d p =
     dispatch pf D handlers policies h timeout now d (d_envelope D d) p"

section \<open>The decision, apart from its effects\<close>

text \<open>
  What the contract at the head of the source file prescribes for one delivery: the settlement and,
  where it is a dead-lettering, what the hook is told. \<open>dispatch\<close> carries out exactly this.
\<close>

datatype verdict =
    Verdict settlement "(dead_letter_cause \<times> u32 option) option"
  | VPanics
  | VHangs

fun judge :: "platform \<Rightarrow> erased_handler \<Rightarrow> envelope \<Rightarrow> run_result \<Rightarrow> verdict" where
  "judge pf eh env RunPanics = VPanics"
| "judge pf eh env RunHangs = VHangs"
| "judge pf eh env (Ran OutSuccess pol) = Verdict SAck None"
| "judge pf eh env (Ran (OutDecode e) pol) =
     Verdict (SDeadLetter (''decode error: '' @ e)) (Some (CauseDecode, Some (max_attempts pol)))"
| "judge pf eh env (Ran (OutFatal e) pol) =
     Verdict (SDeadLetter (''fatal error: '' @ e)) (Some (CauseFatal, Some (max_attempts pol)))"
| "judge pf eh env (Ran (OutDeferred t r) pol) = Verdict (SDefer (deferred env (defer_priority eh)) t) None"
| "judge pf eh env (Ran (OutRetryable e) pol) = (case decide pf pol (attempt env) of
     None \<Rightarrow> VPanics
   | Some (Retry t) \<Rightarrow> Verdict (SRetry (next_attempt env) t) None
   | Some GiveUp \<Rightarrow> Verdict (SDeadLetter (exhausted_reason pol env e))
       (Some (CauseExhausted, Some (max_attempts pol))))"

definition verdict_of :: "platform \<Rightarrow> (string \<Rightarrow> erased_handler option) \<Rightarrow> (string \<Rightarrow> retry_policy option)
    \<Rightarrow> duration option \<Rightarrow> u64 \<Rightarrow> envelope \<Rightarrow> verdict" where
  "verdict_of pf handlers policies timeout now env = (case handlers (job_type env) of
       None \<Rightarrow> Verdict (SDeadLetter (no_handler_reason env)) (Some (CauseNoHandler, None))
     | Some eh \<Rightarrow> judge pf eh env (eh_run eh now env timeout
         (case policies (job_type env) of Some q \<Rightarrow> q | None \<Rightarrow> declared_policy eh)))"

text \<open>The report made to the hook.\<close>

definition report :: "envelope \<Rightarrow> settlement \<Rightarrow> (dead_letter_cause \<times> u32 option) option \<Rightarrow> dead_letter list" where
  "report env st c = (case (st, c) of
       (SDeadLetter r, Some (cause, maxa)) \<Rightarrow>
         [\<lparr>dl_envelope = env, dl_cause = cause, dl_reason = r, dl_max_attempts = maxa\<rparr>]
     | _ \<Rightarrow> [])"

definition enact :: "('d, 's, 'b) delivery_ops \<Rightarrow> hook option \<Rightarrow> 'd \<Rightarrow> envelope \<Rightarrow> verdict
    \<Rightarrow> 's proc \<Rightarrow> 's proc flow" where
  "enact D h d env v p = (case v of
       VPanics \<Rightarrow> Unwound p
     | VHangs \<Rightarrow> Blocked p
     | Verdict st c \<Rightarrow>
         (let dead = report env st c;
              p1 = (if h = None then p else p\<lparr>hooked := hooked p @ dead\<rparr>)
          in if h \<noteq> None \<and> (\<exists>x\<in>set dead. duration_of (the h x) = None) then Blocked p1
             else Done (settle (apply_settlement D st d (bk p1)) p1)))"

lemma give_up_enact:
  "give_up D h d env cause r maxa p = enact D h d env (Verdict (SDeadLetter r) (Some (cause, maxa))) p"
  by (cases h) (auto simp: give_up_def enact_def notify_dead_def then_flow_def report_def Let_def
      split: outcome.split)

lemma settle_enact:
  "successor st \<noteq> [] \<or> st = SAck \<Longrightarrow>
     enact D h d env (Verdict st None) p = Done (settle (apply_settlement D st d (bk p)) p)"
  by (cases st) (auto simp: enact_def report_def)

lemma dispatch_enacts:
  "dispatch pf D handlers policies h timeout now d env p
    = enact D h d env (verdict_of pf handlers policies timeout now env) p"
proof (cases "handlers (job_type env)")
  case None
  then show ?thesis by (simp add: dispatch_def verdict_of_def give_up_enact)
next
  case (Some eh)
  let ?r = "eh_run eh now env timeout
    (case policies (job_type env) of Some q \<Rightarrow> q | None \<Rightarrow> declared_policy eh)"
  have v: "verdict_of pf handlers policies timeout now env = judge pf eh env ?r"
    using Some by (simp add: verdict_of_def)
  show ?thesis
  proof (cases ?r)
    case (Ran outcome pol)
    show ?thesis
    proof (cases outcome)
      case (OutRetryable e)
      with v Some Ran show ?thesis
        by (cases "decide pf pol (attempt env)")
          (auto simp: dispatch_def give_up_enact settle_enact enact_def [of _ _ _ _ VPanics]
            split: retry_decision.split)
    qed (use v Some Ran in \<open>simp_all add: dispatch_def give_up_enact settle_enact\<close>)
  qed (use v Some in \<open>simp_all add: dispatch_def enact_def\<close>)
qed

lemma verdict_dead: "verdict_of pf handlers policies timeout now env = Verdict st c \<Longrightarrow>
    (c = None) = (\<forall>r. st \<noteq> SDeadLetter r)"
proof -
  have *: "judge pf eh env r = Verdict st c \<Longrightarrow> (c = None) = (\<forall>r. st \<noteq> SDeadLetter r)" for eh r
    by (cases "(pf, eh, env, r)" rule: judge.cases) (auto split: option.splits retry_decision.splits)
  then show "verdict_of pf handlers policies timeout now env = Verdict st c \<Longrightarrow>
    (c = None) = (\<forall>r. st \<noteq> SDeadLetter r)"
    by (auto simp: verdict_of_def split: option.splits)
qed

end
