(* ===== verification/Producer.thy ===== *)
theory Producer
  imports Backend_Spec
begin

text \<open>
  \<open>crates/core/src/producer.rs\<close>: the options of an enqueue, their builders, and the producer's
  methods over the operations of a backend. \<open>fresh\<close> and \<open>now\<close> are the id and the time \<open>Envelope::new\<close>
  draws. The lemmas about what reaches the backend are proved in the contract \<open>at_least_once\<close> and hold
  for every backend that keeps it.
\<close>

datatype schedule = Now | After duration | Deferred_For duration

record enqueue_options =
  eo_correlation_id :: "string option"
  eo_schedule :: schedule

definition options_now :: enqueue_options where
  "options_now = \<lparr>eo_correlation_id = None, eo_schedule = Now\<rparr>"

definition options_after :: "duration \<Rightarrow> enqueue_options" where
  "options_after d = options_now\<lparr>eo_schedule := After d\<rparr>"

definition options_deferred :: "duration \<Rightarrow> enqueue_options" where
  "options_deferred d = options_now\<lparr>eo_schedule := Deferred_For d\<rparr>"

definition options_correlation_id :: "string \<Rightarrow> enqueue_options \<Rightarrow> enqueue_options" where
  "options_correlation_id c opts = opts\<lparr>eo_correlation_id := Some c\<rparr>"

definition producer_new :: "('s, 'b) backend_ops \<Rightarrow> 'q queue_set \<Rightarrow> 's \<Rightarrow> ('b error + unit) \<times> 's" where
  "producer_new P Q s = b_declare P (map (qs_config Q) (qs_all Q)) s"

text \<open>\<open>?\<close> after a backend call: the state goes on either way, the value only when it is \<open>Ok\<close>.\<close>

definition then_ok :: "('b error + unit) \<times> 's \<Rightarrow> 'a \<Rightarrow> ('b error + 'a) \<times> 's" where
  "then_ok r x = (case r of (Inl e, s) \<Rightarrow> (Inl e, s) | (Inr _, s) \<Rightarrow> (Inr x, s))"

definition enqueue_with :: "('s, 'b) backend_ops \<Rightarrow> 'q queue_set \<Rightarrow> uuid \<Rightarrow> u64 \<Rightarrow> ('j, 'q) job \<Rightarrow> 'j
    \<Rightarrow> enqueue_options \<Rightarrow> 's \<Rightarrow> ('b error + uuid) \<times> 's" where
  "enqueue_with P Q fresh now J job opts s = (case envelope_new fresh now Q J job of
       Inl e \<Rightarrow> (Inl e, s)
     | Inr env \<Rightarrow>
         (let env = env\<lparr>correlation_id := eo_correlation_id opts\<rparr>
          in case eo_schedule opts of
               Now \<Rightarrow> then_ok (b_publish P env None s) (job_id env)
             | After d \<Rightarrow> then_ok (b_publish P env (Some d) s) (job_id env)
             | Deferred_For d \<Rightarrow>
                 (let env = env\<lparr>priority := top_priority (qs_config Q (QUEUE J))\<rparr>
                  in then_ok (b_defer P env d s) (job_id env))))"

definition enqueue :: "('s, 'b) backend_ops \<Rightarrow> 'q queue_set \<Rightarrow> uuid \<Rightarrow> u64 \<Rightarrow> ('j, 'q) job \<Rightarrow> 'j
    \<Rightarrow> 's \<Rightarrow> ('b error + uuid) \<times> 's" where
  "enqueue P Q fresh now J job s = enqueue_with P Q fresh now J job options_now s"

definition enqueue_after :: "('s, 'b) backend_ops \<Rightarrow> 'q queue_set \<Rightarrow> uuid \<Rightarrow> u64 \<Rightarrow> ('j, 'q) job \<Rightarrow> 'j
    \<Rightarrow> duration \<Rightarrow> 's \<Rightarrow> ('b error + uuid) \<times> 's" where
  "enqueue_after P Q fresh now J job d s = enqueue_with P Q fresh now J job (options_after d) s"

definition producer_defer :: "('s, 'b) backend_ops \<Rightarrow> 'q queue_set \<Rightarrow> uuid \<Rightarrow> u64 \<Rightarrow> ('j, 'q) job \<Rightarrow> 'j
    \<Rightarrow> duration \<Rightarrow> 's \<Rightarrow> ('b error + uuid) \<times> 's" where
  "producer_defer P Q fresh now J job d s = enqueue_with P Q fresh now J job (options_deferred d) s"

section \<open>What is submitted\<close>

text \<open>The one envelope an enqueue hands to the backend.\<close>

definition enqueued :: "'q queue_set \<Rightarrow> uuid \<Rightarrow> u64 \<Rightarrow> ('j, 'q) job \<Rightarrow> json \<Rightarrow> enqueue_options \<Rightarrow> envelope" where
  "enqueued Q fresh now J v opts = \<lparr>job_id = fresh, job_type = NAME J, queue = qs_name Q (QUEUE J),
     attempt = 1, enqueued_at_ms = now, deferrals = 0,
     priority = (case eo_schedule opts of Deferred_For d \<Rightarrow> top_priority (qs_config Q (QUEUE J)) | _ \<Rightarrow> 0),
     correlation_id = eo_correlation_id opts, payload = v\<rparr>"

lemma enqueue_with_eq:
  "enqueue_with P Q fresh now J job opts s = (case to_value J job of
       Inl e \<Rightarrow> (Inl (Serde e), s)
     | Inr v \<Rightarrow> then_ok (case eo_schedule opts of
           Now \<Rightarrow> b_publish P (enqueued Q fresh now J v opts) None s
         | After d \<Rightarrow> b_publish P (enqueued Q fresh now J v opts) (Some d) s
         | Deferred_For d \<Rightarrow> b_defer P (enqueued Q fresh now J v opts) d s) fresh)"
proof (cases "to_value J job")
  case (Inr v)
  then show ?thesis
    by (cases "eo_schedule opts") (simp_all add: enqueue_with_def envelope_new_def enqueued_def Let_def)
qed (simp add: enqueue_with_def envelope_new_def)

lemma then_ok_cases:
  "then_ok r x = (Inr y, s') \<longleftrightarrow> r = (Inr (), s') \<and> y = x"
  "then_ok r x = (Inl e, s') \<longleftrightarrow> r = (Inl e, s')"
proof -
  obtain a t where r: "r = (a, t)" by (cases r)
  show "then_ok r x = (Inr y, s') \<longleftrightarrow> r = (Inr (), s') \<and> y = x"
    "then_ok r x = (Inl e, s') \<longleftrightarrow> r = (Inl e, s')"
    by (cases a; auto simp: r then_ok_def)+
qed

context at_least_once
begin

lemma enqueue_ok:
  assumes "b_publish P = publish_op" "b_defer P = defer_op" "came_back s'"
    and "enqueue_with P Q fresh now J job opts s = (Inr i, s')"
  shows "\<exists>v. to_value J job = Inr v \<and> i = fresh \<and> (\<forall>x. copies s' x
      = copies s x + (if x = key (enqueued Q fresh now J v opts) then 1 else 0))"
proof (cases "to_value J job")
  case (Inr v)
  with assms show ?thesis
    by (cases "eo_schedule opts") (auto simp: enqueue_with_eq then_ok_cases publish_ok defer_ok)
qed (use assms in \<open>simp add: enqueue_with_eq\<close>)

lemma enqueue_err:
  assumes "b_publish P = publish_op" "b_defer P = defer_op" "came_back s'"
    and "enqueue_with P Q fresh now J job opts s = (Inl r, s')"
  shows "copies s' x = copies s x"
proof (cases "to_value J job")
  case (Inr v)
  with assms show ?thesis
    by (cases "eo_schedule opts") (auto simp: enqueue_with_eq then_ok_cases intro: publish_err defer_err)
qed (use assms in \<open>simp add: enqueue_with_eq\<close>)

end

text \<open>C32: enqueueing with the in-memory backend submits exactly one new envelope, with the fresh id the
  call returns, attempt 1, no deferrals, the caller's correlation id, and the queue's top priority
  if and only if it was deferred; a failed enqueue submits nothing.\<close>

theorem enqueue_submits_exactly_one:
  "(case enqueue_with memory_backend Q fresh now J job opts m of
      (Inr i, m') \<Rightarrow> (\<exists>v. to_value J job = Inr v \<and> i = fresh \<and>
        (\<lambda>x. tally m' x) = (\<lambda>x. tally m x + (if x = enqueued Q fresh now J v opts then 1 else 0)))
    | (Inl r, m') \<Rightarrow> (\<lambda>x. tally m' x) = (\<lambda>x. tally m x))"
proof -
  obtain r m' where e: "enqueue_with memory_backend Q fresh now J job opts m = (r, m')"
    by (cases "enqueue_with memory_backend Q fresh now J job opts m")
  show ?thesis
  proof (cases r)
    case (Inl z)
    have "tally m' x = tally m x" for x by (rule memory.enqueue_err [OF refl refl TrueI e [unfolded Inl]])
    with e Inl show ?thesis by (simp add: fun_eq_iff)
  next
    case (Inr i)
    from memory.enqueue_ok [OF refl refl TrueI e [unfolded Inr]]
    obtain v where "to_value J job = Inr v" "i = fresh"
      "\<forall>x. tally m' x = tally m x + (if x = enqueued Q fresh now J v opts then 1 else 0)" by blast
    with e Inr show ?thesis by (simp add: fun_eq_iff)
  qed
qed

text \<open>the shorthands are the options: a plain enqueue goes out now at priority 0, a delayed one
  joins the back of the queue, and each is one call of the backend with that envelope.\<close>

theorem enqueue_shorthands:
  "enqueue P Q fresh now J job s = (case to_value J job of Inl e \<Rightarrow> (Inl (Serde e), s)
     | Inr v \<Rightarrow> then_ok (b_publish P (envelope_raw fresh now (NAME J) (qs_name Q (QUEUE J)) v) None s) fresh)
   \<and> enqueue_after P Q fresh now J job d s = (case to_value J job of Inl e \<Rightarrow> (Inl (Serde e), s)
     | Inr v \<Rightarrow> then_ok (b_publish P (envelope_raw fresh now (NAME J) (qs_name Q (QUEUE J)) v) (Some d) s) fresh)
   \<and> producer_defer P Q fresh now J job d s = (case to_value J job of Inl e \<Rightarrow> (Inl (Serde e), s)
     | Inr v \<Rightarrow> then_ok (b_defer P ((envelope_raw fresh now (NAME J) (qs_name Q (QUEUE J)) v)
         \<lparr>priority := top_priority (qs_config Q (QUEUE J))\<rparr>) d s) fresh)"
  by (simp add: enqueue_def enqueue_after_def producer_defer_def enqueue_with_eq options_now_def
      options_after_def options_deferred_def enqueued_def envelope_raw_def split: sum.split)

end
