(* ===== verification/Worker_Properties.thy ===== *)
theory Worker_Properties
  imports Worker_Dispatch Producer
begin

text \<open>
  What the worker guarantees for one delivery, over every transport and every handler: how often it
  settles, when the hook hears of it, what becomes of a failed and of a deferred attempt, how many
  attempts a job gets, and that processing neither loses nor duplicates a job.
\<close>

section \<open>One settlement\<close>

lemma dispatch_effects:
  "case dispatch pf D handlers policies h timeout now d env p of
     Done p' \<Rightarrow> (\<exists>st c. verdict_of pf handlers policies timeout now env = Verdict st c
       \<and> bk p' = snd (apply_settlement D st d (bk p))
       \<and> failures p' = failures p + (if is_ok (fst (apply_settlement D st d (bk p))) then 0 else 1)
       \<and> hooked p' = hooked p @ (if h = None then [] else report env st c))
   | Unwound p' \<Rightarrow> p' = p
   | Blocked p' \<Rightarrow> bk p' = bk p \<and> failures p' = failures p"
proof -
  have settle: "bk (settle r p) = snd r" "hooked (settle r p) = hooked p"
    "failures (settle r p) = failures p + (if is_ok (fst r) then 0 else 1)" for r p
    by (simp_all add: settle_def is_ok_def split: prod.split sum.split)
  have bk: "bk (p\<lparr>hooked := x\<rparr>) = bk p" for x by simp
  show ?thesis
    unfolding dispatch_enacts
    by (cases "verdict_of pf handlers policies timeout now env")
      (auto simp: enact_def Let_def settle)
qed

text \<open>C1: a dispatch that finishes settles its delivery exactly once, the way the contract prescribes,
  counts a failed settlement once, and has told the hook beforehand exactly when it dead-letters;
  one that unwinds or hangs has settled nothing.\<close>

theorem dispatch_settles_exactly_once:
  "case dispatch pf D handlers policies h timeout now d env p of
     Done p' \<Rightarrow> (\<exists>st c. verdict_of pf handlers policies timeout now env = Verdict st c
       \<and> bk p' = snd (apply_settlement D st d (bk p))
       \<and> failures p' = failures p + (if is_ok (fst (apply_settlement D st d (bk p))) then 0 else 1)
       \<and> hooked p' = hooked p @ (if h = None then [] else report env st c))
   | Unwound p' \<Rightarrow> p' = p
   | Blocked p' \<Rightarrow> bk p' = bk p \<and> failures p' = failures p"
  by (rule dispatch_effects)

text \<open>the hook hears of a job exactly when it is dead-lettered, with the delivered envelope and
  the very reason passed to the broker, and before that: if it never returns, nothing is settled.\<close>

theorem hook_precedes_dead_lettering:
  assumes "dispatch pf D handlers policies (Some f) timeout now d env p = r"
  shows "(\<exists>p' dl. r = Done p' \<and> hooked p' = hooked p @ [dl] \<and> dl_envelope dl = env \<and> duration_of (f dl) \<noteq> None
        \<and> bk p' = snd (d_dead_letter D d (dl_reason dl) (bk p)))
    \<or> (\<exists>p' st. r = Done p' \<and> hooked p' = hooked p \<and> (\<forall>reason. st \<noteq> SDeadLetter reason)
        \<and> bk p' = snd (apply_settlement D st d (bk p)))
    \<or> (\<exists>p' dl. r = Blocked p' \<and> hooked p' = hooked p @ [dl] \<and> duration_of (f dl) = None \<and> bk p' = bk p)
    \<or> (r = Unwound p \<or> r = Blocked p)"
proof (cases "verdict_of pf handlers policies timeout now env")
  case (Verdict st c)
  have settle: "bk (settle r p) = snd r" "hooked (settle r p) = hooked p" for r p
    by (simp_all add: settle_def split: prod.split sum.split)
  show ?thesis
  proof (cases "\<exists>reason. st = SDeadLetter reason")
    case True
    then obtain reason cause maxa where "st = SDeadLetter reason" "c = Some (cause, maxa)"
      using verdict_dead [OF Verdict] by (cases c) auto
    with Verdict assms show ?thesis
      by (auto simp: dispatch_enacts enact_def report_def Let_def settle split: if_splits)
  next
    case False
    then have "c = None" using verdict_dead [OF Verdict] by blast
    with Verdict assms have "r = Done (settle (apply_settlement D st d (bk p)) p)"
      by (auto simp: dispatch_enacts enact_def report_def split: settlement.split)
    with False settle show ?thesis by blast
  qed
qed (use assms in \<open>auto simp: dispatch_enacts enact_def\<close>)

section \<open>A failed attempt\<close>

lemma retry_step:
  assumes "decide pf pol (attempt env) = Some (Retry dly)"
  shows "unat (attempt (next_attempt env)) = unat (attempt env) + 1"
    "attempt (next_attempt env) \<le> max_attempts pol"
proof -
  have lt: "attempt env < max_attempts pol" using assms by (simp add: decide_Retry_iff)
  show u: "unat (attempt (next_attempt env)) = unat (attempt env) + 1"
    using unat_add_one [OF lt] by (simp add: next_attempt_def)
  with lt show "attempt (next_attempt env) \<le> max_attempts pol"
    by (simp add: word_le_nat_alt word_less_nat_alt)
qed

text \<open>C6: an attempt that fails transiently is dead-lettered exactly when the handler was told it was
  the last one; otherwise it is rescheduled with the next attempt number, which never wraps and never
  exceeds the policy's maximum, after the policy's delay. The policy is the one the handler chose for
  this job, or the configured one.\<close>

theorem failed_attempt_retried_unless_last:
  assumes "rng_ok pf" and "handlers (job_type env) = Some (erase sb dbg Q J H)"
    and "policies (job_type env) = Some configured"
    and "from_value J (payload env) = Inr job" "set_retry_policy H job = Some chosen"
    and pol: "policy = (case chosen of Some q \<Rightarrow> q | None \<Rightarrow> configured)"
    and ctx: "ctx = job_context_of Q J now env policy"
    and run: "await_job dbg timeout (handle H job ctx) = Some (OutRetryable e)"
  shows "(is_last_attempt ctx \<longrightarrow> dispatch pf D handlers policies h timeout now d env p
        = give_up D h d env CauseExhausted (exhausted_reason policy env e) (Some (max_attempts policy)) p)
    \<and> (\<not> is_last_attempt ctx \<longrightarrow> (\<exists>dly. delay_for pf (backoff policy) (attempt env) = Some dly
        \<and> unat (attempt (next_attempt env)) = unat (attempt env) + 1
        \<and> attempt (next_attempt env) \<le> max_attempts policy
        \<and> dispatch pf D handlers policies h timeout now d env p
            = Done (settle (d_retry D d (next_attempt env) dly (bk p)) p)))"
proof -
  have r: "eh_run (erase sb dbg Q J H) now env timeout configured = Ran (OutRetryable e) policy"
    using assms(4,5) run by (simp add: erase_def run_job_def decode_def Let_def pol ctx)
  have last: "is_last_attempt ctx \<longleftrightarrow> decide pf policy (attempt env) = Some GiveUp"
    by (rule is_last_attempt_iff_GiveUp) (simp_all add: ctx job_context_of_def)
  obtain dec where dec: "decide pf policy (attempt env) = Some dec"
    using decide_total [OF assms(1)] by blast
  show ?thesis
  proof (cases dec)
    case (Retry dly)
    with dec have dr: "decide pf policy (attempt env) = Some (Retry dly)" by simp
    then have "delay_for pf (backoff policy) (attempt env) = Some dly" by (simp add: decide_Retry_iff)
    moreover have "dispatch pf D handlers policies h timeout now d env p
        = Done (settle (d_retry D d (next_attempt env) dly (bk p)) p)"
      using dr r assms(2,3) by (simp add: dispatch_def)
    moreover have "\<not> is_last_attempt ctx" using dr last by simp
    ultimately show ?thesis using retry_step [OF dr] by blast
  next
    case GiveUp
    with dec r assms(2,3) last show ?thesis by (simp add: dispatch_def)
  qed
qed

section \<open>A deferral\<close>

text \<open>C24: a deferral is not a failure: whatever the retry policy says, the job comes back after the delay
  it asked for with the same attempt number, one more deferral, and its queue's top priority; neither
  the policy nor the hook is consulted.\<close>

theorem deferral_keeps_the_attempt:
  assumes "handlers (job_type env) = Some (erase sb dbg Q J H)" "from_value J (payload env) = Inr job"
    and "set_retry_policy H job = Some chosen"
    and "policies (job_type env) = Some configured"
    and "await_job dbg timeout (handle H job (job_context_of Q J now env
        (case chosen of Some q \<Rightarrow> q | None \<Rightarrow> configured))) = Some (OutDeferred dly why)"
  shows "\<exists>nxt. dispatch pf D handlers policies h timeout now d env p
        = Done (settle (d_defer D d nxt dly (bk p)) p)
    \<and> attempt nxt = attempt env \<and> deferrals nxt = deferrals env + 1
    \<and> priority nxt = top_priority (qs_config Q (QUEUE J)) \<and> job_id nxt = job_id env
    \<and> queue nxt = queue env \<and> payload nxt = payload env \<and> correlation_id nxt = correlation_id env"
proof -
  have "eh_run (erase sb dbg Q J H) now env timeout configured
      = Ran (OutDeferred dly why) (case chosen of Some q \<Rightarrow> q | None \<Rightarrow> configured)"
    using assms by (simp add: erase_def run_job_def decode_def Let_def)
  with assms(1,4) have "dispatch pf D handlers policies h timeout now d env p
      = Done (settle (d_defer D d (deferred env (top_priority (qs_config Q (QUEUE J)))) dly (bk p)) p)"
    by (simp add: dispatch_def erase_def)
  then show ?thesis
    by (intro exI [of _ "deferred env (top_priority (qs_config Q (QUEUE J)))"] conjI)
      (simp_all add: deferred_def)
qed

section \<open>How often a job runs\<close>

text \<open>
  A transport that keeps the settlements it is asked for, in order: what a dispatch does to any other
  transport is these calls. The life of a job is what its dispatches settle, one after another: the
  successor a retry or deferral submits is the next delivery, processed at the next of the given times.
\<close>

definition recorder :: "(envelope, settlement list, string) delivery_ops" where
  "recorder = \<lparr>d_envelope = (\<lambda>e. e), d_ack = (\<lambda>e sts. (Inr (), sts @ [SAck])),
     d_dead_letter = (\<lambda>e reason sts. (Inr (), sts @ [SDeadLetter reason])),
     d_retry = (\<lambda>e nxt dly sts. (Inr (), sts @ [SRetry nxt dly])),
     d_defer = (\<lambda>e nxt dly sts. (Inr (), sts @ [SDefer nxt dly]))\<rparr>"

fun life :: "platform \<Rightarrow> (string \<Rightarrow> erased_handler option) \<Rightarrow> (string \<Rightarrow> retry_policy option) \<Rightarrow> hook option
    \<Rightarrow> duration option \<Rightarrow> u64 list \<Rightarrow> envelope \<Rightarrow> settlement list" where
  "life pf handlers policies h timeout [] env = []"
| "life pf handlers policies h timeout (now # later) env =
     (case process pf recorder handlers policies h timeout now env \<lparr>bk = [], failures = 0, hooked = []\<rparr> of
        Done p \<Rightarrow> (case concat (map successor (bk p)) of
            [nxt] \<Rightarrow> bk p @ life pf handlers policies h timeout later nxt
          | _ \<Rightarrow> bk p)
      | _ \<Rightarrow> [])"

lemma apply_recorder: "apply_settlement recorder st e sts = (Inr (), sts @ [st])"
  by (cases st) (simp_all add: recorder_def)

lemma life_step:
  assumes "verdict_of pf handlers policies timeout now env = Verdict st c"
    and "\<forall>f dl. h = Some f \<longrightarrow> duration_of (f dl) \<noteq> None"
  shows "life pf handlers policies h timeout (now # later) env
    = st # (case successor st of [nxt] \<Rightarrow> life pf handlers policies h timeout later nxt | _ \<Rightarrow> [])"
proof -
  have "\<exists>p. process pf recorder handlers policies h timeout now env \<lparr>bk = [], failures = 0, hooked = []\<rparr>
      = Done p \<and> bk p = [st]"
    using assms by (auto simp: process_def recorder_def [THEN arg_cong, of d_envelope] dispatch_enacts
        enact_def Let_def apply_recorder settle_def)
  then show ?thesis by (cases st) auto
qed

definition attempt_of :: "envelope \<Rightarrow> nat \<Rightarrow> envelope" where
  "attempt_of env k = env\<lparr>attempt := of_nat k\<rparr>"

lemma failing_life:
  assumes pf: "rng_ok pf" and hook: "\<forall>f dl. h = Some f \<longrightarrow> duration_of (f dl) \<noteq> None"
    and eh: "handlers (job_type env) = Some (erase sb dbg Q J H)" "policies (job_type env) = Some configured"
      "from_value J (payload env) = Inr job" "set_retry_policy H job = Some chosen"
    and pol: "pol = (case chosen of Some q \<Rightarrow> q | None \<Rightarrow> configured)"
    and fails: "\<forall>ctx. await_job dbg timeout (handle H job ctx) = Some (OutRetryable (msg ctx))"
    and prio: "priority env = 0"
    and N: "N = max 1 (unat (max_attempts pol))"
  shows "1 \<le> k \<Longrightarrow> k \<le> N \<Longrightarrow> N - k < length moments \<Longrightarrow>
    life pf handlers policies h timeout moments (attempt_of env k)
    = map (\<lambda>i. SRetry (attempt_of env (i + 1)) (the (delay_for pf (backoff pol) (of_nat i)))) [k..<N]
      @ [SDeadLetter (exhausted_reason pol (attempt_of env N)
          (msg (job_context_of Q J (moments ! (N - k)) (attempt_of env N) pol)))]"
proof (induction moments arbitrary: k)
  case (Cons now later)
  let ?env = "attempt_of env k"
  have "N < 2 ^ 32"
    using N unsigned_less [of "max_attempts pol"] by (auto simp: max_def)
  with Cons.prems(2) have k32: "k < 2 ^ 32" by linarith
  then have att: "unat (attempt ?env) = k" by (simp add: attempt_of_def unsigned_of_nat take_bit_nat_eq_self)
  have v: "verdict_of pf handlers policies timeout now ?env
      = judge pf (erase sb dbg Q J H) ?env (Ran (OutRetryable (msg (job_context_of Q J now ?env pol))) pol)"
    using eh fails by (simp add: verdict_of_def attempt_of_def erase_def run_job_def decode_def Let_def pol)
  show ?case
  proof (cases "k < N")
    case True
    then have "attempt ?env < max_attempts pol"
      using N Cons.prems(1) by (simp add: word_less_nat_alt att max_def split: if_splits)
    moreover obtain t where t: "delay_for pf (backoff pol) (attempt ?env) = Some t"
      using delay_for_total [OF pf] by blast
    ultimately have "decide pf pol (attempt ?env) = Some (Retry t)" by (simp add: decide_Retry_iff)
    moreover have "next_attempt ?env = attempt_of env (k + 1)"
      using prio by (simp add: next_attempt_def attempt_of_def)
    ultimately have "verdict_of pf handlers policies timeout now ?env = Verdict (SRetry (attempt_of env (k + 1)) t) None"
      using v by simp
    from life_step [OF this hook, of later] Cons.IH [of "k + 1"] Cons.prems True t
    show ?thesis by (simp add: upt_conv_Cons attempt_of_def Suc_diff_Suc [symmetric])
  next
    case False
    with Cons.prems(2) have k: "k = N" by simp
    have "max_attempts pol \<le> attempt ?env" unfolding word_le_nat_alt att using N k by simp
    then have "decide pf pol (attempt ?env) = Some GiveUp" by (simp add: decide_GiveUp_iff)
    with v life_step [OF _ hook, of pf handlers policies timeout now ?env _ _ later] k show ?thesis by simp
  qed
qed simp

text \<open>C12: a job that fails transiently every time is processed exactly as often as its policy allows,
  counted from its first attempt, and at least once. Every dispatch but the last submits the same
  envelope with the next attempt number and the policy's delay for the failed attempt; the last one
  dead-letters it as exhausted, with the message of its last failure. It does not matter when the
  dispatches happen.\<close>

theorem failing_job_runs_max_attempts_times:
  assumes "rng_ok pf" "\<forall>f dl. h = Some f \<longrightarrow> duration_of (f dl) \<noteq> None"
    and "handlers t = Some (erase sb dbg Q J H)" "policies t = Some configured"
    and "from_value J v = Inr job" "set_retry_policy H job = Some chosen"
    and pol: "pol = (case chosen of Some q \<Rightarrow> q | None \<Rightarrow> configured)"
    and "\<forall>ctx. await_job dbg timeout (handle H job ctx) = Some (OutRetryable (msg ctx))"
    and N: "N = max 1 (unat (max_attempts pol))" and "N \<le> length moments"
    and env: "env = envelope_raw fresh now t q v"
  shows "life pf handlers policies h timeout moments env
    = map (\<lambda>k. SRetry (env\<lparr>attempt := of_nat (k + 1)\<rparr>) (the (delay_for pf (backoff pol) (of_nat k)))) [1..<N]
      @ [SDeadLetter (exhausted_reason pol (env\<lparr>attempt := of_nat N\<rparr>)
          (msg (job_context_of Q J (moments ! (N - 1)) (env\<lparr>attempt := of_nat N\<rparr>) pol)))]"
proof -
  have start: "attempt_of env 1 = env" and fields: "job_type env = t" "payload env = v" "priority env = 0"
    by (simp_all add: env envelope_raw_def attempt_of_def)
  have h: "handlers (job_type env) = Some (erase sb dbg Q J H)" "policies (job_type env) = Some configured"
    "from_value J (payload env) = Inr job"
    using assms(3-5) by (simp_all add: fields)
  have "1 \<le> N" "N - 1 < length moments" using N assms(10) by auto
  from failing_life [where msg = msg and env = env and handlers = handlers and policies = policies and k = 1,
      OF assms(1,2) h assms(6) pol assms(8) fields(3) N order_refl this] show ?thesis
    unfolding start by (simp add: attempt_of_def)
qed

section \<open>Over a transport\<close>

context at_least_once
begin

text \<open>Processing an outstanding delivery changes the copies in the system by its successor alone.\<close>

lemma dispatch_settles:
  assumes settle: "\<And>st. apply_settlement D st = settle_op st"
    and "dispatch pf D handlers policies h timeout now d env p = Done p'"
  obtains st c r where "verdict_of pf handlers policies timeout now env = Verdict st c"
    "settle_op st d (bk p) = (r, bk p')" "failures p' = failures p \<longleftrightarrow> r = Inr ()"
proof -
  obtain st c where v: "verdict_of pf handlers policies timeout now env = Verdict st c"
    and b: "bk p' = snd (settle_op st d (bk p))"
    and f: "failures p' = failures p + (if is_ok (fst (settle_op st d (bk p))) then 0 else 1)"
    using dispatch_effects [where pf = pf and D = D and handlers = handlers and policies = policies
        and h = h and timeout = timeout and now = now and d = d and env = env and p = p]
      assms(2) settle by auto
  obtain r s' where r: "settle_op st d (bk p) = (r, s')" by (cases "settle_op st d (bk p)")
  from v b f r show thesis by (intro that [of st c r]) (cases r; simp)+
qed

lemma dispatch_copies:
  assumes settle: "\<And>st. apply_settlement D st = settle_op st" and out: "outstanding (bk p) d"
    and ret: "came_back (bk p')"
    and run: "dispatch pf D handlers policies h timeout now d env p = Done p'"
  shows "\<exists>st c. verdict_of pf handlers policies timeout now env = Verdict st c
    \<and> copies (bk p') x \<le> copies (bk p) x + count_list (map key (successor st)) x
    \<and> (failures p' = failures p \<longrightarrow> copies (bk p') x = copies (bk p) x + count_list (map key (successor st)) x)"
proof (rule dispatch_settles [OF settle run])
  fix st c r
  assume v: "verdict_of pf handlers policies timeout now env = Verdict st c"
    and r: "settle_op st d (bk p) = (r, bk p')" and f: "failures p' = failures p \<longleftrightarrow> r = Inr ()"
  from settle_bound [OF ret out r, of x] v f r settle_ok [OF ret out]
  show ?thesis by auto
qed

end

context transport
begin

lemma failed_dispatch_loses_its_delivery:
  assumes settle: "\<And>st. apply_settlement D st = settle_op st" and out: "outstanding (bk p) d"
    and run: "dispatch pf D handlers policies h timeout now d env p = Done p'"
    and "failures p' \<noteq> failures p"
  shows "shut (bk p) \<and> copies (bk p') x + (if x = envelope_of d then 1 else 0) = copies (bk p) x"
proof (rule dispatch_settles [OF settle run])
  fix st c r
  assume "settle_op st d (bk p) = (r, bk p')" "failures p' = failures p \<longleftrightarrow> r = Inr ()"
  with assms(4) show ?thesis
    by (cases r) (use failed_settle [OF out] in auto)
qed

end

text \<open>C15: when processing a delivery of the in-memory backend finishes and its settlement succeeded,
  exactly the successor the verdict names has been added and every other envelope, the delivered one
  included, is accounted for as before. The settlement can only fail on a backend that was already
  closed, which drops what its clients hold: then nothing was added, and the one delivery is all that
  has gone.\<close>

theorem processing_conserves_jobs:
  assumes "d \<in> set (handed (bk p))"
    and "process pf memory_delivery handlers policies h timeout now d p = Done p'"
  shows "\<exists>st c. verdict_of pf handlers policies timeout now (snd d) = Verdict st c
    \<and> (if failures p' = failures p then tally (bk p') x = tally (bk p) x + count_list (successor st) x
       else closed (sh (bk p)) \<and> tally (bk p') x + (if x = snd d then 1 else 0) = tally (bk p) x)"
proof -
  have "d_envelope memory_delivery d = snd d" by (simp add: memory_delivery_def)
  with assms(2) have "dispatch pf memory_delivery handlers policies h timeout now d (snd d) p = Done p'"
    by (simp add: process_def)
  from memory.dispatch_copies [OF refl assms(1) TrueI this, of x]
    memory.failed_dispatch_loses_its_delivery [OF refl assms(1) this, of x]
  show ?thesis by (auto split: if_splits)
qed

section \<open>User code the worker does not isolate\<close>

text \<open>a panic in the handler is caught and retried, a panic in \<open>set_retry_policy\<close> is not: the dispatch
  unwinds, the delivery is never settled and the failure is not even counted.\<close>

theorem panicking_set_retry_policy_leaves_delivery_unsettled:
  assumes "handlers (job_type env) = Some (erase sb dbg Q J H)" "from_value J (payload env) = Inr job"
    and "set_retry_policy H job = None"
  shows "dispatch pf D handlers policies h timeout now d env p = Unwound p"
  using assms by (simp add: dispatch_def erase_def run_job_def decode_def)

section \<open>Witnesses\<close>

definition example_queues :: "unit queue_set" where
  "example_queues = \<lparr>qs_all = [()], qs_name = (\<lambda>_. ''q''), qs_config = (\<lambda>_. queue_config_new ''q'')\<rparr>"

definition example_job :: "(json, unit) job" where
  "example_job = \<lparr>NAME = ''t'', QUEUE = (), job_retry_policy = None, to_value = Inr, from_value = Inr\<rparr>"

definition failing :: "json job_handler" where
  "failing = FnHandler (\<lambda>j c. Returns 0 (Inl (retryable_msg ''x'')))"

definition deferring :: "json job_handler" where
  "deferring = FnHandler (\<lambda>j c. Returns 0 (Inl (job_deferred (from_secs 30))))"

definition panicking :: "json job_handler" where
  "panicking = \<lparr>handle = (\<lambda>j c. Panics 0), set_retry_policy = (\<lambda>j. None)\<rparr>"

definition only :: "json job_handler \<Rightarrow> string \<Rightarrow> erased_handler option" where
  "only H t = (if t = ''t'' then Some (erase (\<lambda>e :: string. e) (\<lambda>d. ''d'') example_queues example_job H) else None)"

lemmas example_defs = example_queues_def example_job_def failing_def deferring_def panicking_def only_def
  FnHandler_def default_set_retry_policy_def retryable_msg_def job_deferred_def

definition one_delivery :: "mem proc" where
  "one_delivery = \<lparr>bk = sample_mem, failures = 0, hooked = []\<rparr>"

lemma outstanding_sample: "(0, sample) \<in> set (handed (bk one_delivery))"
  by (simp add: one_delivery_def sample_state)

lemma sample_fields: "job_type sample = ''t''" "payload sample = JNull" "attempt sample = 1"
  by (simp_all add: sample_def envelope_raw_def)

theorem hook_precedes_dead_lettering_witness:
  "\<exists>p' dl. dispatch example_platform memory_delivery (\<lambda>_. None) (\<lambda>_. None) (Some (\<lambda>dl. Returns 0 ()))
       None 0 (0, sample) sample one_delivery = Done p' \<and> hooked p' = [dl] \<and> dl_envelope dl = sample"
proof -
  let ?r = "dispatch example_platform memory_delivery (\<lambda>_. None) (\<lambda>_. None) (Some (\<lambda>dl. Returns 0 ()))
       None 0 (0, sample) sample one_delivery"
  have "\<exists>p'. ?r = Done p' \<and> hooked p' \<noteq> []"
    by (simp add: dispatch_def give_up_def notify_dead_def then_flow_def Let_def settle_def
        split: prod.split sum.split)
  moreover have "hooked one_delivery = []" by (simp add: one_delivery_def)
  ultimately show ?thesis
    using hook_precedes_dead_lettering [OF refl, where p = one_delivery and f = "\<lambda>dl. Returns 0 ()"
        and pf = example_platform and D = memory_delivery and handlers = "\<lambda>_. None"
        and policies = "\<lambda>_. None" and timeout = None and now = 0 and d = "(0, sample)" and env = sample]
    by auto
qed

theorem failed_attempt_retried_unless_last_witness:
  "dispatch example_platform memory_delivery (only failing) (\<lambda>_. Some (policy_fixed 3 (from_secs 5)))
     None None 0 (0, sample) sample one_delivery
   = Done (settle (d_retry memory_delivery (0, sample) (next_attempt sample) (from_secs 5)
       (bk one_delivery)) one_delivery)"
proof -
  let ?ctx = "job_context_of example_queues example_job 0 sample (policy_fixed 3 (from_secs 5))"
  have last: "\<not> is_last_attempt ?ctx"
    by (simp add: is_last_attempt_def job_context_of_def policy_fixed_def sample_fields word_le_nat_alt)
  show ?thesis
    using failed_attempt_retried_unless_last [OF example_platform_ok(1), where handlers = "only failing"
        and env = sample and J = example_job and Q = example_queues and H = failing and chosen = None
        and job = JNull and configured = "policy_fixed 3 (from_secs 5)" and now = 0
        and policies = "\<lambda>_. Some (policy_fixed 3 (from_secs 5))" and timeout = None and e = "''x''"
        and sb = "\<lambda>e. e" and dbg = "\<lambda>d. ''d''" and policy = "policy_fixed 3 (from_secs 5)"
        and ctx = ?ctx and D = memory_delivery and h = None and d = "(0, sample)" and p = one_delivery] last
    by (auto simp: sample_fields only_def example_job_def failing_def FnHandler_def await_job_def
        default_set_retry_policy_def retryable_msg_def delay_for_def policy_fixed_def)
qed

theorem deferral_keeps_the_attempt_witness:
  "\<exists>nxt. dispatch example_platform memory_delivery (only deferring) (\<lambda>_. Some policy_none)
      None None 0 (0, sample) sample one_delivery
      = Done (settle (d_defer memory_delivery (0, sample) nxt (from_secs 30) (bk one_delivery)) one_delivery)
    \<and> attempt nxt = 1 \<and> priority nxt = 10"
  using deferral_keeps_the_attempt [where handlers = "only deferring" and env = sample and J = example_job
      and Q = example_queues and H = deferring and chosen = None and job = JNull and configured = policy_none
      and now = 0 and policies = "\<lambda>_. Some policy_none" and timeout = None and dly = "from_secs 30"
      and why = "''deferred''" and sb = "\<lambda>e. e" and dbg = "\<lambda>d. ''d''" and D = memory_delivery and h = None
      and d = "(0, sample)" and p = one_delivery and pf = example_platform]
  by (auto simp: sample_fields only_def example_job_def deferring_def FnHandler_def await_job_def
      default_set_retry_policy_def job_deferred_def example_queues_def top_priority_def
      queue_config_new_def DEFAULT_MAX_PRIORITY_def)

theorem failing_job_runs_max_attempts_times_witness:
  "life example_platform (only failing) (\<lambda>_. Some (policy_fixed 3 (from_secs 5))) None None [0, 10, 20, 30]
     (envelope_raw 1 2 ''t'' ''q'' JNull)
   = [SRetry ((envelope_raw 1 2 ''t'' ''q'' JNull)\<lparr>attempt := 2\<rparr>) (from_secs 5),
      SRetry ((envelope_raw 1 2 ''t'' ''q'' JNull)\<lparr>attempt := 3\<rparr>) (from_secs 5),
      SDeadLetter ''max attempts (3) exhausted after attempt 3: x'']"
proof -
  have digit: "digit_char 3 = CHR ''3''" by code_simp
  show ?thesis
  using failing_job_runs_max_attempts_times [OF example_platform_ok(1), where handlers = "only failing"
        and t = "''t''" and v = JNull and J = example_job and Q = example_queues and H = failing and chosen = None
        and job = JNull and configured = "policy_fixed 3 (from_secs 5)" and h = None and fresh = 1 and now = 2
        and policies = "\<lambda>_. Some (policy_fixed 3 (from_secs 5))" and timeout = None and msg = "\<lambda>_. ''x''"
        and sb = "\<lambda>e. e" and dbg = "\<lambda>d. ''d''" and N = 3 and moments = "[0, 10, 20, 30]" and q = "''q''",
      OF _ _ _ _ _ refl _ _ _ refl] digit
  by (simp add: only_def example_job_def failing_def FnHandler_def await_job_def default_set_retry_policy_def
      retryable_msg_def policy_fixed_def delay_for_def upt_rec exhausted_reason_def envelope_raw_def
      show_nat.simps del: life.simps)
qed

theorem processing_conserves_jobs_witness:
  "\<exists>p'. process example_platform memory_delivery (only failing) (\<lambda>_. None) None None 0 (0, sample)
      one_delivery = Done p' \<and> (\<exists>st c.
    verdict_of example_platform (only failing) (\<lambda>_. None) None 0 sample = Verdict st c
    \<and> tally (bk p') sample = tally (bk one_delivery) sample + count_list (successor st) sample)"
proof -
  obtain p' where p': "process example_platform memory_delivery (only failing) (\<lambda>_. None) None None 0
      (0, sample) one_delivery = Done p'"
    by (simp add: process_def memory_delivery_def dispatch_def only_def sample_fields erase_def
        run_job_def decode_def example_defs await_job_def job_declared_policy_def queue_config_new_def
        default_policy_def decide_def give_up_def notify_dead_def then_flow_def)
  have "\<not> closed (sh (bk one_delivery))" by (simp add: one_delivery_def sample_state)
  with processing_conserves_jobs [OF outstanding_sample p', of sample] p' show ?thesis
    by (fastforce split: if_splits)
qed

theorem panicking_set_retry_policy_leaves_delivery_unsettled_witness:
  "dispatch example_platform memory_delivery (only panicking) (\<lambda>_. None) None None 0 (0, sample) sample
     one_delivery = Unwound one_delivery"
  by (rule panicking_set_retry_policy_leaves_delivery_unsettled [where J = example_job
        and Q = example_queues and H = panicking and job = JNull and sb = "\<lambda>e. e" and dbg = "\<lambda>d. ''d''"])
    (simp_all add: sample_fields only_def example_job_def panicking_def)

end
