(* ===== verification/Worker_Build.thy ===== *)
theory Worker_Build
  imports Worker_Properties
begin

text \<open>
  The builder of \<open>crates/core/src/worker.rs\<close>: registering handlers, overrides, the hook and the limits,
  and \<open>build\<close>, which rejects two handlers for one job type, resolves every retry policy once, selects
  and declares the queues, and fixes the concurrency. \<open>WorkerHandle\<close> is its shutdown flag and its
  counter of failed settlements.
\<close>

record 'q worker_builder =
  wb_handlers :: "(string \<times> erased_handler) list"
  queue_retry :: "string \<Rightarrow> retry_policy option"
  job_retry :: "string \<Rightarrow> retry_policy option"
  wb_hook :: "hook option"
  wb_queues :: "'q list option"
  wb_concurrency :: "nat option"
  wb_job_timeout :: "duration option"
  wb_close_backend :: bool

record worker_handle =
  shutdown_flag :: bool
  settle_failures :: u64

record worker =
  w_handlers :: "string \<Rightarrow> erased_handler option"
  w_policies :: "string \<Rightarrow> retry_policy option"
  w_hook :: "hook option"
  w_queues :: "queue_config list"
  w_concurrency :: nat
  w_job_timeout :: "duration option"
  w_close_backend :: bool
  w_handle :: worker_handle

definition builder :: "'q worker_builder" where
  "builder = \<lparr>wb_handlers = [], queue_retry = (\<lambda>_. None), job_retry = (\<lambda>_. None), wb_hook = None,
     wb_queues = None, wb_concurrency = None, wb_job_timeout = None, wb_close_backend = False\<rparr>"

definition add_handler :: "('j, 'q) job \<Rightarrow> erased_handler \<Rightarrow> 'q worker_builder \<Rightarrow> 'q worker_builder" where
  "add_handler J eh w = w\<lparr>wb_handlers := wb_handlers w @ [(NAME J, eh)]\<rparr>"

definition set_queues :: "'q list \<Rightarrow> 'q worker_builder \<Rightarrow> 'q worker_builder" where
  "set_queues qs w = w\<lparr>wb_queues := Some qs\<rparr>"

definition set_concurrency :: "nat \<Rightarrow> 'q worker_builder \<Rightarrow> 'q worker_builder" where
  "set_concurrency n w = w\<lparr>wb_concurrency := Some n\<rparr>"

definition retry_override :: "'q queue_set \<Rightarrow> 'q \<Rightarrow> retry_policy \<Rightarrow> 'q worker_builder \<Rightarrow> 'q worker_builder" where
  "retry_override Q q pol w = w\<lparr>queue_retry := (queue_retry w)(qs_name Q q \<mapsto> pol)\<rparr>"

definition job_retry_override :: "('j, 'q) job \<Rightarrow> retry_policy \<Rightarrow> 'q worker_builder \<Rightarrow> 'q worker_builder" where
  "job_retry_override J pol w = w\<lparr>job_retry := (job_retry w)(NAME J \<mapsto> pol)\<rparr>"

definition on_dead_letter :: "hook \<Rightarrow> 'q worker_builder \<Rightarrow> 'q worker_builder" where
  "on_dead_letter h w = w\<lparr>wb_hook := Some h\<rparr>"

definition set_job_timeout :: "duration \<Rightarrow> 'q worker_builder \<Rightarrow> 'q worker_builder" where
  "set_job_timeout t w = w\<lparr>wb_job_timeout := Some t\<rparr>"

definition close_backend_on_shutdown :: "bool \<Rightarrow> 'q worker_builder \<Rightarrow> 'q worker_builder" where
  "close_backend_on_shutdown b w = w\<lparr>wb_close_backend := b\<rparr>"

section \<open>The handle\<close>

definition handle_new :: worker_handle where
  "handle_new = \<lparr>shutdown_flag = False, settle_failures = 0\<rparr>"

definition shutdown :: "worker_handle \<Rightarrow> worker_handle" where
  "shutdown h = h\<lparr>shutdown_flag := True\<rparr>"

definition retry_policy_for :: "worker \<Rightarrow> string \<Rightarrow> retry_policy option" where
  "retry_policy_for w t = w_policies w t"

section \<open>Building\<close>

fun build_handlers :: "(string \<times> erased_handler) list \<Rightarrow> (string \<Rightarrow> erased_handler option)
    \<Rightarrow> 'b error + (string \<Rightarrow> erased_handler option)" where
  "build_handlers [] m = Inr m"
| "build_handlers ((n, eh) # rest) m =
     (if m n \<noteq> None then Inl (DuplicateHandler n) else build_handlers rest (m(n \<mapsto> eh)))"

text \<open>The loop that fills the policy map: one entry per handler, whatever order it visits them in.\<close>

definition resolve_policies :: "'q worker_builder \<Rightarrow> (string \<Rightarrow> erased_handler option)
    \<Rightarrow> (string \<Rightarrow> retry_policy option)" where
  "resolve_policies w handlers = (\<lambda>n. case handlers n of
       None \<Rightarrow> None
     | Some eh \<Rightarrow> Some (case job_retry w n of
           Some pol \<Rightarrow> pol
         | None \<Rightarrow> (case queue_retry w (eh_queue eh) of
               Some pol \<Rightarrow> pol | None \<Rightarrow> declared_policy eh)))"

fun select_queues :: "'q queue_set \<Rightarrow> 'q list \<Rightarrow> queue_config list \<Rightarrow> queue_config list" where
  "select_queues Q [] acc = acc"
| "select_queues Q (q # qs) acc =
     (let config = qs_config Q q
      in if \<exists>c\<in>set acc. qc_name c = qc_name config then select_queues Q qs acc
         else select_queues Q qs (acc @ [config]))"

definition default_concurrency :: "queue_config list \<Rightarrow> nat" where
  "default_concurrency cs = sum_list (map (\<lambda>c. unat (prefetch c)) cs)"

definition build :: "('s, 'b) backend_ops \<Rightarrow> 'q queue_set \<Rightarrow> 'q worker_builder \<Rightarrow> 's \<Rightarrow> ('b error + worker) \<times> 's" where
  "build P Q w s = (case build_handlers (wb_handlers w) (\<lambda>_. None) of
       Inl e \<Rightarrow> (Inl e, s)
     | Inr handlers \<Rightarrow>
         (let policies = resolve_policies w handlers;
              selected = (case wb_queues w of Some qs \<Rightarrow> qs | None \<Rightarrow> qs_all Q);
              queues = select_queues Q selected []
          in case b_declare P queues s of
               (Inl e, s) \<Rightarrow> (Inl e, s)
             | (Inr u, s) \<Rightarrow> (Inr \<lparr>w_handlers = handlers, w_policies = policies, w_hook = wb_hook w,
                 w_queues = queues,
                 w_concurrency = max (case wb_concurrency w of Some n \<Rightarrow> n | None \<Rightarrow> default_concurrency queues) 1,
                 w_job_timeout = wb_job_timeout w, w_close_backend = wb_close_backend w,
                 w_handle = handle_new\<rparr>, s)))"

section \<open>Lemmas\<close>

lemma build_handlers_ok:
  "(build_handlers xs m :: 'b error + _) = Inr r \<longleftrightarrow>
     distinct (map fst xs) \<and> fst ` set xs \<inter> dom m = {} \<and> r = m ++ map_of xs"
proof (induction xs arbitrary: m)
  case (Cons x xs)
  obtain n eh where x: "x = (n, eh)" by (cases x)
  show ?case
  proof (cases "m n = None")
    case True
    have "fst ` set xs \<inter> dom (m(n \<mapsto> eh)) = {} \<longleftrightarrow> n \<notin> fst ` set xs \<and> fst ` set xs \<inter> dom m = {}"
      by (simp add: Int_insert_right)
    moreover have "(m(n \<mapsto> eh)) ++ map_of xs = m ++ map_of ((n, eh) # xs)" if "n \<notin> fst ` set xs"
      using that by (auto simp: fun_eq_iff map_add_def map_of_eq_None_iff [THEN iffD2] split: option.split)
    moreover have "fst ` set (x # xs) \<inter> dom m = {} \<longleftrightarrow> fst ` set xs \<inter> dom m = {}"
      using True x by (auto simp: dom_def)
    moreover have "(build_handlers (x # xs) m :: 'b error + _) = build_handlers xs (m(n \<mapsto> eh))" using True by (simp add: x)
    moreover have "distinct (map fst (x # xs)) \<longleftrightarrow> n \<notin> fst ` set xs \<and> distinct (map fst xs)"
      by (simp add: x)
    ultimately show ?thesis using Cons.IH [of "m(n \<mapsto> eh)"] unfolding x by metis
  qed (auto simp: x)
qed auto

lemma build_handlers_error:
  "build_handlers xs m = Inl e \<Longrightarrow> \<exists>n. e = DuplicateHandler n \<and> n \<in> fst ` set xs"
  by (induction xs m rule: build_handlers.induct) (auto split: if_splits)

lemma select_queues_facts:
  "distinct (map qc_name acc) \<Longrightarrow> distinct (map qc_name (select_queues Q qs acc))
   \<and> set acc \<subseteq> set (select_queues Q qs acc)
   \<and> set (select_queues Q qs acc) \<subseteq> set acc \<union> qs_config Q ` set qs
   \<and> qc_name ` set (select_queues Q qs acc) = qc_name ` set acc \<union> qc_name ` qs_config Q ` set qs"
proof (induction Q qs acc rule: select_queues.induct)
  case (2 Q q qs acc)
  show ?case
  proof (cases "\<exists>c\<in>set acc. qc_name c = qc_name (qs_config Q q)")
    case True
    then have "qc_name (qs_config Q q) \<in> qc_name ` set acc" by (metis image_eqI)
    with True 2 show ?thesis by (simp add: Let_def insert_absorb) blast
  next
    case False
    then have "\<forall>c\<in>set acc. qc_name (qs_config Q q) \<noteq> qc_name c" by metis
    then have "distinct (map qc_name (acc @ [qs_config Q q]))" using 2(3) by auto
    from "2.IH"(2) [OF refl False this] False show ?thesis by (auto simp: Let_def)
  qed
qed auto

text \<open>C30: \<open>build\<close> fails with \<open>DuplicateHandler\<close>, naming a registered job type and without touching the
  backend, exactly when two handlers claim the same job type. Otherwise the worker has every handler
  under its own name, and its queues are the selected ones (every queue of the set when none were
  named): each is the configuration of a selected queue, every selected queue's name is among them,
  and no name is there twice. \<open>build\<close> declares exactly these, in one call, and fails only if that fails.\<close>

theorem build_rejects_exactly_duplicates:
  "(let selected = (case wb_queues w of Some qs \<Rightarrow> qs | None \<Rightarrow> qs_all Q) in if distinct (map fst (wb_handlers w))
    then (case build P Q w s of
        (Inl e, s') \<Rightarrow> b_declare P (select_queues Q selected []) s = (Inl e, s')
      | (Inr wk, s') \<Rightarrow> b_declare P (w_queues wk) s = (Inr (), s') \<and> w_handlers wk = map_of (wb_handlers w)
          \<and> distinct (map qc_name (w_queues wk)) \<and> set (w_queues wk) \<subseteq> qs_config Q ` set selected
          \<and> qc_name ` set (w_queues wk) = qc_name ` qs_config Q ` set selected)
    else (\<exists>n. n \<in> fst ` set (wb_handlers w) \<and> build P Q w s = (Inl (DuplicateHandler n), s)))"
proof (cases "distinct (map fst (wb_handlers w))")
  case True
  have h: "build_handlers (wb_handlers w) (\<lambda>_. None) = Inr (map_of (wb_handlers w))"
    using True by (simp add: build_handlers_ok)
  obtain r s' where r: "b_declare P (select_queues Q (case wb_queues w of Some qs \<Rightarrow> qs | None \<Rightarrow> qs_all Q) []) s = (r, s')"
    by (cases "b_declare P (select_queues Q (case wb_queues w of Some qs \<Rightarrow> qs | None \<Rightarrow> qs_all Q) []) s")
  show ?thesis using True select_queues_facts [of "[]" Q "case wb_queues w of Some qs \<Rightarrow> qs | None \<Rightarrow> qs_all Q"]
    by (cases r) (simp_all add: build_def h r Let_def)
next
  case False
  then obtain e where e: "build_handlers (wb_handlers w) (\<lambda>_. None) = (Inl e :: 'b error + _)"
    using build_handlers_ok [of "wb_handlers w" "\<lambda>_. None"]
    by (cases "build_handlers (wb_handlers w) (\<lambda>_. None) :: 'b error + _") auto
  from build_handlers_error [OF this] False e show ?thesis by (auto simp: build_def)
qed

text \<open>the policy a worker applies to a job type is the job's override, else its queue's override,
  else the declared one, and there is one for exactly the registered job types.\<close>

theorem policy_precedence:
  assumes "build P Q w s = (Inr wk, s')"
  shows "retry_policy_for wk t = (case w_handlers wk t of
      None \<Rightarrow> None
    | Some eh \<Rightarrow> Some (if job_retry w t \<noteq> None then the (job_retry w t)
        else if queue_retry w (eh_queue eh) \<noteq> None then the (queue_retry w (eh_queue eh))
        else declared_policy eh))"
  using assms by (auto simp: build_def retry_policy_for_def resolve_policies_def Let_def
      split: sum.splits prod.splits option.splits)

text \<open>the concurrency of a built worker is the one asked for, or the sum of the prefetch windows,
  and never 0; it consumes only queues that were selected, and every selected queue's name.\<close>

theorem build_queues_and_concurrency:
  assumes "build P Q w s = (Inr wk, s')"
    and "selected = (case wb_queues w of Some qs \<Rightarrow> qs | None \<Rightarrow> qs_all Q)"
  shows "0 < w_concurrency wk
    \<and> (wb_concurrency w = Some n \<longrightarrow> w_concurrency wk = max n 1)
    \<and> (wb_concurrency w = None \<longrightarrow> w_concurrency wk = max (default_concurrency (w_queues wk)) 1)
    \<and> set (w_queues wk) \<subseteq> qs_config Q ` set selected
    \<and> qc_name ` set (w_queues wk) = qc_name ` qs_config Q ` set selected"
  using assms select_queues_facts [of "[]" Q selected]
  by (auto simp: build_def Let_def split: sum.splits prod.splits)

section \<open>Witnesses\<close>

definition one_handler :: "unit worker_builder" where
  "one_handler = retry_override example_queues () (policy_fixed 4 0)
     (add_handler example_job (erase (\<lambda>e :: string. e) (\<lambda>d. ''d'') example_queues example_job failing) builder)"

definition built :: "(string error + worker) \<times> mem" where
  "built = build memory_backend example_queues one_handler mem_new"

lemma built_ok: "\<exists>wk. built = (Inr wk, snd built)"
  by (simp add: built_def build_def one_handler_def retry_override_def add_handler_def builder_def
      memory_backend_def declare_all_def declare_queues_def mem_new_def shared_new_def Let_def)

theorem policy_precedence_witness:
  "\<exists>wk. fst built = Inr wk \<and> retry_policy_for wk ''t'' = Some (policy_fixed 4 0)"
proof -
  obtain wk where wk: "built = (Inr wk, snd built)" using built_ok by blast
  then have b: "build memory_backend example_queues one_handler mem_new = (Inr wk, snd built)"
    by (simp add: built_def)
  then have "w_handlers wk ''t'' = Some (erase (\<lambda>e :: string. e) (\<lambda>d. ''d'') example_queues example_job failing)"
    by (auto simp: build_def one_handler_def retry_override_def add_handler_def builder_def
        example_job_def Let_def split: prod.splits sum.splits)
  with policy_precedence [OF b, of "''t''"] have "retry_policy_for wk ''t'' = Some (policy_fixed 4 0)"
    by (simp add: one_handler_def retry_override_def add_handler_def builder_def erase_def example_queues_def)
  with wk show ?thesis by (metis fst_conv)
qed

theorem build_queues_and_concurrency_witness:
  "\<exists>wk. fst built = Inr wk \<and> 0 < w_concurrency wk"
proof -
  obtain wk where wk: "built = (Inr wk, snd built)" using built_ok by blast
  then have b: "build memory_backend example_queues one_handler mem_new = (Inr wk, snd built)"
    by (simp add: built_def)
  from build_queues_and_concurrency [OF b refl] wk show ?thesis by (metis fst_conv)
qed

end
