(* ===== verification/Worker_Run.thy ===== *)
theory Worker_Run
  imports Worker_Build
begin

text \<open>
  \<open>Worker::run\<close> and \<open>consume_into\<close> of \<open>crates/core/src/worker.rs\<close> as a step relation: the consumer tasks
  that forward one stream each into the bounded channel, the dispatch loop with its concurrency
  permits, the draining after a shutdown, and the joins. A job is the delivery it processes (what
  processing does is \<open>Worker_Dispatch\<close>); what a stream yields and when a job finishes are choices of
  the environment. \<open>pulled\<close> and \<open>finished\<close> are histories, for the properties only.

  A task at \<open>Polling\<close> has passed its check of the stop flag and polls its stream, so a stop that
  arrives in between does not keep it from taking one more item, as in the source.
\<close>

datatype ('d, 'b) consumer_event =
    EvDelivery 'd
  | EvFailed "'b error"
  | EvEnded string

datatype ('d, 'b) task_pc =
    AtStopCheck
  | Polling
  | Sending "('d, 'b) consumer_event"
  | Stopped

datatype phase =
    Starting "queue_config list"
  | AtTop
  | HasPermit
  | Draining
  | DrainHasPermit
  | JoiningConsumers
  | JoiningJobs
  | Finished
  | SemaphorePanic

record ('d, 'b) runner =
  phase :: phase
  result :: "'b error + unit"
  shut :: bool
  stop :: bool
  tasks :: "(string \<times> ('d, 'b) task_pc) list"
  buffer :: "('d, 'b) consumer_event list"
  buffer_cap :: nat
  free :: nat
  jobs :: "'d list"
  pulled :: "'d list"
  finished :: "'d list"

definition run_init :: "worker \<Rightarrow> ('d, 'b) runner" where
  "run_init w = \<lparr>phase = Starting (w_queues w), result = Inr (), shut = shutdown_flag (w_handle w),
     stop = False, tasks = [], buffer = [], buffer_cap = max (length (w_queues w)) 1,
     free = w_concurrency w, jobs = [], pulled = [], finished = []\<rparr>"

text \<open>Leaving the dispatch loop, whatever the reason: the stop flag is set and draining begins.\<close>

definition begin_drain :: "('d, 'b) runner \<Rightarrow> ('d, 'b) runner" where
  "begin_drain r = r\<lparr>phase := Draining, stop := True\<rparr>"

definition set_err :: "'b error \<Rightarrow> ('d, 'b) runner \<Rightarrow> ('d, 'b) runner" where
  "set_err e r = (if is_ok (result r) then r\<lparr>result := Inl e\<rparr> else r)"

definition all_stopped :: "('d, 'b) runner \<Rightarrow> bool" where
  "all_stopped r \<longleftrightarrow> (\<forall>t\<in>set (tasks r). snd t = Stopped)"

definition set_task :: "nat \<Rightarrow> ('d, 'b) task_pc \<Rightarrow> ('d, 'b) runner \<Rightarrow> ('d, 'b) runner" where
  "set_task i p r = r\<lparr>tasks := (tasks r)[i := (fst (tasks r ! i), p)]\<rparr>"

text \<open>\<open>reply\<close> is the reply of closing the backend, when the worker was asked to.\<close>

inductive run_step :: "worker \<Rightarrow> ('d, 'b) runner \<Rightarrow> ('d, 'b) runner \<Rightarrow> bool" for w where
  consume_ok: "phase r = Starting (c # cs) \<Longrightarrow>
    run_step w r (r\<lparr>phase := Starting cs, tasks := tasks r @ [(qc_name c, AtStopCheck)]\<rparr>)"
| consume_err: "phase r = Starting (c # cs) \<Longrightarrow> w_concurrency w \<le> MAX_PERMITS \<Longrightarrow>
    run_step w r (begin_drain (r\<lparr>result := Inl e\<rparr>))"
| consume_err_panic: "phase r = Starting (c # cs) \<Longrightarrow> MAX_PERMITS < w_concurrency w \<Longrightarrow>
    run_step w r (r\<lparr>phase := SemaphorePanic, result := Inl e\<rparr>)"
| started: "phase r = Starting [] \<Longrightarrow> w_concurrency w \<le> MAX_PERMITS \<Longrightarrow> run_step w r (r\<lparr>phase := AtTop\<rparr>)"
| start_panic: "phase r = Starting [] \<Longrightarrow> MAX_PERMITS < w_concurrency w \<Longrightarrow>
    run_step w r (r\<lparr>phase := SemaphorePanic\<rparr>)"
| shutdown: "run_step w r (r\<lparr>shut := True\<rparr>)"
| top_shutdown: "phase r = AtTop \<Longrightarrow> shut r \<Longrightarrow> run_step w r (begin_drain r)"
| top_permit: "phase r = AtTop \<Longrightarrow> \<not> shut r \<Longrightarrow> 0 < free r \<Longrightarrow>
    run_step w r (r\<lparr>phase := HasPermit, free := free r - 1\<rparr>)"
| recv_shutdown: "phase r = HasPermit \<Longrightarrow> shut r \<Longrightarrow> run_step w r (begin_drain (r\<lparr>free := free r + 1\<rparr>))"
| recv_delivery: "phase r = HasPermit \<Longrightarrow> \<not> shut r \<Longrightarrow> buffer r = EvDelivery d # rest \<Longrightarrow>
    run_step w r (r\<lparr>phase := AtTop, buffer := rest, jobs := jobs r @ [d]\<rparr>)"
| recv_failed: "phase r = HasPermit \<Longrightarrow> \<not> shut r \<Longrightarrow> buffer r = EvFailed e # rest \<Longrightarrow>
    run_step w r (begin_drain (r\<lparr>free := free r + 1, buffer := rest, result := Inl e\<rparr>))"
| recv_ended: "phase r = HasPermit \<Longrightarrow> \<not> shut r \<Longrightarrow> buffer r = EvEnded q # rest \<Longrightarrow>
    run_step w r (begin_drain (r\<lparr>free := free r + 1, buffer := rest, result := Inl (ConsumerStopped q)\<rparr>))"
| recv_none: "phase r = HasPermit \<Longrightarrow> \<not> shut r \<Longrightarrow> buffer r = [] \<Longrightarrow> all_stopped r \<Longrightarrow>
    run_step w r (begin_drain (r\<lparr>free := free r + 1\<rparr>))"
| drain_permit: "phase r = Draining \<Longrightarrow> 0 < free r \<Longrightarrow>
    run_step w r (r\<lparr>phase := DrainHasPermit, free := free r - 1\<rparr>)"
| drain_delivery: "phase r = DrainHasPermit \<Longrightarrow> buffer r = EvDelivery d # rest \<Longrightarrow>
    run_step w r (r\<lparr>phase := Draining, buffer := rest, jobs := jobs r @ [d]\<rparr>)"
| drain_failed: "phase r = DrainHasPermit \<Longrightarrow> buffer r = EvFailed e # rest \<Longrightarrow>
    run_step w r (set_err e (r\<lparr>phase := Draining, buffer := rest, free := free r + 1\<rparr>))"
| drain_ended: "phase r = DrainHasPermit \<Longrightarrow> buffer r = EvEnded q # rest \<Longrightarrow>
    run_step w r (r\<lparr>phase := Draining, buffer := rest, free := free r + 1\<rparr>)"
| drain_none: "phase r = DrainHasPermit \<Longrightarrow> buffer r = [] \<Longrightarrow> all_stopped r \<Longrightarrow>
    run_step w r (r\<lparr>phase := JoiningConsumers, free := free r + 1\<rparr>)"
| join_consumers: "phase r = JoiningConsumers \<Longrightarrow> all_stopped r \<Longrightarrow> run_step w r (r\<lparr>phase := JoiningJobs\<rparr>)"
| join_jobs: "phase r = JoiningJobs \<Longrightarrow> jobs r = [] \<Longrightarrow>
    run_step w r (if w_close_backend w then (case (reply :: 'b error + unit) of Inl e \<Rightarrow> set_err e (r\<lparr>phase := Finished\<rparr>)
      | Inr u \<Rightarrow> r\<lparr>phase := Finished\<rparr>) else r\<lparr>phase := Finished\<rparr>)"
| job_done: "i < length (jobs r) \<Longrightarrow>
    run_step w r (r\<lparr>jobs := remove_nth i (jobs r), finished := finished r @ [jobs r ! i], free := free r + 1\<rparr>)"
| task_stop: "i < length (tasks r) \<Longrightarrow> snd (tasks r ! i) = AtStopCheck \<Longrightarrow> stop r \<Longrightarrow>
    run_step w r (set_task i Stopped r)"
| task_go: "i < length (tasks r) \<Longrightarrow> snd (tasks r ! i) = AtStopCheck \<Longrightarrow> \<not> stop r \<Longrightarrow>
    run_step w r (set_task i Polling r)"
| task_pending: "i < length (tasks r) \<Longrightarrow> snd (tasks r ! i) = Polling \<Longrightarrow>
    run_step w r (set_task i AtStopCheck r)"
| task_pull: "i < length (tasks r) \<Longrightarrow> snd (tasks r ! i) = Polling \<Longrightarrow>
    run_step w r ((set_task i (Sending (EvDelivery d)) r)\<lparr>pulled := pulled r @ [d]\<rparr>)"
| task_error: "i < length (tasks r) \<Longrightarrow> snd (tasks r ! i) = Polling \<Longrightarrow>
    run_step w r (set_task i (Sending (EvFailed e)) r)"
| task_end: "i < length (tasks r) \<Longrightarrow> snd (tasks r ! i) = Polling \<Longrightarrow>
    run_step w r (set_task i (Sending (EvEnded (fst (tasks r ! i)))) r)"
| task_send: "i < length (tasks r) \<Longrightarrow> snd (tasks r ! i) = Sending ev \<Longrightarrow>
    length (buffer r) < buffer_cap r \<Longrightarrow>
    run_step w r ((set_task i (case ev of EvEnded q \<Rightarrow> Stopped | _ \<Rightarrow> AtStopCheck) r)
      \<lparr>buffer := buffer r @ [ev]\<rparr>)"

inductive run_reach :: "worker \<Rightarrow> ('d, 'b) runner \<Rightarrow> bool" for w where
  init: "run_reach w (run_init w)"
| step: "run_reach w r \<Longrightarrow> run_step w r r' \<Longrightarrow> run_reach w r'"

inductive_cases run_stepE: "run_step w r r'"

section \<open>Where a pulled delivery is\<close>

fun ev_deliveries :: "('d, 'b) consumer_event \<Rightarrow> 'd list" where
  "ev_deliveries (EvDelivery d) = [d]"
| "ev_deliveries _ = []"

fun pc_deliveries :: "('d, 'b) task_pc \<Rightarrow> 'd list" where
  "pc_deliveries (Sending ev) = ev_deliveries ev"
| "pc_deliveries _ = []"

definition in_tasks :: "('d, 'b) runner \<Rightarrow> 'd multiset" where
  "in_tasks r = (\<Sum>t\<leftarrow>tasks r. mset (pc_deliveries (snd t)))"

definition in_buffer :: "('d, 'b) runner \<Rightarrow> 'd multiset" where
  "in_buffer r = mset (concat (map ev_deliveries (buffer r)))"

definition accounted :: "('d, 'b) runner \<Rightarrow> bool" where
  "accounted r \<longleftrightarrow> mset (pulled r) = in_tasks r + in_buffer r + mset (jobs r) + mset (finished r)"

fun holds_permit :: "phase \<Rightarrow> nat" where
  "holds_permit HasPermit = 1"
| "holds_permit DrainHasPermit = 1"
| "holds_permit _ = 0"

definition run_inv :: "worker \<Rightarrow> ('d, 'b) runner \<Rightarrow> bool" where
  "run_inv w r \<longleftrightarrow> accounted r \<and> free r + length (jobs r) + holds_permit (phase r) = w_concurrency w
     \<and> (phase r \<in> {JoiningConsumers, JoiningJobs, Finished} \<longrightarrow> all_stopped r \<and> buffer r = [])
     \<and> (phase r = Finished \<longrightarrow> jobs r = [])
     \<and> (phase r \<in> {Draining, DrainHasPermit, JoiningConsumers, JoiningJobs, Finished} \<longrightarrow> stop r)
     \<and> length (buffer r) \<le> buffer_cap r \<and> 0 < buffer_cap r"

lemma sum_list_map_update_mset:
  "i < length xs \<Longrightarrow> sum_list (map f (xs[i := x])) + f (xs ! i) = sum_list (map f xs) + (f x :: 'a multiset)"
proof (induction xs arbitrary: i)
  case (Cons y ys)
  show ?case
  proof (cases i)
    case (Suc k)
    with Cons.prems have k: "k < length ys" by simp
    with Suc Cons.IH [OF k] show ?thesis by (simp add: add.assoc)
  qed (simp add: ac_simps)
qed simp

lemma in_tasks_set_task:
  "i < length (tasks r) \<Longrightarrow>
     in_tasks (set_task i p r) + mset (pc_deliveries (snd (tasks r ! i))) = in_tasks r + mset (pc_deliveries p)"
  using sum_list_map_update_mset [of i "tasks r" "\<lambda>t. mset (pc_deliveries (snd t))" "(fst (tasks r ! i), p)"]
  by (simp add: in_tasks_def set_task_def)

lemma set_task_frame [simp]:
  "phase (set_task i p r) = phase r" "result (set_task i p r) = result r" "shut (set_task i p r) = shut r"
  "stop (set_task i p r) = stop r" "buffer (set_task i p r) = buffer r"
  "buffer_cap (set_task i p r) = buffer_cap r" "free (set_task i p r) = free r"
  "jobs (set_task i p r) = jobs r" "pulled (set_task i p r) = pulled r"
  "finished (set_task i p r) = finished r" "length (tasks (set_task i p r)) = length (tasks r)"
  by (simp_all add: set_task_def)

lemma set_err_frame [simp]:
  "phase (set_err e r) = phase r" "stop (set_err e r) = stop r" "tasks (set_err e r) = tasks r"
  "buffer (set_err e r) = buffer r" "buffer_cap (set_err e r) = buffer_cap r" "free (set_err e r) = free r"
  "jobs (set_err e r) = jobs r" "pulled (set_err e r) = pulled r" "finished (set_err e r) = finished r"
  by (simp_all add: set_err_def)

lemma begin_drain_frame [simp]:
  "phase (begin_drain r) = Draining" "stop (begin_drain r)" "tasks (begin_drain r) = tasks r"
  "buffer (begin_drain r) = buffer r" "buffer_cap (begin_drain r) = buffer_cap r"
  "free (begin_drain r) = free r" "jobs (begin_drain r) = jobs r" "pulled (begin_drain r) = pulled r"
  "finished (begin_drain r) = finished r"
  by (simp_all add: begin_drain_def)

lemma in_tasks_frame: "tasks r' = tasks r \<Longrightarrow> in_tasks r' = in_tasks r"
  by (simp add: in_tasks_def)

lemma accounted_frame:
  assumes "accounted r" "tasks r' = tasks r" "pulled r' = pulled r"
    "in_buffer r' + mset (jobs r') + mset (finished r') = in_buffer r + mset (jobs r) + mset (finished r)"
  shows "accounted r'"
proof -
  have "in_tasks r' = in_tasks r" by (rule in_tasks_frame [OF assms(2)])
  then have "in_tasks r' + in_buffer r' + mset (jobs r') + mset (finished r')
      = in_tasks r + in_buffer r + mset (jobs r) + mset (finished r)"
    using assms(4) by (metis add.assoc)
  with assms(1,3) show ?thesis by (simp add: accounted_def)
qed

lemma mset_remove_nth_add: "i < length xs \<Longrightarrow> add_mset (xs ! i) (mset (remove_nth i xs)) = mset xs"
  by (metis mset_remove_nth remove_nth_def)

lemma accounted_step:
  assumes "run_step w r r'" "accounted r"
  shows "accounted r'"
  using assms
proof (induction rule: run_step.induct)
  case (job_done i r)
  from mset_remove_nth_add [OF job_done(1)] show ?case
    by (intro accounted_frame [OF job_done(2)])
      (auto simp: in_buffer_def ac_simps)
next
  case (consume_ok r c cs)
  then show ?case by (simp add: accounted_def in_tasks_def in_buffer_def)
next
  case (join_jobs r reply)
  then show ?case
    by (auto simp: in_buffer_def split: sum.split elim!: accounted_frame)
next
  case (task_stop i r)
  with in_tasks_set_task [of i r Stopped] show ?case by (simp add: accounted_def in_buffer_def)
next
  case (task_go i r)
  with in_tasks_set_task [of i r Polling] show ?case by (simp add: accounted_def in_buffer_def)
next
  case (task_pending i r)
  with in_tasks_set_task [of i r AtStopCheck] show ?case by (simp add: accounted_def in_buffer_def)
next
  case (task_pull i r d)
  with in_tasks_set_task [of i r "Sending (EvDelivery d)"] show ?case
    by (simp add: accounted_def in_buffer_def in_tasks_def)
next
  case (task_error i r e)
  with in_tasks_set_task [of i r "Sending (EvFailed e)"] show ?case by (simp add: accounted_def in_buffer_def)
next
  case (task_end i r)
  with in_tasks_set_task [of i r "Sending (EvEnded (fst (tasks r ! i)))"] show ?case
    by (simp add: accounted_def in_buffer_def)
next
  case (task_send i r ev)
  with in_tasks_set_task [of i r "case ev of EvEnded q \<Rightarrow> Stopped | _ \<Rightarrow> AtStopCheck"] show ?case
    by (cases ev) (simp_all add: accounted_def in_buffer_def in_tasks_def)
qed (auto simp: in_buffer_def elim!: accounted_frame)

lemma all_stopped_set_task:
  "all_stopped r \<Longrightarrow> i < length (tasks r) \<Longrightarrow> snd (tasks r ! i) = Stopped"
  by (auto simp: all_stopped_def)

lemma run_inv_step:
  assumes "run_step w r r'" "run_inv w r"
  shows "run_inv w r'"
proof -
  have "accounted r" using assms(2) by (simp add: run_inv_def)
  from accounted_step [OF assms(1) this] have a: "accounted r'" .
  show ?thesis using assms a
  proof (induction rule: run_step.induct)
    case (join_jobs r reply)
    then show ?case by (auto simp: run_inv_def all_stopped_def split: sum.split)
  next
    case (job_done i r)
    then show ?case by (auto simp: run_inv_def remove_nth_def all_stopped_def)
  next
    case (task_stop i r)
    then show ?case using all_stopped_set_task [of r i] by (auto simp: run_inv_def)
  next
    case (task_go i r)
    then show ?case using all_stopped_set_task [of r i] by (auto simp: run_inv_def)
  next
    case (task_pending i r)
    then show ?case using all_stopped_set_task [of r i] by (auto simp: run_inv_def)
  next
    case (task_pull i r d)
    then show ?case using all_stopped_set_task [of r i] by (auto simp: run_inv_def)
  next
    case (task_error i r e)
    then show ?case using all_stopped_set_task [of r i] by (auto simp: run_inv_def)
  next
    case (task_end i r)
    then show ?case using all_stopped_set_task [of r i] by (auto simp: run_inv_def)
  next
    case (task_send i r ev)
    then show ?case using all_stopped_set_task [of r i] by (auto simp: run_inv_def)
  qed (simp_all add: run_inv_def all_stopped_def)
qed

lemma run_inv_reach: "run_reach w r \<Longrightarrow> 0 < w_concurrency w \<Longrightarrow> run_inv w r"
proof (induction rule: run_reach.induct)
  case init
  then show ?case
    by (simp add: run_inv_def run_init_def accounted_def in_tasks_def in_buffer_def)
qed (auto intro: run_inv_step)

section \<open>Draining ends\<close>

definition draining :: "phase \<Rightarrow> bool" where
  "draining p \<longleftrightarrow> p \<in> {Draining, DrainHasPermit, JoiningConsumers, JoiningJobs, Finished}"

fun phase_rank :: "phase \<Rightarrow> nat" where
  "phase_rank Draining = 4"
| "phase_rank DrainHasPermit = 3"
| "phase_rank JoiningConsumers = 2"
| "phase_rank JoiningJobs = 1"
| "phase_rank _ = 0"

fun task_weight :: "('d, 'b) task_pc \<Rightarrow> nat" where
  "task_weight AtStopCheck = 1"
| "task_weight Polling = 7"
| "task_weight (Sending (EvEnded q)) = 5"
| "task_weight (Sending ev) = 6"
| "task_weight Stopped = 0"

definition drain_measure :: "('d, 'b) runner \<Rightarrow> nat" where
  "drain_measure r = phase_rank (phase r) + 4 * length (buffer r) + length (jobs r)
     + sum_list (map (\<lambda>t. task_weight (snd t)) (tasks r))"

lemma weight_set_task:
  "i < length (tasks r) \<Longrightarrow>
     sum_list (map (\<lambda>t. task_weight (snd t)) (tasks (set_task i p r))) + task_weight (snd (tasks r ! i))
       = sum_list (map (\<lambda>t. task_weight (snd t)) (tasks r)) + task_weight p"
  using sum_list_map_update [of i "tasks r" "\<lambda>t. task_weight (snd t)" "(fst (tasks r ! i), p)"]
  by (simp add: set_task_def)

lemma drain_step:
  assumes "run_step w r r'" "draining (phase r)" "stop r"
  shows "r' = r\<lparr>shut := True\<rparr> \<or> drain_measure r' < drain_measure r"
  using assms
proof (induction rule: run_step.induct)
  case (join_jobs r reply)
  then show ?case by (auto simp: drain_measure_def split: sum.split)
next
  case (job_done i r)
  then have "0 < length (jobs r)" by linarith
  with job_done(1) show ?case by (simp add: drain_measure_def remove_nth_def)
next
  case (task_stop i r)
  with weight_set_task [of i r Stopped] show ?case by (simp add: drain_measure_def)
next
  case (task_pending i r)
  with weight_set_task [of i r AtStopCheck] show ?case by (simp add: drain_measure_def)
next
  case (task_pull i r d)
  with weight_set_task [of i r "Sending (EvDelivery d)"] show ?case by (simp add: drain_measure_def)
next
  case (task_error i r e)
  with weight_set_task [of i r "Sending (EvFailed e)"] show ?case by (simp add: drain_measure_def)
next
  case (task_end i r)
  with weight_set_task [of i r "Sending (EvEnded (fst (tasks r ! i)))"] show ?case
    by (simp add: drain_measure_def)
next
  case (task_send i r ev)
  with weight_set_task [of i r "case ev of EvEnded q \<Rightarrow> Stopped | _ \<Rightarrow> AtStopCheck"] show ?case
    by (cases ev) (simp_all add: drain_measure_def)
qed (auto simp: draining_def drain_measure_def)

text \<open>Some step is always possible: a task can go on, the buffer can be emptied, or a running job end.\<close>

definition can_shrink :: "worker \<Rightarrow> ('d, 'b) runner \<Rightarrow> bool" where
  "can_shrink w r \<longleftrightarrow> (\<exists>r'. run_step w r r' \<and> drain_measure r' < drain_measure r)"

lemma can_shrinkI: "run_step w r r' \<Longrightarrow> drain_measure r' < drain_measure r \<Longrightarrow> can_shrink w r"
  by (auto simp: can_shrink_def)

lemma shrink_job: "jobs r \<noteq> [] \<Longrightarrow> can_shrink w r"
  by (rule can_shrinkI [OF run_step.job_done [of 0 r w]]) (auto simp: drain_measure_def remove_nth_def)

lemma shrink_main:
  assumes inv: "run_inv w r" and c: "0 < w_concurrency w" and p: "draining (phase r)" "phase r \<noteq> Finished"
    and b: "buffer r \<noteq> [] \<or> all_stopped r"
  shows "can_shrink w r"
proof (cases "phase r")
  case Draining
  show ?thesis
  proof (cases "0 < free r")
    case True
    show ?thesis by (rule can_shrinkI [OF run_step.drain_permit [OF Draining True]])
      (simp add: drain_measure_def Draining)
  next
    case False
    with inv c Draining have "jobs r \<noteq> []" by (auto simp: run_inv_def)
    then show ?thesis by (rule shrink_job)
  qed
next
  case DrainHasPermit
  show ?thesis
  proof (cases "buffer r")
    case Nil
    with b have "all_stopped r" by simp
    from run_step.drain_none [OF DrainHasPermit Nil this] show ?thesis
      by (rule can_shrinkI) (simp add: drain_measure_def DrainHasPermit)
  next
    case (Cons ev rest)
    show ?thesis
    proof (cases ev)
      case (EvDelivery d)
      show ?thesis by (rule can_shrinkI [OF run_step.drain_delivery [OF DrainHasPermit Cons [unfolded EvDelivery]]])
        (simp add: drain_measure_def DrainHasPermit Cons)
    next
      case (EvFailed e)
      show ?thesis by (rule can_shrinkI [OF run_step.drain_failed [OF DrainHasPermit Cons [unfolded EvFailed]]])
        (simp add: drain_measure_def DrainHasPermit Cons)
    next
      case (EvEnded q)
      show ?thesis by (rule can_shrinkI [OF run_step.drain_ended [OF DrainHasPermit Cons [unfolded EvEnded]]])
        (simp add: drain_measure_def DrainHasPermit Cons)
    qed
  qed
next
  case JoiningConsumers
  with inv have "all_stopped r" by (simp add: run_inv_def)
  from run_step.join_consumers [OF JoiningConsumers this] show ?thesis
    by (rule can_shrinkI) (simp add: drain_measure_def JoiningConsumers)
next
  case JoiningJobs
  show ?thesis
  proof (cases "jobs r = []")
    case True
    from run_step.join_jobs [OF JoiningJobs True, of w "Inr ()"] show ?thesis
      by (rule can_shrinkI) (simp add: drain_measure_def JoiningJobs)
  qed (rule shrink_job)
qed (use p in \<open>auto simp: draining_def\<close>)

lemma drain_enabled:
  assumes inv: "run_inv w r" and c: "0 < w_concurrency w" and p: "draining (phase r)" "phase r \<noteq> Finished"
  shows "can_shrink w r"
proof (cases "all_stopped r")
  case True
  with shrink_main [OF assms] show ?thesis by blast
next
  case False
  then obtain i where i: "i < length (tasks r)" "snd (tasks r ! i) \<noteq> Stopped"
    by (auto simp: all_stopped_def in_set_conv_nth)
  have stop: "stop r" using inv p(1) by (auto simp: run_inv_def draining_def)
  show ?thesis
  proof (cases "snd (tasks r ! i)")
    case AtStopCheck
    from run_step.task_stop [OF i(1) AtStopCheck stop] show ?thesis
      by (rule can_shrinkI) (use weight_set_task [OF i(1), of Stopped] AtStopCheck in \<open>simp add: drain_measure_def\<close>)
  next
    case Polling
    from run_step.task_pending [OF i(1) Polling] show ?thesis
      by (rule can_shrinkI) (use weight_set_task [OF i(1), of AtStopCheck] Polling in \<open>simp add: drain_measure_def\<close>)
  next
    case (Sending ev)
    show ?thesis
    proof (cases "length (buffer r) < buffer_cap r")
      case True
      from run_step.task_send [OF i(1) Sending True] show ?thesis
        by (rule can_shrinkI) (use weight_set_task [OF i(1), of "case ev of EvEnded q \<Rightarrow> Stopped | _ \<Rightarrow> AtStopCheck"]
            Sending in \<open>cases ev; simp add: drain_measure_def\<close>)
    next
      case False
      have "0 < buffer_cap r" using inv by (simp add: run_inv_def)
      with False have "buffer r \<noteq> []" by auto
      with shrink_main [OF assms] show ?thesis by blast
    qed
  qed (use i in simp)
qed

section \<open>Properties\<close>

lemma stopped_hold_nothing: "all_stopped r \<Longrightarrow> in_tasks r = {#}"
proof -
  have "\<forall>t\<in>set ts. snd t = Stopped \<Longrightarrow> (\<Sum>t\<leftarrow>ts. mset (pc_deliveries (snd t))) = {#}"
    for ts :: "(string \<times> ('a, 'b) task_pc) list"
    by (induction ts) auto
  then show "all_stopped r \<Longrightarrow> in_tasks r = {#}" by (simp add: in_tasks_def all_stopped_def)
qed

text \<open>a run that has finished has processed every delivery it ever pulled from the broker to the end,
  each exactly once: a graceful shutdown drops nothing and repeats nothing.\<close>

theorem shutdown_processes_everything_pulled:
  assumes "run_reach w r" "0 < w_concurrency w" "phase r = Finished"
  shows "mset (finished r) = mset (pulled r)"
proof -
  have inv: "run_inv w r" by (rule run_inv_reach [OF assms(1,2)])
  with assms(3) have "all_stopped r" "buffer r = []" "jobs r = []" by (auto simp: run_inv_def)
  then have "in_tasks r = {#}" "in_buffer r = {#}" by (simp_all add: stopped_hold_nothing in_buffer_def)
  with inv \<open>jobs r = []\<close> show ?thesis by (simp add: run_inv_def accounted_def)
qed

text \<open>C16: at every moment, whatever the streams yield and whenever jobs finish, at most \<open>concurrency\<close> jobs run,
  and every delivery pulled so far is in a consumer task, in the channel, running or finished.\<close>

theorem concurrency_and_accounting:
  assumes "run_reach w r" "0 < w_concurrency w"
  shows "length (jobs r) \<le> w_concurrency w
    \<and> mset (pulled r) = in_tasks r + in_buffer r + mset (jobs r) + mset (finished r)"
  using run_inv_reach [OF assms] by (auto simp: run_inv_def accounted_def)

text \<open>C18: once the worker drains it ends: every step but a repeated shutdown request brings it strictly
  closer to the end, consumer tasks blocked on the full channel included, and until it has finished
  such a step exists (of the worker itself or the end of a running job).\<close>

theorem draining_terminates:
  assumes "run_reach w r" "0 < w_concurrency w" "draining (phase r)"
  shows "(run_step w r r' \<longrightarrow> r' = r\<lparr>shut := True\<rparr> \<or> drain_measure r' < drain_measure r)
    \<and> (phase r \<noteq> Finished \<longrightarrow> can_shrink w r)"
proof -
  have inv: "run_inv w r" by (rule run_inv_reach [OF assms(1,2)])
  then have "stop r" using assms(3) by (auto simp: run_inv_def draining_def)
  with drain_step [OF _ assms(3)] drain_enabled [OF inv assms(2,3)] show ?thesis by blast
qed

text \<open>a worker asked for more concurrency than a semaphore can have never gets past starting its
  consumers and never dispatches a job: creating the semaphore panics.\<close>

theorem excessive_concurrency_never_dispatches:
  assumes "run_reach w r" "MAX_PERMITS < w_concurrency w"
  shows "(case phase r of Starting cs \<Rightarrow> True | SemaphorePanic \<Rightarrow> True | _ \<Rightarrow> False) \<and> jobs r = []"
  using assms
proof (induction rule: run_reach.induct)
  case init
  then show ?case by (simp add: run_init_def)
next
  case (step r r')
  from step(2,1,3,4) show ?case
    by (induction rule: run_step.induct) simp_all
qed

section \<open>A run, for the witnesses\<close>

definition tiny_worker :: worker where
  "tiny_worker = \<lparr>w_handlers = (\<lambda>_. None), w_policies = (\<lambda>_. None), w_hook = None,
     w_queues = [queue_config_new ''q''], w_concurrency = 1, w_job_timeout = None,
     w_close_backend = False, w_handle = handle_new\<rparr>"

text \<open>One delivery is pulled and dispatched, the worker is shut down, drains and finishes.\<close>

definition tiny_state :: "phase \<Rightarrow> bool \<Rightarrow> bool \<Rightarrow> (nat, string) task_pc \<Rightarrow> (nat, string) consumer_event list
    \<Rightarrow> nat \<Rightarrow> nat list \<Rightarrow> nat list \<Rightarrow> nat list \<Rightarrow> (nat, string) runner" where
  "tiny_state ph asked st t b f js pl fin = \<lparr>phase = ph, result = Inr (), shut = asked, stop = st,
     tasks = [(''q'', t)], buffer = b, buffer_cap = 1, free = f, jobs = js, pulled = pl, finished = fin\<rparr>"

lemma tiny_running: "run_reach tiny_worker (tiny_state AtTop False False AtStopCheck [] 0 [5] [5] [])"
proof -
  note st = run_reach.step [where w = tiny_worker]
  note d = tiny_state_def set_task_def tiny_worker_def
  have "run_reach tiny_worker (tiny_state (Starting []) False False AtStopCheck [] 1 [] [] [])"
    by (rule st [OF run_reach.init]) (use run_step.consume_ok [of "run_init tiny_worker :: (nat, string) runner"
        "queue_config_new ''q''" "[]" tiny_worker] in \<open>simp add: d run_init_def handle_new_def queue_config_new_def\<close>)
  then have "run_reach tiny_worker (tiny_state AtTop False False AtStopCheck [] 1 [] [] [])"
    by (rule st) (use run_step.started [of "tiny_state (Starting []) False False AtStopCheck [] 1 [] [] []"
        tiny_worker] in \<open>simp add: d MAX_PERMITS_def\<close>)
  then have "run_reach tiny_worker (tiny_state AtTop False False Polling [] 1 [] [] [])"
    by (rule st) (use run_step.task_go [of 0 "tiny_state AtTop False False AtStopCheck [] 1 [] [] []"
        tiny_worker] in \<open>simp add: d\<close>)
  then have "run_reach tiny_worker (tiny_state AtTop False False (Sending (EvDelivery 5)) [] 1 [] [5] [])"
    by (rule st) (use run_step.task_pull [of 0 "tiny_state AtTop False False Polling [] 1 [] [] []"
        tiny_worker 5] in \<open>simp add: d\<close>)
  then have "run_reach tiny_worker (tiny_state AtTop False False AtStopCheck [EvDelivery 5] 1 [] [5] [])"
    by (rule st) (use run_step.task_send [of 0 "tiny_state AtTop False False (Sending (EvDelivery 5)) [] 1 [] [5] []"
        "EvDelivery 5" tiny_worker] in \<open>simp add: d\<close>)
  then have "run_reach tiny_worker (tiny_state HasPermit False False AtStopCheck [EvDelivery 5] 0 [] [5] [])"
    by (rule st) (use run_step.top_permit [of "tiny_state AtTop False False AtStopCheck [EvDelivery 5] 1 [] [5] []"
        tiny_worker] in \<open>simp add: d\<close>)
  then show ?thesis
    by (rule st) (use run_step.recv_delivery [of "tiny_state HasPermit False False AtStopCheck [EvDelivery 5] 0 [] [5] []"
        5 "[]" tiny_worker] in \<open>simp add: d\<close>)
qed

lemma tiny_draining: "run_reach tiny_worker (tiny_state Draining True True AtStopCheck [] 0 [5] [5] [])"
proof -
  note st = run_reach.step [where w = tiny_worker]
  note d = tiny_state_def set_task_def begin_drain_def
  have "run_reach tiny_worker (tiny_state AtTop True False AtStopCheck [] 0 [5] [5] [])"
    by (rule st [OF tiny_running]) (use run_step.shutdown [of tiny_worker
        "tiny_state AtTop False False AtStopCheck [] 0 [5] [5] []"] in \<open>simp add: d\<close>)
  then show ?thesis
    by (rule st) (use run_step.top_shutdown [of "tiny_state AtTop True False AtStopCheck [] 0 [5] [5] []"
        tiny_worker] in \<open>simp add: d\<close>)
qed

lemma tiny_finished: "run_reach tiny_worker (tiny_state Finished True True Stopped [] 1 [] [5] [5])"
proof -
  note st = run_reach.step [where w = tiny_worker]
  note d = tiny_state_def set_task_def tiny_worker_def all_stopped_def
  have "run_reach tiny_worker (tiny_state Draining True True Stopped [] 0 [5] [5] [])"
    by (rule st [OF tiny_draining]) (use run_step.task_stop [of 0
        "tiny_state Draining True True AtStopCheck [] 0 [5] [5] []" tiny_worker] in \<open>simp add: d\<close>)
  then have "run_reach tiny_worker (tiny_state Draining True True Stopped [] 1 [] [5] [5])"
    by (rule st) (use run_step.job_done [of 0 "tiny_state Draining True True Stopped [] 0 [5] [5] []"
        tiny_worker] in \<open>simp add: d remove_nth_def\<close>)
  then have "run_reach tiny_worker (tiny_state DrainHasPermit True True Stopped [] 0 [] [5] [5])"
    by (rule st) (use run_step.drain_permit [of "tiny_state Draining True True Stopped [] 1 [] [5] [5]"
        tiny_worker] in \<open>simp add: d\<close>)
  then have "run_reach tiny_worker (tiny_state JoiningConsumers True True Stopped [] 1 [] [5] [5])"
    by (rule st) (use run_step.drain_none [of "tiny_state DrainHasPermit True True Stopped [] 0 [] [5] [5]"
        tiny_worker] in \<open>simp add: d\<close>)
  then have "run_reach tiny_worker (tiny_state JoiningJobs True True Stopped [] 1 [] [5] [5])"
    by (rule st) (use run_step.join_consumers [of "tiny_state JoiningConsumers True True Stopped [] 1 [] [5] [5]"
        tiny_worker] in \<open>simp add: d\<close>)
  then show ?thesis
    by (rule st) (use run_step.join_jobs [of "tiny_state JoiningJobs True True Stopped [] 1 [] [5] [5]"
        tiny_worker] in \<open>simp add: d\<close>)
qed

theorem shutdown_processes_everything_pulled_witness:
  "mset (finished (tiny_state Finished True True Stopped [] 1 [] [5] [5])) = {#5#}"
  using shutdown_processes_everything_pulled [OF tiny_finished] by (simp add: tiny_state_def tiny_worker_def)

theorem concurrency_and_accounting_witness:
  "length (jobs (tiny_state AtTop False False AtStopCheck [] 0 [5] [5] [])) \<le> 1"
  using concurrency_and_accounting [OF tiny_running] by (simp add: tiny_worker_def)

theorem draining_terminates_witness:
  "can_shrink tiny_worker (tiny_state Draining True True AtStopCheck [] 0 [5] [5] [])"
  using draining_terminates [OF tiny_draining] by (simp add: tiny_worker_def tiny_state_def draining_def)

theorem excessive_concurrency_never_dispatches_witness:
  "phase (run_init (tiny_worker\<lparr>w_concurrency := 2 ^ 62\<rparr>) :: (nat, string) runner) \<noteq> AtTop"
proof -
  let ?w = "tiny_worker\<lparr>w_concurrency := 2 ^ 62\<rparr>"
  have "run_reach ?w (run_init ?w :: (nat, string) runner)" by (rule run_reach.init)
  from excessive_concurrency_never_dispatches [OF this] show ?thesis by (auto simp: MAX_PERMITS_def)
qed

end
