(* ===== verification/Worker_System.thy ===== *)
theory Worker_System
  imports Worker_Run Worker_Properties
begin

text \<open>
  A worker over the in-memory backend: \<open>Worker::run\<close> (\<open>Worker_Run\<close>) whose choices of the environment are
  the events of the backend's machine (\<open>Memory_Steps\<close>) and whose jobs are processed by \<open>process\<close>
  (\<open>Worker_Dispatch\<close>). Starting a consumer is \<open>Consume\<close>, polling a stream \<open>Receive\<close>, a consumer task that
  returns drops its stream, a job that ends has settled its delivery, a job that unwinds has dropped it.
  Everything else that uses the backend, and the backend's own tasks, interleave as \<open>other\<close> events.

  A job touches the backend with one call, its settlement, so it is one step here, at that call.
\<close>

section \<open>The composed system\<close>

record system =
  sy_run :: "(nat \<times> envelope, string) runner"
  sy_proc :: "mem proc"
  sy_streams :: "nat list"
  sy_log :: "event list"

definition backend_of :: "system \<Rightarrow> mem" where
  "backend_of s = bk (sy_proc s)"

text \<open>An event of the backend has happened; \<open>sy_log\<close> is a history, for the properties only.\<close>

definition happened :: "event \<Rightarrow> mem \<Rightarrow> system \<Rightarrow> system" where
  "happened ev m s = s\<lparr>sy_proc := (sy_proc s)\<lparr>bk := m\<rparr>, sy_log := sy_log s @ [ev]\<rparr>"

definition occurs :: "mem \<Rightarrow> event \<Rightarrow> mem \<Rightarrow> bool" where
  "occurs m ev m' \<longleftrightarrow> (\<exists>r :: string error + unit. exec m ev = Some (r, m'))"

text \<open>Others hold neither the worker's streams nor the deliveries it took from them.\<close>

fun foreign :: "nat list \<Rightarrow> mem \<Rightarrow> event \<Rightarrow> bool" where
  "foreign ks m (Receive i) \<longleftrightarrow> i \<notin> set ks"
| "foreign ks m (DropStream i) \<longleftrightarrow> i \<notin> set ks"
| "foreign ks m (Ack j) \<longleftrightarrow> fst (handed m ! j) \<notin> set ks"
| "foreign ks m (DeadLetter j r) \<longleftrightarrow> fst (handed m ! j) \<notin> set ks"
| "foreign ks m (RetryD j e d) \<longleftrightarrow> fst (handed m ! j) \<notin> set ks"
| "foreign ks m (DeferD j e d) \<longleftrightarrow> fst (handed m ! j) \<notin> set ks"
| "foreign ks m (DropDelivery j) \<longleftrightarrow> fst (handed m ! j) \<notin> set ks"
| "foreign ks m ev \<longleftrightarrow> True"

text \<open>The event a settlement is.\<close>

fun settle_event :: "nat \<Rightarrow> settlement \<Rightarrow> event" where
  "settle_event j SAck = Ack j"
| "settle_event j (SDeadLetter r) = DeadLetter j r"
| "settle_event j (SRetry e t) = RetryD j e t"
| "settle_event j (SDefer e t) = DeferD j e t"

text \<open>Steps of the worker that involve neither the backend nor a job.\<close>

definition internal :: "('d, 'b) runner \<Rightarrow> ('d, 'b) runner \<Rightarrow> bool" where
  "internal r r' \<longleftrightarrow> pulled r' = pulled r \<and> finished r' = finished r \<and> phase r' \<noteq> Finished
     \<and> map (\<lambda>t. snd t = Stopped) (tasks r') = map (\<lambda>t. snd t = Stopped) (tasks r)"

definition ends_task :: "nat \<Rightarrow> (nat \<times> envelope, string) runner \<Rightarrow> (nat \<times> envelope, string) runner \<Rightarrow> bool" where
  "ends_task i r r' \<longleftrightarrow> i < length (tasks r) \<and> snd (tasks r ! i) \<noteq> Stopped \<and> snd (tasks r' ! i) = Stopped"

definition ends_job :: "nat \<Rightarrow> (nat \<times> envelope, string) runner \<Rightarrow> (nat \<times> envelope, string) runner" where
  "ends_job i r = r\<lparr>jobs := remove_nth i (jobs r), finished := finished r @ [jobs r ! i], free := free r + 1\<rparr>"

inductive system_step :: "platform \<Rightarrow> worker \<Rightarrow> system \<Rightarrow> system \<Rightarrow> bool" for pf w where
  other: "foreign (sy_streams s) (backend_of s) ev \<Longrightarrow> occurs (backend_of s) ev m' \<Longrightarrow>
    system_step pf w s (happened ev m' s)"
| work: "run_step w (sy_run s) r' \<Longrightarrow> internal (sy_run s) r' \<Longrightarrow> system_step pf w s (s\<lparr>sy_run := r'\<rparr>)"
| consume_one: "phase (sy_run s) = Starting (c # cs) \<Longrightarrow> occurs (backend_of s) (Consume c) m' \<Longrightarrow>
    system_step pf w s ((happened (Consume c) m' s)\<lparr>
      sy_run := (sy_run s)\<lparr>phase := Starting cs, tasks := tasks (sy_run s) @ [(qc_name c, AtStopCheck)]\<rparr>,
      sy_streams := sy_streams s @ [length (cons (backend_of s))]\<rparr>)"
| pull: "i < length (tasks (sy_run s)) \<Longrightarrow> snd (tasks (sy_run s) ! i) = Polling \<Longrightarrow>
    occurs (backend_of s) (Receive (sy_streams s ! i)) m' \<Longrightarrow> d = List.last (handed m') \<Longrightarrow>
    system_step pf w s ((happened (Receive (sy_streams s ! i)) m' s)\<lparr>
      sy_run := (set_task i (Sending (EvDelivery d)) (sy_run s))\<lparr>pulled := pulled (sy_run s) @ [d]\<rparr>\<rparr>)"
| end_task: "run_step w (sy_run s) r' \<Longrightarrow> ends_task i (sy_run s) r' \<Longrightarrow>
    occurs (backend_of s) (DropStream (sy_streams s ! i)) m' \<Longrightarrow>
    system_step pf w s ((happened (DropStream (sy_streams s ! i)) m' s)\<lparr>sy_run := r'\<rparr>)"
| job: "i < length (jobs (sy_run s)) \<Longrightarrow> d = jobs (sy_run s) ! i \<Longrightarrow>
    process pf memory_delivery (w_handlers w) (w_policies w) (w_hook w) (w_job_timeout w) now d (sy_proc s) = Done p' \<Longrightarrow>
    verdict_of pf (w_handlers w) (w_policies w) (w_job_timeout w) now (snd d) = Verdict st c \<Longrightarrow>
    system_step pf w s (s\<lparr>sy_run := ends_job i (sy_run s), sy_proc := p',
      sy_log := sy_log s @ [settle_event (position d (handed (backend_of s))) st]\<rparr>)"
| job_unwinds: "i < length (jobs (sy_run s)) \<Longrightarrow> d = jobs (sy_run s) ! i \<Longrightarrow>
    process pf memory_delivery (w_handlers w) (w_policies w) (w_hook w) (w_job_timeout w) now d (sy_proc s) = Unwound p' \<Longrightarrow>
    occurs (bk p') (DropDelivery (position d (handed (bk p')))) m' \<Longrightarrow>
    system_step pf w s ((happened (DropDelivery (position d (handed (bk p')))) m' (s\<lparr>sy_proc := p'\<rparr>))\<lparr>
      sy_run := ends_job i (sy_run s)\<rparr>)"
| finish: "phase (sy_run s) = JoiningJobs \<Longrightarrow> jobs (sy_run s) = [] \<Longrightarrow> \<not> w_close_backend w \<Longrightarrow>
    system_step pf w s (s\<lparr>sy_run := (sy_run s)\<lparr>phase := Finished\<rparr>\<rparr>)"
| finish_close: "phase (sy_run s) = JoiningJobs \<Longrightarrow> jobs (sy_run s) = [] \<Longrightarrow> w_close_backend w \<Longrightarrow>
    occurs (backend_of s) Close m' \<Longrightarrow>
    system_step pf w s ((happened Close m' s)\<lparr>sy_run := (sy_run s)\<lparr>phase := Finished\<rparr>\<rparr>)"

text \<open>A worker starts over a backend some run has led to.\<close>

definition system_init :: "worker \<Rightarrow> event list \<Rightarrow> mem \<Rightarrow> system" where
  "system_init w evs m = \<lparr>sy_run = run_init w, sy_proc = \<lparr>bk = m, failures = 0, hooked = []\<rparr>,
     sy_streams = [], sy_log = evs\<rparr>"

inductive system_reach :: "platform \<Rightarrow> worker \<Rightarrow> system \<Rightarrow> bool" for pf w where
  start: "run mem_new evs = Some m \<Longrightarrow> system_reach pf w (system_init w evs m)"
| step: "system_reach pf w s \<Longrightarrow> system_step pf w s s' \<Longrightarrow> system_reach pf w s'"

section \<open>Frames of the backend's events\<close>

text \<open>What an event does to the deliveries clients hold.\<close>

fun handed_after :: "mem \<Rightarrow> event \<Rightarrow> (nat \<times> envelope) list" where
  "handed_after m (Receive i) = handed m @ [(i, List.hd (chan (cons m ! i)))]"
| "handed_after m (Ack j) = remove_nth j (handed m)"
| "handed_after m (DeadLetter j r) = remove_nth j (handed m)"
| "handed_after m (RetryD j e d) = remove_nth j (handed m)"
| "handed_after m (DeferD j e d) = remove_nth j (handed m)"
| "handed_after m (DropDelivery j) = remove_nth j (handed m)"
| "handed_after m ev = handed m"

lemma release_handed [simp]: "handed (release_permits i k m) = handed m"
  by (simp add: release_permits_def)

lemma action_handed [simp]: "handed (run_action a m) = handed m"
  by (cases a) simp_all

lemma settle_handed: "settles ev j reason nxt d \<Longrightarrow> occurs m ev m' \<Longrightarrow>
    j < length (handed m) \<and> handed m' = remove_nth j (handed m)"
  unfolding occurs_def
  by (elim exE, erule settle_forms) (auto simp: spawn_thread_def dest: take_delivery_facts)

lemma occurs_handed: "occurs m ev m' \<Longrightarrow> handed m' = handed_after m ev"
proof (cases ev)
  case (RunThread t)
  assume "occurs m ev m'"
  then obtain a rest where "m' = run_action a (m\<lparr>threads := (threads m)[t := rest]\<rparr>)"
    using RunThread by (auto simp: occurs_def silent_def run_thread_def split: if_splits list.splits)
  then show ?thesis by (simp add: RunThread)
next
  case (Ack j)
  assume "occurs m ev m'"
  with settle_handed [of ev j undefined undefined undefined m m'] show ?thesis by (simp add: Ack settles_def)
next
  case (DeadLetter j r)
  assume "occurs m ev m'"
  with settle_handed [of ev j r undefined undefined m m'] show ?thesis by (simp add: DeadLetter settles_def)
next
  case (RetryD j e d)
  assume "occurs m ev m'"
  with settle_handed [of ev j undefined e d m m'] show ?thesis by (simp add: RetryD settles_def)
next
  case (DeferD j e d)
  assume "occurs m ev m'"
  with settle_handed [of ev j undefined e d m m'] show ?thesis by (simp add: DeferD settles_def)
next
  case (DropDelivery j)
  assume "occurs m ev m'"
  with settle_handed [of ev j undefined undefined undefined m m'] show ?thesis by (simp add: DropDelivery settles_def)
qed (auto simp: occurs_def silent_def declare_all_def publish_def backend_defer_def receive_def drop_stream_def
    fire_def abort_timer_def consume_def spawn_thread_def Let_def run_loop_def close_def
    split: if_splits option.splits prod.splits list.splits)

lemma loop_step_stream: "loop_step i s c = Some (s', c') \<Longrightarrow>
    rx_open c' = rx_open c \<and> (\<not> rx_open c \<longrightarrow> chan c' = chan c)"
  by (auto simp: loop_step_def leave_def split: loop_pc.splits if_splits prod.splits option.splits)

lemma action_stream: "k < length (cons m) \<Longrightarrow> k < length (cons (run_action a m))
    \<and> rx_open (cons (run_action a m) ! k) = rx_open (cons m ! k) \<and> chan (cons (run_action a m) ! k) = chan (cons m ! k)"
  by (cases a) (auto simp: release_permits_def nth_list_update)

text \<open>A stream that was dropped stays dropped and empty, and only dropping it drops it.\<close>

lemma occurs_stream:
  assumes "occurs m ev m'" "k < length (cons m)"
  shows "k < length (cons m') \<and> (ev \<noteq> DropStream k \<longrightarrow> rx_open (cons m' ! k) = rx_open (cons m ! k))
    \<and> (\<not> rx_open (cons m ! k) \<longrightarrow> chan (cons m' ! k) = chan (cons m ! k))"
proof (cases ev)
  case (RunThread t)
  then obtain a rest where "m' = run_action a (m\<lparr>threads := (threads m)[t := rest]\<rparr>)"
    using assms(1) by (auto simp: occurs_def silent_def run_thread_def split: if_splits list.splits)
  with assms(2) action_stream [of k "m\<lparr>threads := (threads m)[t := rest]\<rparr>" a] RunThread show ?thesis by simp
next
  case Close
  with assms show ?thesis by (auto simp: occurs_def close_def nth_enumerate_eq split: if_splits)
next
  case (RunLoop i)
  with assms show ?thesis by (auto simp: occurs_def silent_def run_loop_def nth_list_update dest: loop_step_stream
      split: if_splits option.splits prod.splits)
qed (use assms in \<open>auto simp: occurs_def silent_def declare_all_def delivery_ack_def
    delivery_dead_letter_def delivery_retry_def delivery_defer_def delivery_drop_def
    publish_def backend_defer_def receive_def drop_stream_def fire_def abort_timer_def consume_def
    spawn_thread_def take_delivery_def Let_def release_permits_def
    nth_list_update nth_append split: if_splits option.splits prod.splits list.splits\<close>)

lemma occurs_drop: "occurs m (DropStream k) m' \<Longrightarrow> \<not> rx_open (cons m' ! k) \<and> chan (cons m' ! k) = []"
  by (auto simp: occurs_def silent_def drop_stream_def Let_def split: if_splits)

lemma occurs_receive: "occurs m (Receive k) m' \<Longrightarrow> k < length (cons m) \<and> rx_open (cons m ! k)
    \<and> handed m' = handed m @ [(k, List.hd (chan (cons m ! k)))]"
  by (auto simp: occurs_def silent_def receive_def split: if_splits list.splits)

lemma occurs_consume: "occurs m (Consume c) m' \<Longrightarrow> length (cons m') = Suc (length (cons m))
    \<and> rx_open (cons m' ! length (cons m)) \<and> chan (cons m' ! length (cons m)) = []"
  by (auto simp: occurs_def consume_def Let_def nth_append split: if_splits)

section \<open>A settlement is an event\<close>

lemma settle_is_event:
  assumes "d \<in> set (handed m)" "apply_settlement memory_delivery st d m = (r, m')"
  shows "occurs m (settle_event (position d (handed m)) st) m'"
proof -
  note t = take_at_position [OF assms(1)]
  obtain i e where "d = (i, e)" by (cases d)
  with assms(2) t show ?thesis
    by (cases st) (auto simp: occurs_def memory_delivery_def delivery_ack_def delivery_dead_letter_def
        delivery_retry_def delivery_defer_def split: if_splits prod.splits)
qed

lemma process_is_event:
  assumes "process pf memory_delivery hs ps h timeout now d p = Done p'" "d \<in> set (handed (bk p))"
    and "verdict_of pf hs ps timeout now (snd d) = Verdict st c"
  shows "occurs (bk p) (settle_event (position d (handed (bk p))) st) (bk p')"
proof -
  have "d_envelope memory_delivery d = snd d" by (simp add: memory_delivery_def)
  with dispatch_effects [where pf = pf and D = memory_delivery and handlers = hs and policies = ps and h = h
      and timeout = timeout and now = now and d = d and env = "snd d" and p = p] assms(1,3)
  have "bk p' = snd (apply_settlement memory_delivery st d (bk p))" by (auto simp: process_def)
  then show ?thesis using settle_is_event [OF assms(2), of st] by (cases "apply_settlement memory_delivery st d (bk p)") simp
qed

lemma unwound_keeps: "process pf memory_delivery hs ps h timeout now d p = Unwound p' \<Longrightarrow> p' = p"
  using dispatch_effects [where pf = pf and D = memory_delivery and handlers = hs and policies = ps and h = h
      and timeout = timeout and now = now and d = d and env = "d_envelope memory_delivery d" and p = p]
  by (simp add: process_def)

section \<open>The invariant\<close>

text \<open>What the worker holds is what the backend has handed out of its streams and not taken back.\<close>

definition mine :: "nat list \<Rightarrow> (nat \<times> envelope) list \<Rightarrow> (nat \<times> envelope) multiset" where
  "mine ks ds = filter_mset (\<lambda>d. fst d \<in> set ks) (mset ds)"

definition dropped :: "mem \<Rightarrow> nat \<Rightarrow> bool" where
  "dropped m k \<longleftrightarrow> \<not> rx_open (cons m ! k) \<and> chan (cons m ! k) = []"

definition streams_ok :: "system \<Rightarrow> bool" where
  "streams_ok s \<longleftrightarrow> length (sy_streams s) = length (tasks (sy_run s)) \<and> distinct (sy_streams s)
     \<and> (\<forall>k\<in>set (sy_streams s). k < length (cons (backend_of s)))
     \<and> (\<forall>i<length (tasks (sy_run s)). snd (tasks (sy_run s) ! i) = Stopped \<longrightarrow> dropped (backend_of s) (sy_streams s ! i))"

lemma occurs_dropped: "occurs m ev m' \<Longrightarrow> k < length (cons m) \<Longrightarrow> dropped m k \<Longrightarrow> dropped m' k"
  using occurs_stream [of m ev m' k] occurs_drop [of m k m'] by (cases "ev = DropStream k") (auto simp: dropped_def)

definition system_ok :: "worker \<Rightarrow> system \<Rightarrow> bool" where
  "system_ok w s \<longleftrightarrow> run_reach w (sy_run s) \<and> run mem_new (sy_log s) = Some (backend_of s)
     \<and> mset (pulled (sy_run s)) = mset (finished (sy_run s)) + mine (sy_streams s) (handed (backend_of s))
     \<and> streams_ok s"

lemma mine_remove: "j < length ds \<Longrightarrow>
    mine ks ds = mine ks (remove_nth j ds) + (if fst (ds ! j) \<in> set ks then {#ds ! j#} else {#})"
proof -
  assume "j < length ds"
  from mset_remove_nth_add [OF this] have "mset ds = add_mset (ds ! j) (mset (remove_nth j ds))" by simp
  then show ?thesis by (simp add: mine_def)
qed

lemma foreign_keeps_mine:
  assumes "foreign ks m ev" "occurs m ev m'"
  shows "mine ks (handed m') = mine ks (handed m)"
proof -
  have settled: "mine ks (handed m') = mine ks (handed m)"
    if "settles ev j reason nxt d" "fst (handed m ! j) \<notin> set ks" for j reason nxt d
    using settle_handed [OF that(1) assms(2)] mine_remove [of j "handed m" ks] that(2) by simp
  show ?thesis
  proof (cases ev)
    case (Receive i)
    with assms occurs_receive [of m i m'] show ?thesis by (simp add: mine_def)
  next
    case (Ack j) with assms(1) settled [of j undefined undefined undefined] show ?thesis by (simp add: settles_def)
  next
    case (DeadLetter j r) with assms(1) settled [of j r undefined undefined] show ?thesis by (simp add: settles_def)
  next
    case (RetryD j e d) with assms(1) settled [of j undefined e d] show ?thesis by (simp add: settles_def)
  next
    case (DeferD j e d) with assms(1) settled [of j undefined e d] show ?thesis by (simp add: settles_def)
  next
    case (DropDelivery j) with assms(1) settled [of j undefined undefined undefined] show ?thesis by (simp add: settles_def)
  qed (use occurs_handed [OF assms(2)] in simp_all)
qed

lemma run_snoc: "run m evs = Some m1 \<Longrightarrow> occurs m1 ev m2 \<Longrightarrow> run m (evs @ [ev]) = Some m2"
  by (auto simp: occurs_def run_append)

lemma system_step_runs: "system_step pf w s s' \<Longrightarrow> sy_run s' = sy_run s \<or> run_step w (sy_run s) (sy_run s')"
proof (induction rule: system_step.induct)
  case (job i s d now p' st c)
  from run_step.job_done [OF job(1), of w] show ?case by (simp add: ends_job_def)
next
  case (job_unwinds i s d now p' m')
  from run_step.job_done [OF job_unwinds(1), of w] show ?case by (simp add: ends_job_def)
next
  case (finish s)
  from run_step.join_jobs [OF finish(1,2), of w "Inr ()"] finish(3) show ?case by simp
next
  case (finish_close s m')
  from run_step.join_jobs [OF finish_close(1,2), of w "Inr ()"] finish_close(3) show ?case by simp
qed (auto simp: happened_def intro: run_step.intros)

lemma accounted_reach: "run_reach w r \<Longrightarrow> accounted r"
proof (induction rule: run_reach.induct)
  case init
  show ?case by (simp add: accounted_def run_init_def in_tasks_def in_buffer_def)
next
  case (step r r')
  then show ?case using accounted_step by blast
qed

text \<open>So the worker holds what it has not finished.\<close>

lemma held_jobs:
  assumes "system_ok w s"
  shows "mine (sy_streams s) (handed (backend_of s)) = in_tasks (sy_run s) + in_buffer (sy_run s) + mset (jobs (sy_run s))"
    and "d \<in> set (jobs (sy_run s)) \<Longrightarrow> d \<in> set (handed (backend_of s)) \<and> fst d \<in> set (sy_streams s)"
proof -
  have "accounted (sy_run s)" using assms accounted_reach by (auto simp: system_ok_def)
  with assms show m: "mine (sy_streams s) (handed (backend_of s))
      = in_tasks (sy_run s) + in_buffer (sy_run s) + mset (jobs (sy_run s))"
    by (simp add: system_ok_def accounted_def ac_simps)
  assume "d \<in> set (jobs (sy_run s))"
  with m have "d \<in># mine (sy_streams s) (handed (backend_of s))" by simp
  then show "d \<in> set (handed (backend_of s)) \<and> fst d \<in> set (sy_streams s)" by (simp add: mine_def)
qed

lemma streams_frame:
  assumes ok: "streams_ok s" and occ: "occurs (backend_of s) ev m'"
    and s': "sy_streams s' = sy_streams s" "backend_of s' = m'" "length (tasks (sy_run s')) = length (tasks (sy_run s))"
    and stopped: "\<And>i. i < length (tasks (sy_run s)) \<Longrightarrow> snd (tasks (sy_run s') ! i) = Stopped \<Longrightarrow>
      snd (tasks (sy_run s) ! i) = Stopped \<or> dropped m' (sy_streams s ! i)"
  shows "streams_ok s'"
  unfolding streams_ok_def s'
proof (intro conjI allI ballI impI)
  note ok = ok [unfolded streams_ok_def]
  show "length (sy_streams s) = length (tasks (sy_run s))" "distinct (sy_streams s)" using ok by blast+
  show "k < length (cons m')" if "k \<in> set (sy_streams s)" for k
    using ok that occurs_stream [OF occ] by blast
  fix i assume i: "i < length (tasks (sy_run s))" "snd (tasks (sy_run s') ! i) = Stopped"
  from ok i(1) have k: "sy_streams s ! i < length (cons (backend_of s))" by simp
  from stopped [OF i] show "dropped m' (sy_streams s ! i)"
  proof
    assume "snd (tasks (sy_run s) ! i) = Stopped"
    with ok i(1) have "dropped (backend_of s) (sy_streams s ! i)" by blast
    then show ?thesis by (rule occurs_dropped [OF occ k])
  qed
qed

lemma stopped_map_nth: "map (\<lambda>t. snd t = Stopped) ts' = map (\<lambda>t. snd t = Stopped) ts \<Longrightarrow>
    length ts' = length ts \<and> (\<forall>i<length ts. (snd (ts' ! i) = Stopped) = (snd (ts ! i) = Stopped))"
proof (intro conjI allI impI)
  assume eq: "map (\<lambda>t. snd t = Stopped) ts' = map (\<lambda>t. snd t = Stopped) ts"
  show len: "length ts' = length ts" using map_eq_imp_length_eq [OF eq] .
  fix i assume "i < length ts"
  with arg_cong [OF eq, of "\<lambda>xs. xs ! i"] len show "(snd (ts' ! i) = Stopped) = (snd (ts ! i) = Stopped)" by simp
qed

text \<open>A delivery that was handed out names a consumer that exists.\<close>

lemma handed_consumer:
  assumes "run mem_new evs = Some m" "d \<in> set (handed m)"
  shows "fst d < length (cons m)"
proof -
  have "permits_inv m" using reachable_invs(1) run_reachable assms(1) by blast
  from take_delivery_owner [OF this] take_at_position [OF assms(2)] show ?thesis by (cases d) fastforce
qed

text \<open>The two steps that end a consumer task.\<close>

lemma ends_task_step:
  assumes "run_step w r r'" "ends_task i r r'"
  shows "pulled r' = pulled r \<and> finished r' = finished r \<and> length (tasks r') = length (tasks r)
    \<and> (\<forall>j<length (tasks r). j \<noteq> i \<longrightarrow> tasks r' ! j = tasks r ! j)"
  using assms
proof (induction rule: run_step.induct)
  case (join_jobs r reply)
  then show ?case by (auto simp: ends_task_def split: sum.splits if_splits)
qed (auto simp: ends_task_def set_task_def nth_append nth_list_update split: if_splits)

lemma backend_happened [simp]: "backend_of (happened ev m s) = m" "sy_run (happened ev m s) = sy_run s"
    "sy_streams (happened ev m s) = sy_streams s" "sy_log (happened ev m s) = sy_log s @ [ev]"
    "backend_of (s\<lparr>sy_run := r\<rparr>) = backend_of s" "backend_of (s\<lparr>sy_streams := ks\<rparr>) = backend_of s"
    "backend_of (s\<lparr>sy_proc := p\<rparr>) = bk p" "backend_of (s\<lparr>sy_log := l\<rparr>) = backend_of s"
  by (simp_all add: happened_def backend_of_def)

lemma system_ok_step:
  assumes "system_step pf w s s'" "system_ok w s"
  shows "system_ok w s'"
proof -
  have reach: "run_reach w (sy_run s')"
    using system_step_runs [OF assms(1)] assms(2) by (auto simp: system_ok_def intro: run_reach.step)
  note ok = assms(2) [unfolded system_ok_def]
  have log: "run mem_new (sy_log s) = Some (backend_of s)" and acc: "mset (pulled (sy_run s))
      = mset (finished (sy_run s)) + mine (sy_streams s) (handed (backend_of s))" and st: "streams_ok s"
    using ok by blast+
  have job_acc: "mset (pulled (ends_job i (sy_run s))) = mset (finished (ends_job i (sy_run s))) + mine (sy_streams s) (handed m')"
    if "i < length (jobs (sy_run s))" "d = jobs (sy_run s) ! i"
      "handed m' = remove_nth (position d (handed (backend_of s))) (handed (backend_of s))" for i d m'
  proof -
    have d: "d \<in> set (handed (backend_of s))" "fst d \<in> set (sy_streams s)"
      using held_jobs(2) [OF assms(2), of d] that(1,2) by simp_all
    note p = position_less [OF d(1)]
    show ?thesis using acc mine_remove [of "position d (handed (backend_of s))" "handed (backend_of s)" "sy_streams s"]
      p d(2) that by (simp add: ends_job_def)
  qed
  have "run mem_new (sy_log s') = Some (backend_of s') \<and> mset (pulled (sy_run s'))
      = mset (finished (sy_run s')) + mine (sy_streams s') (handed (backend_of s')) \<and> streams_ok s'"
    using assms(1)
  proof (cases rule: system_step.cases)
    case (other ev m')
    then show ?thesis using run_snoc [OF log other(3)] acc foreign_keeps_mine [OF other(2,3)]
        streams_frame [OF st other(3), of s'] by simp
  next
    case (work r')
    from stopped_map_nth [of "tasks r'" "tasks (sy_run s)"] work(3) st show ?thesis
      using work log acc by (simp add: internal_def streams_ok_def)
  next
    case (consume_one c cs m')
    note c = occurs_consume [OF consume_one(3)]
    have h: "handed m' = handed (backend_of s)" using occurs_handed [OF consume_one(3)] by simp
    let ?n = "length (cons (backend_of s))"
    have "mine (sy_streams s @ [?n]) (handed (backend_of s)) = mine (sy_streams s) (handed (backend_of s))"
      unfolding mine_def using handed_consumer [OF log] by (intro filter_mset_cong) fastforce+
    moreover have "streams_ok s'"
      using st consume_one(1) c occurs_stream [OF consume_one(3)] occurs_dropped [OF consume_one(3)]
      by (auto simp: streams_ok_def nth_append less_Suc_eq)
    ultimately show ?thesis using consume_one(1) run_snoc [OF log consume_one(3)] acc h by simp
  next
    case (pull i m' d)
    have i: "sy_streams s ! i \<in> set (sy_streams s)" using st pull(2) by (simp add: streams_ok_def)
    note h = occurs_receive [OF pull(4)]
    have "mset (pulled (sy_run s')) = mset (finished (sy_run s')) + mine (sy_streams s') (handed (backend_of s'))"
      using acc i h by (simp add: pull(1,5) mine_def)
    moreover have "streams_ok s'"
      by (rule streams_frame [OF st pull(4)]) (use pull in \<open>auto simp: set_task_def nth_list_update split: if_splits\<close>)
    ultimately show ?thesis using run_snoc [OF log pull(4)] by (simp add: pull(1))
  next
    case (end_task r' i m')
    note e = ends_task_step [OF end_task(2,3)]
    have h: "handed m' = handed (backend_of s)" using occurs_handed [OF end_task(4)] by simp
    have "streams_ok s'"
      by (rule streams_frame [OF st end_task(4)])
        (use e occurs_drop [OF end_task(4)] in \<open>auto simp: end_task(1) dropped_def\<close>)
    then show ?thesis using run_snoc [OF log end_task(4)] acc e h by (simp add: end_task(1))
  next
    case (job i d now p' v c)
    have d: "d \<in> set (handed (bk (sy_proc s)))"
      using held_jobs(2) [OF assms(2), of d] job(2,3) by (simp add: backend_of_def)
    have occ: "occurs (backend_of s) (settle_event (position d (handed (backend_of s))) v) (bk p')"
      using process_is_event [OF job(4) d job(5)] by (simp add: backend_of_def)
    have h: "handed (bk p') = remove_nth (position d (handed (backend_of s))) (handed (backend_of s))"
      using occurs_handed [OF occ] by (cases v) simp_all
    have "streams_ok s'"
      by (rule streams_frame [OF st occ]) (simp_all add: job(1) ends_job_def)
    then show ?thesis using run_snoc [OF log occ] job_acc [OF job(2,3) h] by (simp add: job(1))
  next
    case (job_unwinds i d now p' m')
    have p': "bk p' = backend_of s" using unwound_keeps [OF job_unwinds(4)] by (simp add: backend_of_def)
    note occ = job_unwinds(5) [unfolded p']
    have h: "handed m' = remove_nth (position d (handed (backend_of s))) (handed (backend_of s))"
      using occurs_handed [OF occ] by simp
    have "streams_ok s'"
      by (rule streams_frame [OF st occ]) (simp_all add: job_unwinds(1) ends_job_def)
    then show ?thesis using run_snoc [OF log occ] job_acc [OF job_unwinds(2,3) h] by (simp add: job_unwinds(1) p')
  next
    case finish
    then show ?thesis using log acc st by (simp add: streams_ok_def)
  next
    case (finish_close m')
    have "handed m' = handed (backend_of s)" using occurs_handed [OF finish_close(5)] by simp
    then show ?thesis using finish_close run_snoc [OF log finish_close(5)] acc
        streams_frame [OF st finish_close(5), of s'] by simp
  qed
  with reach show ?thesis by (simp add: system_ok_def)
qed

lemma system_reach_ok: "system_reach pf w s \<Longrightarrow> system_ok w s"
proof (induction rule: system_reach.induct)
  case (start evs m)
  let ?r = "run_init w :: (nat \<times> envelope, string) runner"
  have "pulled ?r = []" "finished ?r = []" "tasks ?r = []" by (simp_all add: run_init_def)
  moreover have "run_reach w ?r" by (rule run_reach.init)
  ultimately show ?case using start
    by (simp add: system_ok_def system_init_def backend_of_def streams_ok_def mine_def)
next
  case (step s s')
  then show ?case by (blast intro: system_ok_step)
qed

section \<open>What a worker does to the backend\<close>

lemma size_mine: "k \<in> set ks \<Longrightarrow> size (filter_mset (\<lambda>d. fst d = k) (mine ks ds)) = count_list (map fst ds) k"
  unfolding mine_def by (induction ds) auto

text \<open>C7: a worker over the in-memory backend is a client like any other: everything it does is an event of the
  backend's machine, in the order of its log, so what holds of every run of the machine holds of every
  run of workers, producers and timers. What it holds is exactly what its streams handed out and it has
  not finished, and of each stream never more than the prefetch window of its queue.\<close>

theorem worker_over_memory_is_a_client_of_the_machine:
  assumes "system_reach pf w s"
  shows "run_reach w (sy_run s) \<and> run mem_new (sy_log s) = Some (backend_of s)
    \<and> in_tasks (sy_run s) + in_buffer (sy_run s) + mset (jobs (sy_run s)) = mine (sy_streams s) (handed (backend_of s))
    \<and> (\<forall>k\<in>set (sy_streams s). size (filter_mset (\<lambda>d. fst d = k)
          (in_tasks (sy_run s) + in_buffer (sy_run s) + mset (jobs (sy_run s)))) \<le> capacity (cons (backend_of s) ! k))"
proof -
  have ok: "system_ok w s" by (rule system_reach_ok [OF assms])
  then have run: "run mem_new (sy_log s) = Some (backend_of s)" by (simp add: system_ok_def)
  have "size (filter_mset (\<lambda>d. fst d = k) (mine (sy_streams s) (handed (backend_of s)))) \<le> capacity (cons (backend_of s) ! k)"
    if "k \<in> set (sy_streams s)" for k
  proof -
    have "k < length (cons (backend_of s))" using ok that by (simp add: system_ok_def streams_ok_def)
    from permits_invD(1) [OF reachable_invs(1) [OF run_reachable [OF run]] this]
    show ?thesis by (simp add: size_mine [OF that] handed_of_def)
  qed
  with held_jobs(1) [OF ok] ok show ?thesis by (simp add: system_ok_def)
qed

text \<open>C3: when a worker over the in-memory backend has finished, it leaves nothing behind: every delivery it
  took is finished and no longer outstanding, its streams are dropped and what they had buffered is
  back, and unless the backend was closed or a job unwound, every envelope ever submitted (by producers
  and by the worker's own retries and deferrals) is in exactly one place per submission.\<close>

theorem finished_worker_leaves_nothing_behind:
  assumes "system_reach pf w s" "0 < w_concurrency w" "phase (sy_run s) = Finished"
  shows "mset (finished (sy_run s)) = mset (pulled (sy_run s))
    \<and> (\<forall>d\<in>set (handed (backend_of s)). fst d \<notin> set (sy_streams s))
    \<and> (\<forall>k\<in>set (sy_streams s). dropped (backend_of s) k)
    \<and> (Close \<notin> set (sy_log s) \<longrightarrow> (\<forall>ev\<in>set (sy_log s). \<not> abandons ev) \<longrightarrow>
        tally (backend_of s) e = count_list (concat (map submitted (sy_log s))) e)"
proof -
  have ok: "system_ok w s" by (rule system_reach_ok [OF assms(1)])
  then have inv: "run_inv w (sy_run s)" using run_inv_reach [of w "sy_run s"] assms(2) by (simp add: system_ok_def)
  with assms(3) have st: "all_stopped (sy_run s)" "buffer (sy_run s) = []" "jobs (sy_run s) = []"
    by (auto simp: run_inv_def)
  have "in_tasks (sy_run s) = {#}" by (rule stopped_hold_nothing [OF st(1)])
  with st held_jobs(1) [OF ok] have none: "mine (sy_streams s) (handed (backend_of s)) = {#}"
    by (simp add: in_buffer_def)
  have "\<forall>d\<in>set (handed (backend_of s)). fst d \<notin> set (sy_streams s)"
  proof (intro ballI notI)
    fix d assume "d \<in> set (handed (backend_of s))" "fst d \<in> set (sy_streams s)"
    then have "d \<in># mine (sy_streams s) (handed (backend_of s))" by (simp add: mine_def)
    with none show False by simp
  qed
  moreover have "dropped (backend_of s) k" if "k \<in> set (sy_streams s)" for k
  proof -
    from that obtain i where "i < length (sy_streams s)" "sy_streams s ! i = k" by (auto simp: in_set_conv_nth)
    with ok st(1) show ?thesis by (auto simp: system_ok_def streams_ok_def all_stopped_def)
  qed
  moreover have "mset (finished (sy_run s)) = mset (pulled (sy_run s))" using ok none by (simp add: system_ok_def)
  ultimately show ?thesis using ok run_conserves [of "sy_log s" "backend_of s" e] by (simp add: system_ok_def)
qed

section \<open>A run of the system, for the witnesses\<close>

text \<open>A message is published, a worker takes it and dead-letters it, for it has no handler, is shut down
  meanwhile, and finishes.\<close>

definition mem_after :: "event list \<Rightarrow> mem" where
  "mem_after evs = the (run mem_new evs)"

lemma occurs_after: "run mem_new (evs @ [ev]) \<noteq> None \<Longrightarrow> occurs (mem_after evs) ev (mem_after (evs @ [ev]))"
  by (auto simp: mem_after_def occurs_def run_append split: option.splits)

definition sys_at :: "event list \<Rightarrow> phase \<Rightarrow> bool \<Rightarrow> bool \<Rightarrow> (nat \<times> envelope, string) task_pc
    \<Rightarrow> (nat \<times> envelope, string) consumer_event list \<Rightarrow> nat \<Rightarrow> (nat \<times> envelope) list \<Rightarrow> (nat \<times> envelope) list \<Rightarrow> system" where
  "sys_at evs ph asked st t b f js pl = \<lparr>sy_run = \<lparr>phase = ph, result = Inr (), shut = asked, stop = st,
     tasks = [(''q'', t)], buffer = b, buffer_cap = 1, free = f, jobs = js, pulled = pl, finished = []\<rparr>,
     sy_proc = \<lparr>bk = mem_after evs, failures = 0, hooked = []\<rparr>, sy_streams = [0], sy_log = evs\<rparr>"

lemmas sys_defs = sys_at_def happened_def backend_of_def set_task_def begin_drain_def tiny_worker_def

abbreviation sys_reached :: "system \<Rightarrow> bool" where
  "sys_reached \<equiv> system_reach example_platform tiny_worker"

definition to_pull :: "event list" where
  "to_pull = [Publish sample None, RunThread 0, Consume (queue_config_new ''q''), RunLoop 0, RunLoop 0, RunLoop 0]"

lemma sys_streaming: "sys_reached (sys_at to_pull AtTop False False Polling [] 1 [] [])"
proof -
  note st = system_reach.step [where pf = example_platform and w = tiny_worker]
  let ?e2 = "[Publish sample None, RunThread 0]"
  let ?e3 = "?e2 @ [Consume (queue_config_new ''q'')]"
  have "run mem_new ?e2 \<noteq> None" "run mem_new ?e3 \<noteq> None" "run mem_new (?e3 @ [RunLoop 0]) \<noteq> None"
    "run mem_new ((?e3 @ [RunLoop 0]) @ [RunLoop 0]) \<noteq> None"
    "run mem_new (((?e3 @ [RunLoop 0]) @ [RunLoop 0]) @ [RunLoop 0]) \<noteq> None"
    by code_simp+
  note occ = this(1) this(2-5) [THEN occurs_after]
  have n: "length (cons (mem_after ?e2)) = 0" by code_simp
  have "run mem_new ?e2 = Some (mem_after ?e2)" using occ(1) by (auto simp: mem_after_def)
  then have "sys_reached (system_init tiny_worker ?e2 (mem_after ?e2))" by (rule system_reach.start)
  then have "sys_reached (sys_at ?e3 (Starting []) False False AtStopCheck [] 1 [] [])"
    by (rule st) (use system_step.consume_one [of "system_init tiny_worker ?e2 (mem_after ?e2)"
        "queue_config_new ''q''" "[]" "mem_after ?e3" example_platform tiny_worker] occ(2) n
        in \<open>simp add: sys_defs system_init_def run_init_def handle_new_def queue_config_new_def\<close>)
  then have "sys_reached (sys_at ?e3 AtTop False False AtStopCheck [] 1 [] [])"
    by (rule st) (use system_step.work [OF run_step.started [of "sy_run (sys_at ?e3 (Starting []) False False AtStopCheck [] 1 [] [])"
        tiny_worker], where pf = example_platform] in \<open>simp add: sys_defs MAX_PERMITS_def internal_def\<close>)
  then have "sys_reached (sys_at ?e3 AtTop False False Polling [] 1 [] [])"
    by (rule st) (use system_step.work [OF run_step.task_go [of 0 "sy_run (sys_at ?e3 AtTop False False AtStopCheck [] 1 [] [])"
        tiny_worker], where pf = example_platform] in \<open>simp add: sys_defs internal_def\<close>)
  then have "sys_reached (sys_at (?e3 @ [RunLoop 0]) AtTop False False Polling [] 1 [] [])"
    by (rule st) (use system_step.other [where pf = example_platform and w = tiny_worker and ev = "RunLoop 0"
        and s = "sys_at ?e3 AtTop False False Polling [] 1 [] []"] occ(3) in \<open>simp add: sys_defs\<close>)
  then have "sys_reached (sys_at ((?e3 @ [RunLoop 0]) @ [RunLoop 0]) AtTop False False Polling [] 1 [] [])"
    by (rule st) (use system_step.other [where pf = example_platform and w = tiny_worker and ev = "RunLoop 0"
        and s = "sys_at (?e3 @ [RunLoop 0]) AtTop False False Polling [] 1 [] []"] occ(4) in \<open>simp add: sys_defs\<close>)
  then have "sys_reached (sys_at (((?e3 @ [RunLoop 0]) @ [RunLoop 0]) @ [RunLoop 0]) AtTop False False Polling [] 1 [] [])"
    by (rule st) (use system_step.other [where pf = example_platform and w = tiny_worker and ev = "RunLoop 0"
        and s = "sys_at ((?e3 @ [RunLoop 0]) @ [RunLoop 0]) AtTop False False Polling [] 1 [] []"] occ(5)
        in \<open>simp add: sys_defs\<close>)
  then show ?thesis by (simp add: to_pull_def)
qed

definition to_drop :: "event list" where
  "to_drop = (to_pull @ [Receive 0]) @ [DropStream 0]"

text \<open>The delivery is taken, forwarded and dispatched.\<close>

lemma sys_running: "sys_reached (sys_at (to_pull @ [Receive 0]) AtTop False False AtStopCheck [] 0 [(0, sample)] [(0, sample)])"
proof -
  note st = system_reach.step [where pf = example_platform and w = tiny_worker]
  let ?e = "to_pull @ [Receive 0]"
  have "run mem_new ?e \<noteq> None" unfolding to_pull_def by code_simp
  then have occ: "occurs (mem_after to_pull) (Receive 0) (mem_after ?e)" by (rule occurs_after)
  have h: "List.last (handed (mem_after ?e)) = (0, sample)" unfolding to_pull_def by code_simp
  have "sys_reached (sys_at ?e AtTop False False (Sending (EvDelivery (0, sample))) [] 1 [] [(0, sample)])"
    by (rule st [OF sys_streaming]) (use system_step.pull [of 0 "sys_at to_pull AtTop False False Polling [] 1 [] []"
        "mem_after ?e" _ example_platform tiny_worker, OF _ _ _ refl] occ h in \<open>simp add: sys_defs\<close>)
  then have "sys_reached (sys_at ?e AtTop False False AtStopCheck [EvDelivery (0, sample)] 1 [] [(0, sample)])"
    by (rule st) (use system_step.work [OF run_step.task_send [of 0
        "sy_run (sys_at ?e AtTop False False (Sending (EvDelivery (0, sample))) [] 1 [] [(0, sample)])" _ tiny_worker],
        where pf = example_platform] in \<open>simp add: sys_defs internal_def\<close>)
  then have "sys_reached (sys_at ?e HasPermit False False AtStopCheck [EvDelivery (0, sample)] 0 [] [(0, sample)])"
    by (rule st) (use system_step.work [OF run_step.top_permit [of
        "sy_run (sys_at ?e AtTop False False AtStopCheck [EvDelivery (0, sample)] 1 [] [(0, sample)])" tiny_worker],
        where pf = example_platform] in \<open>simp add: sys_defs internal_def\<close>)
  then show ?thesis
    by (rule st) (use system_step.work [OF run_step.recv_delivery [of
        "sy_run (sys_at ?e HasPermit False False AtStopCheck [EvDelivery (0, sample)] 0 [] [(0, sample)])" _ "[]" tiny_worker],
        where pf = example_platform] in \<open>simp add: sys_defs internal_def\<close>)
qed

text \<open>It is shut down and drains.\<close>

lemma sys_draining: "sys_reached (sys_at to_drop Draining True True Stopped [] 0 [(0, sample)] [(0, sample)])"
proof -
  note st = system_reach.step [where pf = example_platform and w = tiny_worker]
  let ?e = "to_pull @ [Receive 0]" and ?d = "[(0, sample)]"
  have "run mem_new to_drop \<noteq> None" unfolding to_drop_def to_pull_def by code_simp
  then have occ: "occurs (mem_after ?e) (DropStream 0) (mem_after to_drop)"
    unfolding to_drop_def by (rule occurs_after)
  have "sys_reached (sys_at ?e AtTop True False AtStopCheck [] 0 ?d ?d)"
    by (rule st [OF sys_running]) (use system_step.work [OF run_step.shutdown [of tiny_worker
        "sy_run (sys_at ?e AtTop False False AtStopCheck [] 0 ?d ?d)"],
        where pf = example_platform] in \<open>simp add: sys_defs internal_def\<close>)
  then have "sys_reached (sys_at ?e Draining True True AtStopCheck [] 0 ?d ?d)"
    by (rule st) (use system_step.work [OF run_step.top_shutdown [of
        "sy_run (sys_at ?e AtTop True False AtStopCheck [] 0 ?d ?d)" tiny_worker],
        where pf = example_platform] in \<open>simp add: sys_defs internal_def\<close>)
  then show ?thesis
    by (rule st) (use system_step.end_task [OF run_step.task_stop [of 0
        "sy_run (sys_at ?e Draining True True AtStopCheck [] 0 ?d ?d)" tiny_worker], where pf = example_platform
        and i = 0 and m' = "mem_after to_drop"] occ in \<open>simp add: sys_defs ends_task_def to_drop_def\<close>)
qed

text \<open>The job, without a handler, dead-letters its delivery, and the worker finishes.\<close>

lemma sys_finished: "\<exists>s. sys_reached s \<and> phase (sy_run s) = Finished \<and> pulled (sy_run s) = [(0, sample)]
    \<and> sy_log s = to_drop @ [DeadLetter 0 (no_handler_reason sample)]"
proof -
  note st = system_reach.step [where pf = example_platform and w = tiny_worker]
  let ?s = "sys_at to_drop Draining True True Stopped [] 0 [(0, sample)] [(0, sample)]"
  have h: "handed (mem_after to_drop) = [(0, sample)]" unfolding to_drop_def to_pull_def by code_simp
  obtain p' where p': "process example_platform memory_delivery (w_handlers tiny_worker) (w_policies tiny_worker)
      (w_hook tiny_worker) (w_job_timeout tiny_worker) 0 (0, sample) (sy_proc ?s) = Done p'"
    by (simp add: process_def dispatch_def tiny_worker_def give_up_def notify_dead_def then_flow_def)
  have v: "verdict_of example_platform (w_handlers tiny_worker) (w_policies tiny_worker) (w_job_timeout tiny_worker) 0
      (snd (0 :: nat, sample)) = Verdict (SDeadLetter (no_handler_reason sample)) (Some (CauseNoHandler, None))"
    by (simp add: verdict_of_def tiny_worker_def)
  define fin where "fin ph f = \<lparr>sy_run = \<lparr>phase = ph, result = Inr (), shut = True, stop = True,
     tasks = [(''q'', Stopped)], buffer = [], buffer_cap = 1, free = f, jobs = [], pulled = [(0, sample)],
     finished = [(0, sample)]\<rparr>, sy_proc = p', sy_streams = [0],
     sy_log = to_drop @ [DeadLetter 0 (no_handler_reason sample)]\<rparr>" for ph :: phase and f :: nat
  note d = fin_def tiny_worker_def internal_def all_stopped_def
  have "sys_reached (fin Draining 1)"
    by (rule st [OF sys_draining]) (use system_step.job [of 0 ?s "(0, sample)" example_platform tiny_worker 0 p',
        OF _ _ p' v] h in \<open>simp add: sys_at_def ends_job_def remove_nth_def d backend_of_def position_def\<close>)
  then have "sys_reached (fin DrainHasPermit 0)"
    by (rule st) (use system_step.work [OF run_step.drain_permit [of "sy_run (fin Draining 1)" tiny_worker],
        where pf = example_platform] in \<open>simp add: d\<close>)
  then have "sys_reached (fin JoiningConsumers 1)"
    by (rule st) (use system_step.work [OF run_step.drain_none [of "sy_run (fin DrainHasPermit 0)" tiny_worker],
        where pf = example_platform] in \<open>simp add: d\<close>)
  then have "sys_reached (fin JoiningJobs 1)"
    by (rule st) (use system_step.work [OF run_step.join_consumers [of "sy_run (fin JoiningConsumers 1)" tiny_worker],
        where pf = example_platform] in \<open>simp add: d\<close>)
  then have "sys_reached (fin Finished 1)"
    by (rule st) (use system_step.finish [of "fin JoiningJobs 1" tiny_worker example_platform] in \<open>simp add: d\<close>)
  then show ?thesis by (intro exI [of _ "fin Finished 1"]) (simp add: fin_def)
qed

theorem worker_over_memory_is_a_client_of_the_machine_witness:
  "handed (mem_after (to_pull @ [Receive 0])) = [(0, sample)] \<and> run mem_new (to_pull @ [Receive 0]) \<noteq> None"
proof -
  note c = worker_over_memory_is_a_client_of_the_machine [OF sys_running]
  from c have "run mem_new (to_pull @ [Receive 0]) \<noteq> None" by (simp add: sys_at_def)
  moreover have "handed (mem_after (to_pull @ [Receive 0])) = [(0, sample)]" unfolding to_pull_def by code_simp
  ultimately show ?thesis by simp
qed

theorem finished_worker_leaves_nothing_behind_witness:
  "\<exists>s. sys_reached s \<and> phase (sy_run s) = Finished \<and> finished (sy_run s) = [(0, sample)]
    \<and> tally (backend_of s) sample = 1"
proof -
  from sys_finished obtain s where s: "sys_reached s" "phase (sy_run s) = Finished" "pulled (sy_run s) = [(0, sample)]"
    "sy_log s = to_drop @ [DeadLetter 0 (no_handler_reason sample)]" by blast
  have "count_list (concat (map submitted (sy_log s))) sample = 1" by (simp add: s(4) to_drop_def to_pull_def)
  moreover have "Close \<notin> set (sy_log s)" "\<forall>ev\<in>set (sy_log s). \<not> abandons ev" by (simp_all add: s(4) to_drop_def to_pull_def)
  moreover have "0 < w_concurrency tiny_worker" by (simp add: tiny_worker_def)
  ultimately show ?thesis
    using finished_worker_leaves_nothing_behind [OF s(1) _ s(2), of sample] s by auto
qed

end
