(* ===== verification/Topology.thy ===== *)
theory Topology
  imports Queue_Config
begin

text \<open>
  \<open>crates/rabbitmq/src/topology.rs\<close>: the names, the declaration arguments and the lifetimes of the
  broker queues a logical queue maps to. A \<open>FieldTable\<close> is a finite map from keys to values; the
  64-bit integer of a \<open>LongLongInt\<close> is an \<open>int\<close>, converted with the check \<open>i64::try_from\<close> makes.
  Millisecond counts are computed in \<open>u128\<close>, whose multiplication saturates.
\<close>

definition DEFAULT_DEAD_SUFFIX :: string where "DEFAULT_DEAD_SUFFIX = ''.dead''"
definition DEFAULT_DEFERRED_SUFFIX :: string where "DEFAULT_DEFERRED_SUFFIX = ''.deferred''"

definition HEADER_DEATH_REASON :: string where "HEADER_DEATH_REASON = ''x-death-reason''"
definition HEADER_ORIGINAL_QUEUE :: string where "HEADER_ORIGINAL_QUEUE = ''x-original-queue''"
definition HEADER_ATTEMPTS :: string where "HEADER_ATTEMPTS = ''x-attempts''"
definition HEADER_ATTEMPT :: string where "HEADER_ATTEMPT = ''x-attempt''"
definition HEADER_DEFERRALS :: string where "HEADER_DEFERRALS = ''x-deferrals''"

definition ARG_DEAD_LETTER_EXCHANGE :: string where
  "ARG_DEAD_LETTER_EXCHANGE = ''x-dead-letter-exchange''"
definition ARG_DEAD_LETTER_ROUTING_KEY :: string where
  "ARG_DEAD_LETTER_ROUTING_KEY = ''x-dead-letter-routing-key''"
definition ARG_MESSAGE_TTL :: string where "ARG_MESSAGE_TTL = ''x-message-ttl''"
definition ARG_MAX_PRIORITY :: string where "ARG_MAX_PRIORITY = ''x-max-priority''"
definition ARG_EXPIRES :: string where "ARG_EXPIRES = ''x-expires''"

lemmas header_defs = HEADER_DEATH_REASON_def HEADER_ORIGINAL_QUEUE_def HEADER_ATTEMPTS_def
  HEADER_ATTEMPT_def HEADER_DEFERRALS_def

lemmas arg_defs = ARG_DEAD_LETTER_EXCHANGE_def ARG_DEAD_LETTER_ROUTING_KEY_def ARG_MESSAGE_TTL_def
  ARG_MAX_PRIORITY_def ARG_EXPIRES_def

text \<open>\<open>u32::MAX\<close>, and half of it.\<close>

definition MAX_TTL_MS :: u32 where "MAX_TTL_MS = 4294967295"
definition MAX_DEFERRAL_MS :: u32 where "MAX_DEFERRAL_MS = MAX_TTL_MS div 2"

lemma unat_MAX [simp]: "unat MAX_TTL_MS = 4294967295" "unat MAX_DEFERRAL_MS = 2147483647"
  by (simp_all add: MAX_TTL_MS_def MAX_DEFERRAL_MS_def unat_div)

section \<open>Names\<close>

definition dead_queue_name :: "string \<Rightarrow> string \<Rightarrow> string" where
  "dead_queue_name queue suffix = queue @ suffix"

definition deferred_queue_name :: "string \<Rightarrow> string \<Rightarrow> u32 \<Rightarrow> string" where
  "deferred_queue_name queue suffix ttl_ms = queue @ suffix @ ''.'' @ show_nat (unat ttl_ms)"

section \<open>Lifetimes\<close>

definition clamp :: "nat \<Rightarrow> nat \<Rightarrow> nat \<Rightarrow> nat" where
  "clamp lo hi x = (if x < lo then lo else if hi < x then hi else x)"

definition saturating_mul_u128 :: "nat \<Rightarrow> nat \<Rightarrow> nat" where
  "saturating_mul_u128 a b = min (a * b) (2 ^ 128 - 1)"

definition millis_ceil :: "duration \<Rightarrow> nat" where
  "millis_ceil d = div_ceil d nanos_per_milli"

definition deferred_ttl_ms :: "duration \<Rightarrow> duration \<Rightarrow> u32 option" where
  "deferred_ttl_ms dly granularity =
     (let mx = unat MAX_DEFERRAL_MS;
          step = clamp 1 mx (millis_ceil granularity);
          ttl = max (saturating_mul_u128 (div_ceil (millis_ceil dly) step) step) step
      in if ttl \<le> mx then Some (if ttl < 2 ^ 32 then of_nat ttl else MAX_DEFERRAL_MS) else None)"

definition i64_try_from :: "nat \<Rightarrow> int option" where
  "i64_try_from n = (if n < 2 ^ 63 then Some (int n) else None)"

definition ttl_millis :: "duration \<Rightarrow> int" where
  "ttl_millis ttl = (let ms = clamp 1 (unat MAX_TTL_MS) (div_ceil ttl 1000000)
     in case i64_try_from ms of Some i \<Rightarrow> i | None \<Rightarrow> uint MAX_TTL_MS)"

section \<open>Declaration arguments\<close>

datatype amqp_value =
    LongLongInt int
  | ShortShortUInt u8
  | LongUInt u32
  | LongString string

type_synonym field_table = "string \<Rightarrow> amqp_value option"

definition queue_args :: "queue_config \<Rightarrow> field_table" where
  "queue_args config =
     (let args = Map.empty;
          args = (case message_ttl config of
              Some ttl \<Rightarrow> args(ARG_MESSAGE_TTL \<mapsto> LongLongInt (ttl_millis ttl)) | None \<Rightarrow> args)
      in case max_priority config of
           Some levels \<Rightarrow> args(ARG_MAX_PRIORITY \<mapsto> ShortShortUInt levels) | None \<Rightarrow> args)"

definition deferred_queue_args :: "queue_config \<Rightarrow> u32 \<Rightarrow> field_table" where
  "deferred_queue_args config ttl_ms =
     (let expires = min (min (unat ttl_ms * 2) (2 ^ 64 - 1)) (unat MAX_TTL_MS)
      in [ARG_MESSAGE_TTL \<mapsto> LongLongInt (uint ttl_ms),
          ARG_DEAD_LETTER_EXCHANGE \<mapsto> LongString '''',
          ARG_DEAD_LETTER_ROUTING_KEY \<mapsto> LongString (qc_name config),
          ARG_EXPIRES \<mapsto> LongLongInt (case i64_try_from expires of
            Some i \<Rightarrow> i | None \<Rightarrow> uint MAX_TTL_MS)])"

record queue_declare_options =
  opt_passive :: bool
  opt_durable :: bool
  exclusive :: bool
  auto_delete :: bool
  nowait :: bool

definition declare_options :: "bool \<Rightarrow> queue_declare_options" where
  "declare_options d = \<lparr>opt_passive = False, opt_durable = d, exclusive = False, auto_delete = False,
     nowait = False\<rparr>"

definition dead_queue_args :: "queue_config \<Rightarrow> field_table" where
  "dead_queue_args config = Map.empty"

section \<open>Lemmas\<close>

text \<open>The step a granularity amounts to, and what rounding up to it gives.\<close>

definition hold_step :: "duration \<Rightarrow> nat" where
  "hold_step granularity = clamp 1 (unat MAX_DEFERRAL_MS) (millis_ceil granularity)"

lemma clamp_bounds: "lo \<le> hi \<Longrightarrow> lo \<le> clamp lo hi x \<and> clamp lo hi x \<le> hi"
  by (auto simp: clamp_def)

lemma hold_step_pos [simp]: "0 < hold_step g"
  using clamp_bounds [of 1 "unat MAX_DEFERRAL_MS" "millis_ceil g"] by (simp add: hold_step_def)

lemma millis_ceil_le_iff: "millis_ceil d \<le> n \<longleftrightarrow> d \<le> from_millis n"
proof
  assume "millis_ceil d \<le> n"
  then have "div_ceil d nanos_per_milli * nanos_per_milli \<le> n * nanos_per_milli"
    by (simp add: millis_ceil_def)
  with div_ceil_upper [of nanos_per_milli d] show "d \<le> from_millis n"
    by (simp add: from_millis_def nanos_per_milli_def)
next
  assume "d \<le> from_millis n"
  then show "millis_ceil d \<le> n"
    using div_ceil_least [of nanos_per_milli d n]
    by (simp add: from_millis_def nanos_per_milli_def millis_ceil_def)
qed

text \<open>How many steps a delay takes.\<close>

definition hold_steps :: "duration \<Rightarrow> duration \<Rightarrow> nat" where
  "hold_steps dly granularity = max 1 (div_ceil (millis_ceil dly) (hold_step granularity))"

lemma hold_steps_least:
  "1 \<le> k \<Longrightarrow> dly \<le> from_millis (k * hold_step g) \<longleftrightarrow> hold_steps dly g \<le> k"
proof -
  assume k: "1 \<le> k"
  have "dly \<le> from_millis (k * hold_step g) \<longleftrightarrow> millis_ceil dly \<le> k * hold_step g"
    by (simp add: millis_ceil_le_iff)
  also have "\<dots> \<longleftrightarrow> div_ceil (millis_ceil dly) (hold_step g) \<le> k"
    using div_ceil_least [OF hold_step_pos] div_ceil_upper [OF hold_step_pos, of "millis_ceil dly" g]
    by (meson le_trans mult_le_mono1)
  finally show ?thesis using k by (simp add: hold_steps_def)
qed

lemma hold_steps_enough: "dly \<le> from_millis (hold_steps dly g * hold_step g)"
  by (rule hold_steps_least [THEN iffD2]) (simp_all add: hold_steps_def)

lemma hold_steps_pos [simp]: "Suc 0 \<le> hold_steps dly g" "0 < hold_steps dly g"
  by (simp_all add: hold_steps_def)

lemma deferred_ttl_ms_step: "deferred_ttl_ms dly g =
    (let ttl = max (saturating_mul_u128 (div_ceil (millis_ceil dly) (hold_step g)) (hold_step g)) (hold_step g)
     in if ttl \<le> unat MAX_DEFERRAL_MS then Some (of_nat ttl) else None)"
proof -
  have small: "ttl \<le> unat MAX_DEFERRAL_MS \<Longrightarrow> ttl < 2 ^ 32" for ttl by simp
  show ?thesis unfolding deferred_ttl_ms_def hold_step_def Let_def
    by (intro if_cong refl) (simp only: small if_True)
qed

lemma deferred_ttl_ms_eq:
  "deferred_ttl_ms dly g = (if hold_steps dly g * hold_step g \<le> unat MAX_DEFERRAL_MS
     then Some (of_nat (hold_steps dly g * hold_step g)) else None)"
proof -
  let ?k = "div_ceil (millis_ceil dly) (hold_step g)" and ?s = "hold_step g"
  have m: "max (?k * ?s) ?s = hold_steps dly g * ?s"
  proof (cases "?k = 0")
    case False
    then have "1 \<le> ?k" by simp
    then have "?s \<le> ?k * ?s" using mult_le_mono1 [of 1 ?k ?s] by simp
    with \<open>1 \<le> ?k\<close> show ?thesis by (simp add: hold_steps_def max_absorb1 max_absorb2)
  qed (simp add: hold_steps_def)
  have cond: "max (saturating_mul_u128 ?k ?s) ?s \<le> unat MAX_DEFERRAL_MS
      \<longleftrightarrow> hold_steps dly g * ?s \<le> unat MAX_DEFERRAL_MS"
    unfolding m [symmetric] by (auto simp: saturating_mul_u128_def min_def)
  have val: "max (saturating_mul_u128 ?k ?s) ?s = hold_steps dly g * ?s"
    if "hold_steps dly g * ?s \<le> unat MAX_DEFERRAL_MS"
    using that unfolding m [symmetric] by (auto simp: saturating_mul_u128_def min_def)
  show ?thesis unfolding deferred_ttl_ms_step Let_def cond
    by (intro if_cong arg_cong [of _ _ "\<lambda>n. Some (of_nat n)"] refl val)
qed

lemma deferred_ttl_ms_Some:
  assumes "deferred_ttl_ms dly g = Some t"
  shows "unat t = hold_steps dly g * hold_step g" "unat t \<le> unat MAX_DEFERRAL_MS" "1 \<le> unat t"
proof -
  have le: "hold_steps dly g * hold_step g \<le> unat MAX_DEFERRAL_MS"
    and t: "t = of_nat (hold_steps dly g * hold_step g)"
    using assms by (auto simp: deferred_ttl_ms_eq split: if_splits)
  have "hold_steps dly g * hold_step g < 2 ^ LENGTH(32)" using le by simp
  then show u: "unat t = hold_steps dly g * hold_step g"
    unfolding t unat_of_nat by (rule mod_less)
  show "unat t \<le> unat MAX_DEFERRAL_MS" using le u by simp
  show "1 \<le> unat t" unfolding u using hold_step_pos [of g] by (simp add: Suc_le_eq)
qed

lemma dot_number_inj:
  assumes "xs @ ''.'' @ show_nat m = ys @ ''.'' @ show_nat n"
  shows "xs = ys \<and> m = n"
proof -
  have digits: "\<forall>c\<in>set (show_nat n). c \<noteq> CHR ''.''" for n
    using show_nat_digits by (fastforce simp: ascii_digit_def)
  have split: "takeWhile (\<lambda>c. c \<noteq> CHR ''.'') (rev (xs @ ''.'' @ show_nat n)) = rev (show_nat n)
      \<and> dropWhile (\<lambda>c. c \<noteq> CHR ''.'') (rev (xs @ ''.'' @ show_nat n)) = CHR ''.'' # rev xs" for xs n
    using digits [of n] by (simp add: takeWhile_append dropWhile_append)
  from split [of xs m] split [of ys n] assms have "rev (show_nat m) = rev (show_nat n)" "rev xs = rev ys"
    by (metis, metis list.inject)
  then show ?thesis by (simp add: show_nat_inj)
qed

lemma hold_name_inj: "deferred_queue_name q s t = deferred_queue_name q' s t' \<Longrightarrow> q = q' \<and> t = t'"
  using dot_number_inj [of "q @ s" "unat t" "q' @ s" "unat t'"]
  by (auto simp: deferred_queue_name_def dest: word_unat_eq_iff [THEN iffD2])

lemma hold_expires:
  assumes "t \<le> MAX_DEFERRAL_MS"
  shows "deferred_queue_args c t ARG_EXPIRES = Some (LongLongInt (2 * uint t))"
proof -
  have "unat t \<le> unat MAX_DEFERRAL_MS" using assms by (simp only: word_le_nat_alt)
  then have "min (min (unat t * 2) (2 ^ 64 - 1)) (unat MAX_TTL_MS) = unat t * 2" "unat t * 2 < 2 ^ 63"
    by simp_all
  then show ?thesis
    by (simp only: deferred_queue_args_def Let_def i64_try_from_def arg_defs) simp
qed

lemma hold_args_lookup:
  "deferred_queue_args c t ARG_MESSAGE_TTL = Some (LongLongInt (uint t))"
  "deferred_queue_args c t ARG_DEAD_LETTER_EXCHANGE = Some (LongString '''')"
  "deferred_queue_args c t ARG_DEAD_LETTER_ROUTING_KEY = Some (LongString (qc_name c))"
  "deferred_queue_args c t ARG_MAX_PRIORITY = None"
  "t \<le> MAX_DEFERRAL_MS \<Longrightarrow> deferred_queue_args c t ARG_EXPIRES = Some (LongLongInt (2 * uint t))"
proof -
  show "t \<le> MAX_DEFERRAL_MS \<Longrightarrow> deferred_queue_args c t ARG_EXPIRES = Some (LongLongInt (2 * uint t))"
    by (rule hold_expires)
qed (simp_all add: deferred_queue_args_def arg_defs Let_def)

section \<open>Properties\<close>

text \<open>C37: The lifetime of a hold queue is the least positive multiple of the granularity's step that is
  no shorter than the delay, so a job is never released early; a delay is refused exactly when that
  multiple exceeds what a hold queue can wait.\<close>

theorem hold_ttl_is_least_multiple:
  "case deferred_ttl_ms dly g of
     Some t \<Rightarrow> dly \<le> from_millis (unat t) \<and> t \<le> MAX_DEFERRAL_MS
       \<and> (\<exists>k\<ge>1. unat t = k * hold_step g \<and> (\<forall>j\<ge>1. dly \<le> from_millis (j * hold_step g) \<longrightarrow> k \<le> j))
   | None \<Rightarrow> \<forall>j\<ge>1. dly \<le> from_millis (j * hold_step g) \<longrightarrow> unat MAX_DEFERRAL_MS < j * hold_step g"
proof (cases "deferred_ttl_ms dly g")
  case None
  then have "unat MAX_DEFERRAL_MS < hold_steps dly g * hold_step g"
    by (auto simp: deferred_ttl_ms_eq split: if_splits)
  then have "unat MAX_DEFERRAL_MS < j * hold_step g"
    if "1 \<le> j" "dly \<le> from_millis (j * hold_step g)" for j
    using hold_steps_least [OF that(1)] that(2) by (meson less_le_trans mult_le_mono1)
  with None show ?thesis by simp
next
  case (Some t)
  note u = deferred_ttl_ms_Some [OF Some]
  have "dly \<le> from_millis (unat t)"
    unfolding u(1) by (rule hold_steps_enough)
  moreover have "t \<le> MAX_DEFERRAL_MS" using u(2) by (simp only: word_le_nat_alt)
  moreover have "\<exists>k\<ge>1. unat t = k * hold_step g
      \<and> (\<forall>j\<ge>1. dly \<le> from_millis (j * hold_step g) \<longrightarrow> k \<le> j)"
    by (intro exI [of _ "hold_steps dly g"]) (auto simp: u(1) hold_steps_least)
  ultimately show ?thesis using Some by simp
qed

text \<open>A delay of 29.2 seconds waits 30, and one of 30 days is refused.\<close>

theorem hold_ttl_is_least_multiple_witness:
  "deferred_ttl_ms 29200000000 (from_secs 1) = Some 30000 \<and> 29200000000 \<le> from_millis 30000
    \<and> deferred_ttl_ms (from_secs (30 * 86400)) (from_secs 1) = None
    \<and> unat MAX_DEFERRAL_MS < 2592000 * hold_step (from_secs 1)"
proof -
  have s: "hold_step (from_secs 1) = 1000"
    by (simp add: hold_step_def clamp_def millis_ceil_def div_ceil_def from_secs_def nanos_per_sec_def nanos_per_milli_def)
  have a: "deferred_ttl_ms 29200000000 (from_secs 1) = Some 30000"
    "deferred_ttl_ms (from_secs (30 * 86400)) (from_secs 1) = None"
    unfolding deferred_ttl_ms_eq hold_steps_def s
    by (simp_all add: millis_ceil_def div_ceil_def from_secs_def nanos_per_sec_def nanos_per_milli_def)
  with hold_ttl_is_least_multiple [of 29200000000 "from_secs 1"]
    hold_ttl_is_least_multiple [of "from_secs (30 * 86400)" "from_secs 1"] s
  show ?thesis by (auto simp: from_millis_def from_secs_def nanos_per_sec_def nanos_per_milli_def)
qed

text \<open>Hold queues never disagree: two waits that name the same hold queue, whatever their delays,
  granularities and configurations, belong to one main queue and declare it with the same arguments; it
  returns its messages to that queue and outlives every message it holds.\<close>

theorem hold_queue_is_determined_by_its_name:
  assumes "deferred_queue_name (qc_name c) s t = deferred_queue_name (qc_name c') s t'"
    and "deferred_ttl_ms dly g = Some t"
  shows "deferred_queue_args c t = deferred_queue_args c' t' \<and> qc_name c = qc_name c'
    \<and> deferred_queue_args c t ARG_DEAD_LETTER_ROUTING_KEY = Some (LongString (qc_name c))
    \<and> (\<exists>ttl expires. deferred_queue_args c t ARG_MESSAGE_TTL = Some (LongLongInt ttl)
      \<and> deferred_queue_args c t ARG_EXPIRES = Some (LongLongInt expires)
      \<and> int dly \<le> ttl * 1000000 \<and> ttl < expires \<and> expires \<le> uint MAX_TTL_MS)"
proof -
  note inj = hold_name_inj [OF assms(1)] and u = deferred_ttl_ms_Some [OF assms(2)]
  have args: "deferred_queue_args c t = deferred_queue_args c' t'" "qc_name c = qc_name c'"
    using inj by (simp_all add: deferred_queue_args_def)
  have "t \<le> MAX_DEFERRAL_MS" using u(2) by (simp only: word_le_nat_alt)
  moreover have "dly \<le> unat t * 1000000"
    using hold_steps_enough [of dly g] u(1) by (simp add: from_millis_def nanos_per_milli_def)
  moreover have ui: "uint t = int (unat t)" by simp
  ultimately have "t \<le> MAX_DEFERRAL_MS" "int dly \<le> uint t * 1000000" "1 \<le> uint t"
    "uint t \<le> 2147483647" using u(2,3) unat_MAX(2) by linarith+
  moreover have "uint MAX_TTL_MS = 4294967295" by (simp add: MAX_TTL_MS_def)
  ultimately have "\<exists>ttl expires. deferred_queue_args c t ARG_MESSAGE_TTL = Some (LongLongInt ttl)
      \<and> deferred_queue_args c t ARG_EXPIRES = Some (LongLongInt expires)
      \<and> int dly \<le> ttl * 1000000 \<and> ttl < expires \<and> expires \<le> uint MAX_TTL_MS"
    by (intro exI [of _ "uint t"] exI [of _ "2 * uint t"]) (simp add: hold_args_lookup)
  with args show ?thesis by (simp add: hold_args_lookup)
qed

theorem hold_queue_is_determined_by_its_name_witness:
  "deferred_queue_args (queue_config_new ''q'') 30000
     = deferred_queue_args (set_prefetch 1 (queue_config_new ''q'')) 30000"
proof -
  have "deferred_ttl_ms 29200000000 (from_secs 1) = Some 30000"
    by (simp add: deferred_ttl_ms_step hold_step_def clamp_def millis_ceil_def div_ceil_def
        saturating_mul_u128_def from_secs_def nanos_per_sec_def nanos_per_milli_def Let_def)
  then show ?thesis
    using hold_queue_is_determined_by_its_name [of "queue_config_new ''q''" DEFAULT_DEFERRED_SUFFIX 30000
        "set_prefetch 1 (queue_config_new ''q'')" 30000 29200000000 "from_secs 1"]
    by (simp add: queue_config_new_def set_prefetch_def)
qed

end
