(* ===== verification/Codec.thy ===== *)
theory Codec
  imports Topology Envelope
begin

text \<open>
  \<open>crates/rabbitmq/src/codec.rs\<close>: the AMQP properties and headers an envelope is published with, and
  the truncation of over-long values at a character boundary. A string is its UTF-8 bytes, so a
  boundary is a position that does not hold a continuation byte. The textual form of a job id belongs
  to the \<open>uuid\<close> crate and is an argument.
\<close>

definition CONTENT_TYPE_JSON :: string where "CONTENT_TYPE_JSON = ''application/json''"
definition DELIVERY_MODE_PERSISTENT :: u8 where "DELIVERY_MODE_PERSISTENT = 2"
definition REASON_MALFORMED :: string where "REASON_MALFORMED = ''malformed envelope''"
definition MAX_SHORT_STRING_LENGTH :: nat where "MAX_SHORT_STRING_LENGTH = 255"

section \<open>Truncation\<close>

definition continuation_byte :: "char \<Rightarrow> bool" where
  "continuation_byte c \<longleftrightarrow> 128 \<le> (of_char c :: nat) \<and> (of_char c :: nat) < 192"

text \<open>\<open>str::is_char_boundary\<close>.\<close>

definition is_char_boundary :: "string \<Rightarrow> nat \<Rightarrow> bool" where
  "is_char_boundary s i \<longleftrightarrow> i = 0 \<or> i = length s \<or> (i < length s \<and> \<not> continuation_byte (s ! i))"

fun back_to_boundary :: "string \<Rightarrow> nat \<Rightarrow> nat" where
  "back_to_boundary s 0 = 0"
| "back_to_boundary s (Suc n) = (if is_char_boundary s (Suc n) then Suc n else back_to_boundary s n)"

definition truncate_at_boundary :: "string \<Rightarrow> nat \<Rightarrow> string" where
  "truncate_at_boundary s mx = (if length s \<le> mx then s else take (back_to_boundary s mx) s)"

definition clamped :: "string \<Rightarrow> string" where
  "clamped s = truncate_at_boundary s MAX_SHORT_STRING_LENGTH"

section \<open>Properties and headers\<close>

record basic_properties =
  content_type :: "string option"
  delivery_mode :: "u8 option"
  message_id :: "string option"
  msg_type :: "string option"
  msg_priority :: "u8 option"
  expiration :: "string option"
  headers :: "field_table option"

definition props_default :: basic_properties where
  "props_default = \<lparr>content_type = None, delivery_mode = None, message_id = None, msg_type = None,
     msg_priority = None, expiration = None, headers = None\<rparr>"

definition base_headers :: "envelope \<Rightarrow> field_table" where
  "base_headers e = [HEADER_ATTEMPT \<mapsto> LongUInt (attempt e), HEADER_DEFERRALS \<mapsto> LongUInt (deferrals e)]"

definition props_for :: "(uuid \<Rightarrow> string) \<Rightarrow> envelope \<Rightarrow> basic_properties" where
  "props_for show_uuid e = props_default\<lparr>content_type := Some CONTENT_TYPE_JSON,
     delivery_mode := Some DELIVERY_MODE_PERSISTENT,
     message_id := Some (clamped (show_uuid (job_id e))),
     msg_type := Some (clamped (job_type e)),
     msg_priority := Some (priority e),
     headers := Some (base_headers e)\<rparr>"

definition dead_letter_headers :: "envelope \<Rightarrow> string \<Rightarrow> field_table" where
  "dead_letter_headers e reason = (base_headers e)
     (HEADER_DEATH_REASON \<mapsto> LongString reason,
      HEADER_ORIGINAL_QUEUE \<mapsto> LongString (queue e),
      HEADER_ATTEMPTS \<mapsto> LongUInt (attempt e))"

definition dead_letter_props :: "(uuid \<Rightarrow> string) \<Rightarrow> envelope \<Rightarrow> string \<Rightarrow> basic_properties" where
  "dead_letter_props show_uuid e reason =
     (props_for show_uuid e)\<lparr>headers := Some (dead_letter_headers e reason)\<rparr>"

definition malformed_props :: "string \<Rightarrow> string \<Rightarrow> basic_properties" where
  "malformed_props original_queue reason = props_default\<lparr>
     delivery_mode := Some DELIVERY_MODE_PERSISTENT,
     headers := Some [HEADER_DEATH_REASON \<mapsto> LongString reason,
       HEADER_ORIGINAL_QUEUE \<mapsto> LongString original_queue]\<rparr>"

text \<open>Whether a message says why it died: what tells a dead letter from work.\<close>

definition says_death_reason :: "basic_properties \<Rightarrow> bool" where
  "says_death_reason p = (case headers p of None \<Rightarrow> False | Some h \<Rightarrow> h HEADER_DEATH_REASON \<noteq> None)"

section \<open>Lemmas\<close>

lemma back_to_boundary_le: "back_to_boundary s n \<le> n"
  by (induction n) (auto intro: le_SucI)

lemma back_to_boundary_boundary: "is_char_boundary s (back_to_boundary s n)"
  by (induction n) (auto simp: is_char_boundary_def [of s 0])

lemma back_to_boundary_greatest: "is_char_boundary s i \<Longrightarrow> i \<le> n \<Longrightarrow> i \<le> back_to_boundary s n"
proof (induction n)
  case (Suc n)
  show ?case
  proof (cases "i = Suc n")
    case True
    with Suc.prems show ?thesis by simp
  next
    case False
    with Suc have "i \<le> back_to_boundary s n" by simp
    with back_to_boundary_le [of s n] show ?thesis by auto
  qed
qed simp

lemma truncate_take:
  "\<exists>n. truncate_at_boundary s mx = take n s \<and> n \<le> length s \<and> n \<le> mx \<and> is_char_boundary s n
     \<and> (\<forall>i. is_char_boundary s i \<longrightarrow> i \<le> length s \<longrightarrow> i \<le> mx \<longrightarrow> i \<le> n)"
proof (cases "length s \<le> mx")
  case True
  then show ?thesis
    by (intro exI [of _ "length s"]) (auto simp: truncate_at_boundary_def is_char_boundary_def)
next
  case False
  with back_to_boundary_le [of s mx] back_to_boundary_boundary [of s mx] back_to_boundary_greatest [of s _ mx]
  show ?thesis
    by (intro exI [of _ "back_to_boundary s mx"]) (auto simp: truncate_at_boundary_def)
qed

lemma length_truncate: "length (truncate_at_boundary s mx) \<le> mx"
  using truncate_take [of s mx] by auto

lemma length_clamped: "length (clamped s) \<le> MAX_SHORT_STRING_LENGTH"
  by (simp add: clamped_def length_truncate)

lemma death_reason_simps [simp]:
  "\<not> says_death_reason (props_for u e)"
  "says_death_reason (dead_letter_props u e r)"
  "says_death_reason (malformed_props q r)"
  by (simp_all add: says_death_reason_def props_for_def dead_letter_props_def dead_letter_headers_def
      malformed_props_def base_headers_def header_defs)

section \<open>Properties\<close>

text \<open>Truncating keeps the longest prefix that fits and does not split a character; a value that
  fits is kept whole. In particular no header of a message is ever longer than AMQP allows.\<close>

theorem truncation_is_longest_whole_prefix:
  "(\<exists>n. truncate_at_boundary s mx = take n s \<and> n \<le> mx \<and> is_char_boundary s n \<and> n \<le> length s
      \<and> (\<forall>i. \<not> (n < i \<and> i \<le> mx \<and> i \<le> length s \<and> is_char_boundary s i)))
   \<and> (if length s \<le> mx then truncate_at_boundary s mx = s else True)
   \<and> (\<exists>mid ty. message_id (props_for u e) = Some mid \<and> msg_type (props_for u e) = Some ty
      \<and> length mid \<le> 255 \<and> length ty \<le> 255)"
proof -
  obtain n where "truncate_at_boundary s mx = take n s" "n \<le> length s" "n \<le> mx" "is_char_boundary s n"
    "\<forall>i. is_char_boundary s i \<longrightarrow> i \<le> length s \<longrightarrow> i \<le> mx \<longrightarrow> i \<le> n"
    using truncate_take [of s mx] by blast
  then have "\<exists>n. truncate_at_boundary s mx = take n s \<and> n \<le> mx \<and> is_char_boundary s n \<and> n \<le> length s
      \<and> (\<forall>i. \<not> (n < i \<and> i \<le> mx \<and> i \<le> length s \<and> is_char_boundary s i))"
    by (intro exI [of _ n]) (auto simp: not_less)
  moreover have "\<exists>mid ty. message_id (props_for u e) = Some mid \<and> msg_type (props_for u e) = Some ty
      \<and> length mid \<le> 255 \<and> length ty \<le> 255"
    using length_clamped by (auto simp: props_for_def MAX_SHORT_STRING_LENGTH_def)
  ultimately show ?thesis by (auto simp: truncate_at_boundary_def)
qed

end
