(* ===== verification/Rmq_Error.thy ===== *)
theory Rmq_Error
  imports Codec
begin

text \<open>
  \<open>crates/rabbitmq/src/error.rs\<close>: the failures of the RabbitMQ backend, how they become errors of the
  core crate, and the conversion of a name to an AMQP short string. Of an error of the AMQP client only
  what the source looks at is kept: whether it reports a channel or a connection in a wrong state.
  \<open>show_rmq_error\<close> is the \<open>Display\<close> derived from the \<open>#[error(..)]\<close> attributes; the texts of a duration and
  of a short-string error are other crates' and are arguments.
\<close>

datatype lapin_state = StClosing | StClosed | StOther string

datatype lapin_error =
    InvalidChannelState lapin_state
  | InvalidConnectionState lapin_state
  | OtherLapinError string

datatype rmq_error =
    Nacked string
  | Returned u16 string string
  | ConfirmsNotEnabled string
  | AlreadySettled string string string
  | InvalidName string
  | DelayTooLong duration duration
  | DeferredNameTooLong string string nat nat
  | ConnectionLost
  | ReconnectExhausted u32 "lapin_error option"
  | BackendClosed
  | TlsUnavailable

datatype backend_error = Lapin lapin_error | Rmq rmq_error

type_synonym core_error = "backend_error error"

definition amqp :: "lapin_error \<Rightarrow> core_error" where
  "amqp e = Backend (Lapin e)"

definition into_core :: "rmq_error \<Rightarrow> core_error" where
  "into_core e = Backend (Rmq e)"

lemma error_inject [simp]:
  "into_core a = into_core b \<longleftrightarrow> a = b" "amqp x = amqp y \<longleftrightarrow> x = y"
  "amqp x \<noteq> into_core a" "into_core a \<noteq> amqp x"
  by (simp_all add: into_core_def amqp_def)

fun show_rmq_error :: "(duration \<Rightarrow> string) \<Rightarrow> (string \<Rightarrow> string) \<Rightarrow> rmq_error \<Rightarrow> string" where
  "show_rmq_error dbg short (Nacked q) = ''broker nacked the message published to `'' @ q @ ''`''"
| "show_rmq_error dbg short (Returned code txt key) =
     ''broker returned the message published to `'' @ key @ ''` as unroutable: ''
     @ show_nat (unat code) @ '' '' @ txt"
| "show_rmq_error dbg short (ConfirmsNotEnabled q) =
     ''publisher confirms are not enabled; cannot confirm publish to `'' @ q @ ''`''"
| "show_rmq_error dbg short (AlreadySettled operation j q) =
     ''cannot '' @ operation @ '' delivery of job `'' @ j @ ''` on `'' @ q
     @ ''`: it was already settled or its channel is gone''"
| "show_rmq_error dbg short (InvalidName n) = ''invalid AMQP name `'' @ n @ ''`: '' @ short n"
| "show_rmq_error dbg short (DelayTooLong requested mx) =
     ''delay of '' @ dbg requested @ '' is longer than a hold queue can wait ('' @ dbg mx
     @ ''); it was refused rather than released early''"
| "show_rmq_error dbg short (DeferredNameTooLong q hold len limit) =
     ''queue `'' @ q @ ''` leaves no room for its hold queues: `'' @ hold @ ''` is '' @ show_nat len
     @ '' bytes, over the '' @ show_nat limit @ ''-byte AMQP limit''"
| "show_rmq_error dbg short ConnectionLost =
     ''the rabbitmq connection is gone and reconnection is disabled''"
| "show_rmq_error dbg short (ReconnectExhausted attempts source) =
     ''could not reconnect to rabbitmq after '' @ show_nat (unat attempts) @ '' attempts''"
| "show_rmq_error dbg short BackendClosed = ''the rabbitmq backend is closed''"
| "show_rmq_error dbg short TlsUnavailable =
     ''`amqps://` needs a TLS backend, but queuey-rabbitmq was built without one; enable its `rustls`, `native-tls` or `openssl` feature''"

definition short_string :: "string \<Rightarrow> core_error + string" where
  "short_string v = (if length v \<le> MAX_SHORT_STRING_LENGTH then Inr v else Inl (into_core (InvalidName v)))"

text \<open>\<open>is_benign_close_error\<close> of \<open>backend.rs\<close>: the client only says it is closing already.\<close>

fun is_benign_close_error :: "lapin_error \<Rightarrow> bool" where
  "is_benign_close_error (InvalidChannelState st) \<longleftrightarrow> st = StClosing \<or> st = StClosed"
| "is_benign_close_error (InvalidConnectionState st) \<longleftrightarrow> st = StClosing \<or> st = StClosed"
| "is_benign_close_error (OtherLapinError e) \<longleftrightarrow> False"

lemma short_string_ok [simp]: "short_string v = Inr w \<longleftrightarrow> w = v \<and> length v \<le> MAX_SHORT_STRING_LENGTH"
  by (auto simp: short_string_def)

lemma short_string_clamped [simp]: "short_string (clamped v) = Inr (clamped v)"
  by (simp add: length_clamped)

section \<open>Names with room for their hold queues\<close>

text \<open>\<open>check_deferrable_name\<close> of \<open>backend.rs\<close>.\<close>

definition check_deferrable_name :: "string \<Rightarrow> string \<Rightarrow> core_error + unit" where
  "check_deferrable_name q suffix =
     (let hold = deferred_queue_name q suffix MAX_DEFERRAL_MS
      in if length hold \<le> MAX_SHORT_STRING_LENGTH then Inr ()
         else Inl (into_core (DeferredNameTooLong q hold (length hold) MAX_SHORT_STRING_LENGTH)))"

lemma longest_hold_name:
  "deferred_ttl_ms dly g = Some t \<Longrightarrow>
     length (deferred_queue_name q s t) \<le> length (deferred_queue_name q s MAX_DEFERRAL_MS)"
  using deferred_ttl_ms_Some(2) [of dly g t] length_show_nat_mono [of "unat t" "unat MAX_DEFERRAL_MS"]
  by (simp add: deferred_queue_name_def)

text \<open>A queue name that passes the check at declare time never fails a retry or deferral because of
  its name: whatever the delay and the granularity, if the delay can be held at all then its hold
  queue's name is a valid short string, and so is the queue's own.\<close>

theorem checked_name_is_always_deferrable:
  assumes "check_deferrable_name q suffix = Inr ()" "deferred_ttl_ms dly g = Some t"
  shows "short_string (deferred_queue_name q suffix t) = Inr (deferred_queue_name q suffix t)
    \<and> short_string q = Inr q"
proof -
  have "length (deferred_queue_name q suffix MAX_DEFERRAL_MS) \<le> MAX_SHORT_STRING_LENGTH"
    using assms(1) by (auto simp: check_deferrable_name_def Let_def split: if_splits)
  with longest_hold_name [OF assms(2), of q suffix] show ?thesis
    by (simp add: deferred_queue_name_def)
qed

theorem checked_name_is_always_deferrable_witness:
  "short_string (deferred_queue_name ''jobs'' DEFAULT_DEFERRED_SUFFIX 30000)
     = Inr (deferred_queue_name ''jobs'' DEFAULT_DEFERRED_SUFFIX 30000)"
proof -
  have "deferred_ttl_ms 29200000000 (from_secs 1) = Some 30000"
    by (simp add: deferred_ttl_ms_step hold_step_def clamp_def millis_ceil_def div_ceil_def
        saturating_mul_u128_def from_secs_def nanos_per_sec_def nanos_per_milli_def Let_def)
  moreover have "check_deferrable_name ''jobs'' DEFAULT_DEFERRED_SUFFIX = Inr ()"
    by (simp add: check_deferrable_name_def deferred_queue_name_def DEFAULT_DEFERRED_SUFFIX_def
        MAX_SHORT_STRING_LENGTH_def show_nat.simps)
  ultimately show ?thesis using checked_name_is_always_deferrable by blast
qed

end
