(* ===== verification/Reconnect.thy ===== *)
theory Reconnect
  imports Rmq_Error
begin

text \<open>
  \<open>crates/rabbitmq/src/reconnect.rs\<close>: what a reconnect policy is asked, the policy itself (a function;
  \<open>None\<close> when the call panics, which the built-in one does only if the random source does), and the
  built-in backoff policy.
\<close>

datatype rebuilding = RebuildConnection | RebuildConsumer

text \<open>The last failure: the client's error for a connection, an error of the core crate for a consumer.\<close>

datatype attempt_error = DialFailed lapin_error | SubscribeFailed core_error

record attempt_info =
  at_failures :: u32
  at_error :: "attempt_error option"
  at_rebuilding :: rebuilding

definition attempt_first :: "rebuilding \<Rightarrow> attempt_info" where
  "attempt_first r = \<lparr>at_failures = 0, at_error = None, at_rebuilding = r\<rparr>"

definition attempt_after :: "rebuilding \<Rightarrow> u32 \<Rightarrow> attempt_error \<Rightarrow> attempt_info" where
  "attempt_after r n e = \<lparr>at_failures = n, at_error = Some e, at_rebuilding = r\<rparr>"

type_synonym reconnect_policy = "attempt_info \<Rightarrow> duration option option"

record backoff_policy =
  bp_max_attempts :: "u32 option"
  bp_backoff :: backoff

definition DEFAULT_BASE :: duration where "DEFAULT_BASE = from_millis 500"
definition DEFAULT_MAX :: duration where "DEFAULT_MAX = from_secs 30"

definition backoff_policy_default :: backoff_policy where
  "backoff_policy_default = \<lparr>bp_max_attempts = None,
     bp_backoff = exponential_with DEFAULT_BASE (Fin 2) DEFAULT_MAX True\<rparr>"

definition set_max_attempts :: "u32 option \<Rightarrow> backoff_policy \<Rightarrow> backoff_policy" where
  "set_max_attempts n b = b\<lparr>bp_max_attempts := n\<rparr>"

definition set_backoff :: "backoff \<Rightarrow> backoff_policy \<Rightarrow> backoff_policy" where
  "set_backoff x b = b\<lparr>bp_backoff := x\<rparr>"

definition next_delay :: "platform \<Rightarrow> backoff_policy \<Rightarrow> reconnect_policy" where
  "next_delay pf b a =
     (if \<exists>mx. bp_max_attempts b = Some mx \<and> mx \<le> at_failures a then Some None
      else if at_failures a = 0 then Some (Some 0)
      else map_option Some (delay_for pf (bp_backoff b) (at_failures a)))"

lemma next_delay_code [code]:
  "next_delay pf b a =
     (if (case bp_max_attempts b of None \<Rightarrow> False | Some mx \<Rightarrow> mx \<le> at_failures a) then Some None
      else if at_failures a = 0 then Some (Some 0)
      else map_option Some (delay_for pf (bp_backoff b) (at_failures a)))"
  by (auto simp: next_delay_def split: option.split)

definition default_reconnect :: "platform \<Rightarrow> reconnect_policy" where
  "default_reconnect pf = next_delay pf backoff_policy_default"

text \<open>What a bound on the attempts means for any policy: beyond it, the answer is no.\<close>

definition gives_up_after :: "u32 \<Rightarrow> reconnect_policy \<Rightarrow> bool" where
  "gives_up_after n pol \<longleftrightarrow> (\<forall>a. n \<le> at_failures a \<longrightarrow> pol a = Some None) \<and> (\<forall>a. pol a \<noteq> None)"

lemma next_delay_gives_up:
  assumes "rng_ok pf" "bp_max_attempts b = Some n"
  shows "gives_up_after n (next_delay pf b)"
proof -
  have "\<exists>d. delay_for pf (bp_backoff b) k = Some d" for k
    using delay_for_total [OF assms(1)] by blast
  then show ?thesis using assms(2) by (auto simp: gives_up_after_def next_delay_def)
qed

end
