(* ===== verification/Rmq_Options.thy ===== *)
theory Rmq_Options
  imports Reconnect
begin

text \<open>
  \<open>crates/rabbitmq/src/options.rs\<close>: the tunables of the RabbitMQ backend, their defaults and builders.
  Of the handshake properties only the connection's name is configurable, so that is what they are.
\<close>

definition DEFAULT_GRANULARITY :: duration where "DEFAULT_GRANULARITY = from_secs 1"
definition DEFAULT_PUBLISH_CONCURRENCY :: nat where "DEFAULT_PUBLISH_CONCURRENCY = 8"

record rmq_options =
  connection_name :: "string option"
  dead_suffix :: string
  declare_dead_letter_queues :: bool
  deferred_suffix :: string
  retry_granularity :: duration
  deferred_granularity :: duration
  publish_concurrency :: nat
  reconnect :: "reconnect_policy option"

definition options_default :: "platform \<Rightarrow> rmq_options" where
  "options_default pf = \<lparr>connection_name = None, dead_suffix = DEFAULT_DEAD_SUFFIX,
     declare_dead_letter_queues = True, deferred_suffix = DEFAULT_DEFERRED_SUFFIX,
     retry_granularity = DEFAULT_GRANULARITY, deferred_granularity = DEFAULT_GRANULARITY,
     publish_concurrency = DEFAULT_PUBLISH_CONCURRENCY, reconnect = Some (default_reconnect pf)\<rparr>"

definition set_connection_name :: "string \<Rightarrow> rmq_options \<Rightarrow> rmq_options" where
  "set_connection_name n opts = opts\<lparr>connection_name := Some n\<rparr>"

definition handshake_properties :: "rmq_options \<Rightarrow> string option" where
  "handshake_properties opts = (case connection_name opts of Some n \<Rightarrow> Some n | None \<Rightarrow> None)"

definition set_dead_suffix :: "string \<Rightarrow> rmq_options \<Rightarrow> rmq_options" where
  "set_dead_suffix x opts = opts\<lparr>dead_suffix := x\<rparr>"

definition set_declare_dead_letter_queues :: "bool \<Rightarrow> rmq_options \<Rightarrow> rmq_options" where
  "set_declare_dead_letter_queues b opts = opts\<lparr>declare_dead_letter_queues := b\<rparr>"

definition set_deferred_suffix :: "string \<Rightarrow> rmq_options \<Rightarrow> rmq_options" where
  "set_deferred_suffix x opts = opts\<lparr>deferred_suffix := x\<rparr>"

definition set_retry_granularity :: "duration \<Rightarrow> rmq_options \<Rightarrow> rmq_options" where
  "set_retry_granularity d opts = opts\<lparr>retry_granularity := d\<rparr>"

definition set_deferred_granularity :: "duration \<Rightarrow> rmq_options \<Rightarrow> rmq_options" where
  "set_deferred_granularity d opts = opts\<lparr>deferred_granularity := d\<rparr>"

definition set_publish_concurrency :: "nat \<Rightarrow> rmq_options \<Rightarrow> rmq_options" where
  "set_publish_concurrency n opts = opts\<lparr>publish_concurrency := n\<rparr>"

definition set_reconnect :: "reconnect_policy option \<Rightarrow> rmq_options \<Rightarrow> rmq_options" where
  "set_reconnect p opts = opts\<lparr>reconnect := p\<rparr>"

definition reconnect_with :: "reconnect_policy \<Rightarrow> rmq_options \<Rightarrow> rmq_options" where
  "reconnect_with p opts = opts\<lparr>reconnect := Some p\<rparr>"

text \<open>\<open>pool_size\<close> of \<open>publisher.rs\<close>: the number of publishing channels as a \<open>u32\<close>, at least one.\<close>

definition pool_size :: "rmq_options \<Rightarrow> nat" where
  "pool_size opts = max (if publish_concurrency opts < 2 ^ 32 then publish_concurrency opts else 2 ^ 32 - 1) 1"

lemma pool_size_pos [simp]: "0 < pool_size opts"
  by (simp add: pool_size_def)

text \<open>Why a message is held, and the step its delay is rounded up to.\<close>

datatype hold = HoldRetry | HoldDeferral

fun granularity :: "hold \<Rightarrow> rmq_options \<Rightarrow> duration" where
  "granularity HoldRetry opts = retry_granularity opts"
| "granularity HoldDeferral opts = deferred_granularity opts"

fun log_message :: "hold \<Rightarrow> string" where
  "log_message HoldRetry = ''holding job for a delayed redelivery''"
| "log_message HoldDeferral = ''deferring job''"

end
