(* ===== verification/Confirm_Pool.thy ===== *)
theory Confirm_Pool
  imports Rmq_Options
begin

text \<open>
  \<open>ConfirmChannels\<close> and \<open>ChannelLease\<close> of \<open>crates/rabbitmq/src/publisher.rs\<close>: the pool of publishing
  channels, its semaphore and the leases taken from it. The operations come first; then the pool with
  any number of publishers working on it at once, as a step relation. A channel is the identity of its
  handle. What a step does is one access to the semaphore or to the idle list.
\<close>

record pool =
  pl_idle :: "nat list"
  pl_free :: nat
  pl_size :: nat
  pl_closed :: bool

definition pool_new :: "nat \<Rightarrow> nat \<Rightarrow> pool" where
  "pool_new seed sz = \<lparr>pl_idle = [seed], pl_free = sz, pl_size = sz, pl_closed = False\<rparr>"

text \<open>\<open>permits.acquire()\<close>: fails when closed, waits (\<open>None\<close>) while there is no permit.\<close>

definition take_permit :: "pool \<Rightarrow> (core_error + pool) option" where
  "take_permit p = (if pl_closed p then Some (Inl (into_core BackendClosed))
     else if 0 < pl_free p then Some (Inr (p\<lparr>pl_free := pl_free p - 1\<rparr>)) else None)"

definition release_permit :: "pool \<Rightarrow> pool" where
  "release_permit p = p\<lparr>pl_free := pl_free p + 1\<rparr>"

text \<open>\<open>Vec::pop\<close>.\<close>

definition pop_idle :: "pool \<Rightarrow> nat option \<times> pool" where
  "pop_idle p = (if pl_idle p = [] then (None, p)
     else (Some (last (pl_idle p)), p\<lparr>pl_idle := butlast (pl_idle p)\<rparr>))"

definition push_idle :: "nat \<Rightarrow> pool \<Rightarrow> pool" where
  "push_idle c p = p\<lparr>pl_idle := pl_idle p @ [c]\<rparr>"

text \<open>Dropping a lease: its channel goes back first, then its permit.\<close>

definition drop_lease :: "nat \<Rightarrow> pool \<Rightarrow> pool" where
  "drop_lease c p = release_permit (push_idle c p)"

text \<open>\<open>close\<close>: every permit is taken (which waits for every lease to be over) unless the semaphore is
  closed already; then it is closed and the channels taken out.\<close>

definition take_all_permits :: "pool \<Rightarrow> pool option" where
  "take_all_permits p = (if pl_closed p then Some p
     else if pl_size p \<le> pl_free p then Some (p\<lparr>pl_free := pl_free p - pl_size p\<rparr>) else None)"

definition shut_pool :: "pool \<Rightarrow> nat list \<times> pool" where
  "shut_pool p = (pl_idle p, p\<lparr>pl_closed := True, pl_idle := []\<rparr>)"

section \<open>Many publishers\<close>

text \<open>
  A publisher holds a permit and nothing else (it is opening a channel), or a lease. \<open>closer\<close> is the
  number of permits a \<open>close\<close> under way has taken. A channel handle the client library creates is a new
  one: different from every handle in use.
\<close>

record publishers =
  ps_pool :: pool
  ps_opening :: nat
  ps_leases :: "nat list"
  ps_closer :: nat

definition publishers_init :: "nat \<Rightarrow> nat \<Rightarrow> publishers" where
  "publishers_init seed sz = \<lparr>ps_pool = pool_new seed sz, ps_opening = 0, ps_leases = [], ps_closer = 0\<rparr>"

inductive pool_step :: "publishers \<Rightarrow> publishers \<Rightarrow> bool" where
  permit: "take_permit (ps_pool x) = Some (Inr p) \<Longrightarrow>
    pool_step x (x\<lparr>ps_pool := p, ps_opening := ps_opening x + 1\<rparr>)"
| lease_idle: "0 < ps_opening x \<Longrightarrow> pop_idle (ps_pool x) = (Some c, p) \<Longrightarrow>
    pool_step x (x\<lparr>ps_pool := p, ps_opening := ps_opening x - 1, ps_leases := c # ps_leases x\<rparr>)"
| discard_dead: "0 < ps_opening x \<Longrightarrow> pop_idle (ps_pool x) = (Some c, p) \<Longrightarrow>
    pool_step x (x\<lparr>ps_pool := p\<rparr>)"
| lease_new: "0 < ps_opening x \<Longrightarrow> c \<notin> set (pl_idle (ps_pool x)) \<Longrightarrow> c \<notin> set (ps_leases x) \<Longrightarrow>
    pool_step x (x\<lparr>ps_opening := ps_opening x - 1, ps_leases := c # ps_leases x\<rparr>)"
| open_failed: "0 < ps_opening x \<Longrightarrow>
    pool_step x (x\<lparr>ps_pool := release_permit (ps_pool x), ps_opening := ps_opening x - 1\<rparr>)"
| lease_over: "c \<in> set (ps_leases x) \<Longrightarrow>
    pool_step x (x\<lparr>ps_pool := drop_lease c (ps_pool x), ps_leases := remove1 c (ps_leases x)\<rparr>)"
| close_start: "\<not> pl_closed (ps_pool x) \<Longrightarrow> take_all_permits (ps_pool x) = Some p \<Longrightarrow>
    pool_step x (x\<lparr>ps_pool := p, ps_closer := pl_size p\<rparr>)"
| close_shut: "pl_closed (ps_pool x) \<or> ps_closer x = pl_size (ps_pool x) \<Longrightarrow> shut_pool (ps_pool x) = (cs, p) \<Longrightarrow>
    pool_step x (x\<lparr>ps_pool := p\<lparr>pl_free := pl_free p + ps_closer x\<rparr>, ps_closer := 0\<rparr>)"

inductive pool_reach :: "nat \<Rightarrow> nat \<Rightarrow> publishers \<Rightarrow> bool" for seed sz where
  init: "pool_reach seed sz (publishers_init seed sz)"
| step: "pool_reach seed sz x \<Longrightarrow> pool_step x y \<Longrightarrow> pool_reach seed sz y"

inductive_cases pool_stepE: "pool_step x y"

definition pool_inv :: "nat \<Rightarrow> publishers \<Rightarrow> bool" where
  "pool_inv sz x \<longleftrightarrow> pl_size (ps_pool x) = sz
     \<and> pl_free (ps_pool x) + ps_opening x + length (ps_leases x) + ps_closer x = sz
     \<and> distinct (pl_idle (ps_pool x) @ ps_leases x)
     \<and> (pl_closed (ps_pool x) \<longrightarrow> pl_idle (ps_pool x) = [] \<and> ps_opening x = 0 \<and> ps_leases x = [])"

lemma pop_idle_Some:
  "pop_idle p = (Some c, p') \<longleftrightarrow> (\<exists>cs. pl_idle p = cs @ [c] \<and> p' = p\<lparr>pl_idle := cs\<rparr>)"
  by (cases "pl_idle p" rule: rev_cases) (auto simp: pop_idle_def)

lemma pool_inv_init: "0 < sz \<Longrightarrow> pool_inv sz (publishers_init seed sz)"
  by (simp add: pool_inv_def publishers_init_def pool_new_def)

lemma pool_inv_step:
  assumes inv: "pool_inv sz x" and st: "pool_step x y"
  shows "pool_inv sz y"
  using st
proof (cases rule: pool_step.cases)
  case (lease_over c)
  then have "length (ps_leases x) = Suc (length (remove1 c (ps_leases x)))"
    by (auto simp: length_remove1 dest: length_pos_if_in_set)
  with lease_over inv show ?thesis
    by (auto simp: pool_inv_def drop_lease_def release_permit_def push_idle_def distinct_remove1
        dest: notin_set_remove1)
next
  case (close_start p)
  with inv have "ps_opening x = 0" "ps_leases x = []" "ps_closer x = 0"
    by (cases "ps_leases x"; auto simp: pool_inv_def take_all_permits_def split: if_splits)+
  with close_start inv show ?thesis by (auto simp: pool_inv_def take_all_permits_def split: if_splits)
next
  case (close_shut cs p)
  with inv show ?thesis by (auto simp: pool_inv_def shut_pool_def)
qed (use inv in \<open>auto simp: pool_inv_def take_permit_def release_permit_def pop_idle_Some split: if_splits\<close>)

lemma pool_inv_reach: "pool_reach seed sz x \<Longrightarrow> 0 < sz \<Longrightarrow> pool_inv sz x"
  by (induction rule: pool_reach.induct) (auto intro: pool_inv_init pool_inv_step)

section \<open>Property\<close>

text \<open>C14: No channel ever carries two publishes: the leases under way are of different channels, none of
  which another publisher can pick up, there are never more of them than the pool has permits, and once
  the pool is closed there is none and no channel left to lease.\<close>

theorem one_publish_per_channel:
  assumes "pool_reach seed (pool_size opts) x"
  shows "distinct (ps_leases x) \<and> set (ps_leases x) \<inter> set (pl_idle (ps_pool x)) = {}
    \<and> length (ps_leases x) + ps_opening x \<le> pool_size opts
    \<and> (if pl_closed (ps_pool x) then ps_leases x = [] \<and> pl_idle (ps_pool x) = []
         \<and> take_permit (ps_pool x) = Some (Inl (into_core BackendClosed)) else True)"
  using pool_inv_reach [OF assms] by (auto simp: pool_inv_def take_permit_def)

definition two_leases :: publishers where
  "two_leases = \<lparr>ps_pool = \<lparr>pl_idle = [], pl_free = 6, pl_size = 8, pl_closed = False\<rparr>,
     ps_opening = 0, ps_leases = [1, 0], ps_closer = 0\<rparr>"

theorem one_publish_per_channel_witness:
  "distinct (ps_leases two_leases) \<and> length (ps_leases two_leases) \<le> pool_size (options_default example_platform)"
proof -
  have sz: "pool_size (options_default example_platform) = 8"
    by (simp add: pool_size_def options_default_def DEFAULT_PUBLISH_CONCURRENCY_def)
  let ?p = "\<lambda>idle n. \<lparr>pl_idle = idle, pl_free = n, pl_size = 8, pl_closed = False\<rparr> :: pool"
  let ?x = "\<lambda>idle n k ls. \<lparr>ps_pool = ?p idle n, ps_opening = k, ps_leases = ls, ps_closer = 0\<rparr> :: publishers"
  have "pool_reach 0 8 (?x [0] 8 0 [])"
    using pool_reach.init [of 0 8] by (simp add: publishers_init_def pool_new_def)
  then have "pool_reach 0 8 (?x [0] 7 1 [])"
    by (rule pool_reach.step) (use pool_step.permit [of "?x [0] 8 0 []" "?p [0] 7"] in \<open>simp add: take_permit_def\<close>)
  then have "pool_reach 0 8 (?x [] 7 0 [0])"
    by (rule pool_reach.step) (use pool_step.lease_idle [of "?x [0] 7 1 []" 0 "?p [] 7"] in \<open>simp add: pop_idle_def\<close>)
  then have "pool_reach 0 8 (?x [] 6 1 [0])"
    by (rule pool_reach.step) (use pool_step.permit [of "?x [] 7 0 [0]" "?p [] 6"] in \<open>simp add: take_permit_def\<close>)
  then have "pool_reach 0 8 (?x [] 6 0 [1, 0])"
    by (rule pool_reach.step) (use pool_step.lease_new [of "?x [] 6 1 [0]" 1] in simp)
  then have "pool_reach 0 (pool_size (options_default example_platform)) two_leases"
    by (simp add: sz two_leases_def)
  from one_publish_per_channel [OF this] show ?thesis by simp
qed

end
