(* ===== verification/Rmq_World.thy ===== *)
theory Rmq_World
  imports Confirm_Pool
begin

text \<open>
  The setting the RabbitMQ backend runs in. The AMQP client library and the broker behind it are a
  parameter: \<open>lapin\<close> is the record of the calls the source makes, each a function of a world of any
  type, so a fact proved for every \<open>lapin\<close> and every world holds for every behaviour of both. The
  state \<open>rmq\<close> is what the backend shares between its tasks, together with \<open>log\<close>, the calls made so far
  with their replies, for the properties only.

  A call is an \<open>await\<close>: the library answers, and other tasks may have run meanwhile (\<open>l_others\<close>): they
  mark the backend closing, install a new connection, remember a declared queue, take and return
  channels, or replace the declaration channel. A computation is a function of the state to its result
  and the state after it, \<open>None\<close> when it does not come back (it waits for ever, or unwinds).
\<close>

section \<open>The client library\<close>

record returned_message =
  reply_code :: u16
  reply_text :: string

datatype confirmation =
    CAck "returned_message option"
  | CNack "returned_message option"
  | CNotRequested

record 'b lapin_delivery =
  ld_data :: 'b
  ld_acker :: nat

datatype other =
    OtherCloses
  | OtherInstalls nat
  | OtherRemembers queue_config
  | OtherPool pool
  | OtherDeclareChannel nat
  | OtherTag

record ('w, 'b) lapin =
  l_wire :: "'b wire"
  l_show_uuid :: "uuid \<Rightarrow> string"
  l_dial :: "string \<Rightarrow> string option \<Rightarrow> 'w \<Rightarrow> (lapin_error + nat) \<times> 'w"
  l_conn_up :: "nat \<Rightarrow> 'w \<Rightarrow> bool \<times> 'w"
  l_close_conn :: "nat \<Rightarrow> 'w \<Rightarrow> (lapin_error + unit) \<times> 'w"
  l_create_channel :: "nat \<Rightarrow> 'w \<Rightarrow> (lapin_error + nat) \<times> 'w"
  l_chan_up :: "nat \<Rightarrow> 'w \<Rightarrow> bool \<times> 'w"
  l_close_chan :: "nat \<Rightarrow> 'w \<Rightarrow> (lapin_error + unit) \<times> 'w"
  l_confirm_select :: "nat \<Rightarrow> 'w \<Rightarrow> (lapin_error + unit) \<times> 'w"
  l_queue_declare :: "nat \<Rightarrow> string \<Rightarrow> queue_declare_options \<Rightarrow> field_table \<Rightarrow> 'w \<Rightarrow> (lapin_error + unit) \<times> 'w"
  l_basic_publish :: "nat \<Rightarrow> string \<Rightarrow> bool \<Rightarrow> 'b \<Rightarrow> basic_properties \<Rightarrow> 'w \<Rightarrow> (lapin_error + unit) \<times> 'w"
  l_await_confirm :: "nat \<Rightarrow> 'w \<Rightarrow> (lapin_error + confirmation) \<times> 'w"
  l_ack :: "nat \<Rightarrow> 'w \<Rightarrow> (lapin_error + bool) \<times> 'w"
  l_reject :: "nat \<Rightarrow> bool \<Rightarrow> 'w \<Rightarrow> (lapin_error + bool) \<times> 'w"
  l_qos :: "nat \<Rightarrow> u16 \<Rightarrow> 'w \<Rightarrow> (lapin_error + unit) \<times> 'w"
  l_consume :: "nat \<Rightarrow> string \<Rightarrow> string \<Rightarrow> 'w \<Rightarrow> (lapin_error + nat) \<times> 'w"
  l_next :: "nat \<Rightarrow> 'w \<Rightarrow> (lapin_error + 'b lapin_delivery) option \<times> 'w"
  l_sleep :: "duration \<Rightarrow> 'w \<Rightarrow> unit \<times> 'w"
  l_idle :: "'w \<Rightarrow> unit \<times> 'w"
  l_nanos :: "'w \<Rightarrow> 128 word \<times> 'w"
  l_map_order :: "'w \<Rightarrow> queue_config list \<Rightarrow> queue_config list"
  l_others :: "'w \<Rightarrow> other list \<times> 'w"

section \<open>The state\<close>

datatype 'b rmq_event =
    EDial "lapin_error + nat"
  | EDeclare nat string queue_declare_options field_table "lapin_error + unit"
  | EPublish nat string 'b basic_properties "lapin_error + unit"
  | EConfirm nat string 'b basic_properties "lapin_error + confirmation"
  | EAck nat "lapin_error + bool"
  | EReject nat bool "lapin_error + bool"
  | EQos nat u16 "lapin_error + unit"
  | EConsume nat string string "lapin_error + nat"
  | ECloseConn nat
  | ECloseChan nat
  | ESleep duration

record ('w, 'b) rmq =
  world :: 'w
  log :: "'b rmq_event list"
  uri :: string
  current :: nat
  generation :: u64
  closing :: bool
  configs :: "(string \<times> queue_config) list"
  confirm_pool :: pool
  declare_channel :: nat
  next_tag :: u64

type_synonym ('w, 'b, 'a) io = "('w, 'b) rmq \<Rightarrow> ((core_error + 'a) \<times> ('w, 'b) rmq) option"

text \<open>\<open>remember\<close>: a later configuration of the same name replaces the earlier one.\<close>

definition remember_config :: "queue_config \<Rightarrow> (string \<times> queue_config) list \<Rightarrow> (string \<times> queue_config) list" where
  "remember_config c cs = (qc_name c, c) # filter (\<lambda>kv. fst kv \<noteq> qc_name c) cs"

definition install_connection :: "nat \<Rightarrow> ('w, 'b) rmq \<Rightarrow> ('w, 'b) rmq" where
  "install_connection c s = s\<lparr>current := c, generation := generation s + 1\<rparr>"

fun apply_other :: "other \<Rightarrow> ('w, 'b) rmq \<Rightarrow> ('w, 'b) rmq" where
  "apply_other OtherCloses s = s\<lparr>closing := True\<rparr>"
| "apply_other (OtherInstalls c) s = install_connection c s"
| "apply_other (OtherRemembers c) s = s\<lparr>configs := remember_config c (configs s)\<rparr>"
| "apply_other (OtherPool p) s = s\<lparr>confirm_pool := p\<lparr>pl_closed := pl_closed p \<or> pl_closed (confirm_pool s)\<rparr>\<rparr>"
| "apply_other (OtherDeclareChannel c) s = s\<lparr>declare_channel := c\<rparr>"
| "apply_other OtherTag s = s\<lparr>next_tag := next_tag s + 1\<rparr>"

section \<open>Computations\<close>

definition ret :: "'a \<Rightarrow> ('w, 'b, 'a) io" where
  "ret x s = Some (Inr x, s)"

definition fail :: "core_error \<Rightarrow> ('w, 'b, 'a) io" where
  "fail e s = Some (Inl e, s)"

definition never :: "('w, 'b, 'a) io" where
  "never s = None"

definition bind_io :: "('w, 'b, 'a) io \<Rightarrow> ('a \<Rightarrow> ('w, 'b, 'c) io) \<Rightarrow> ('w, 'b, 'c) io" where
  "bind_io m f s = (case m s of
       None \<Rightarrow> None
     | Some (Inl e, s) \<Rightarrow> Some (Inl e, s)
     | Some (Inr x, s) \<Rightarrow> f x s)"

text \<open>The result of a computation as a value, for the code that goes on after an error.\<close>

definition catch :: "('w, 'b, 'a) io \<Rightarrow> ('w, 'b, core_error + 'a) io" where
  "catch m s = (case m s of None \<Rightarrow> None | Some (r, s) \<Rightarrow> Some (Inr r, s))"

definition reads :: "(('w, 'b) rmq \<Rightarrow> 'a) \<Rightarrow> ('w, 'b, 'a) io" where
  "reads f s = Some (Inr (f s), s)"

definition writes :: "(('w, 'b) rmq \<Rightarrow> ('w, 'b) rmq) \<Rightarrow> ('w, 'b, unit) io" where
  "writes f s = Some (Inr (), f s)"

definition lift_res :: "core_error + 'a \<Rightarrow> ('w, 'b, 'a) io" where
  "lift_res r s = Some (r, s)"

text \<open>\<open>map_err(amqp)?\<close>.\<close>

definition or_amqp :: "lapin_error + 'a \<Rightarrow> ('w, 'b, 'a) io" where
  "or_amqp r = (case r of Inl e \<Rightarrow> fail (amqp e) | Inr x \<Rightarrow> ret x)"

definition await :: "('w, 'b) lapin \<Rightarrow> ('w \<Rightarrow> 'a \<times> 'w) \<Rightarrow> ('a \<Rightarrow> 'b rmq_event list) \<Rightarrow> ('w, 'b, 'a) io" where
  "await L f ev s = (case f (world s) of (x, w) \<Rightarrow> (case l_others L w of (others, w') \<Rightarrow>
     Some (Inr x, foldl (\<lambda>s oth. apply_other oth s) (s\<lparr>world := w', log := log s @ ev x\<rparr>) others)))"

text \<open>An await that asks the library for nothing: a lock, or a point where the task is preempted.\<close>

definition pause :: "('w, 'b) lapin \<Rightarrow> ('w, 'b, unit) io" where
  "pause L = await L (l_idle L) (\<lambda>_. [])"

text \<open>A \<open>loop\<close> whose turn is \<open>body\<close>: it ends with a value or an error, or goes on with the next state of
  its variables; it may go on for ever.\<close>

partial_function (option) repeat_io :: "('x \<Rightarrow> ('w, 'b, 'r + 'x) io) \<Rightarrow> 'x \<Rightarrow> ('w, 'b, 'r) io" where
  "repeat_io body x s = (case body x s of
       None \<Rightarrow> None
     | Some (r, s) \<Rightarrow> (case r of
         Inl e \<Rightarrow> Some (Inl e, s)
       | Inr turn \<Rightarrow> (case turn of
           Inl y \<Rightarrow> Some (Inr y, s)
         | Inr x \<Rightarrow> repeat_io body x s)))"

lemmas io_defs = ret_def fail_def never_def bind_io_def catch_def reads_def writes_def lift_res_def or_amqp_def

section \<open>Reasoning about the log\<close>

text \<open>\<open>logs C P m\<close>: run in a state where \<open>C\<close> holds, \<open>m\<close> only adds events satisfying \<open>P\<close> to the log,
  whatever happens, and leaves \<open>C\<close> true. \<open>C\<close> must be \<open>stable\<close>: no other task makes it false. \<open>total m\<close>:
  it comes back.\<close>

definition stable :: "(('w, 'b) rmq \<Rightarrow> bool) \<Rightarrow> bool" where
  "stable C \<longleftrightarrow> (\<forall>s. C s \<longrightarrow> (\<forall>oth. C (apply_other oth s)) \<and> (\<forall>w l. C (s\<lparr>world := w, log := l\<rparr>))
     \<and> (\<forall>p. C (s\<lparr>confirm_pool := p\<rparr>)))"

definition logs :: "(('w, 'b) rmq \<Rightarrow> bool) \<Rightarrow> ('b rmq_event \<Rightarrow> bool) \<Rightarrow> ('w, 'b, 'a) io \<Rightarrow> bool" where
  "logs C P m \<longleftrightarrow> (\<forall>s r s'. C s \<longrightarrow> m s = Some (r, s') \<longrightarrow> C s' \<and> (\<exists>new. log s' = log s @ new \<and> list_all P new))"

definition total :: "('w, 'b, 'a) io \<Rightarrow> bool" where
  "total m \<longleftrightarrow> (\<forall>s. m s \<noteq> None)"

named_theorems logs_rules \<open>introduction rules for \<open>logs\<close>\<close>
named_theorems total_rules \<open>introduction rules for \<open>total\<close>\<close>

lemma log_apply_other [simp]: "log (apply_other oth s) = log s"
  by (cases oth) (auto simp: install_connection_def)

lemma log_apply_others [simp]: "log (foldl (\<lambda>s oth. apply_other oth s) s os) = log s"
  by (induction os arbitrary: s) auto

lemma stable_True [logs_rules]: "stable (\<lambda>s. True)"
  by (simp add: stable_def)

lemma stable_closing [logs_rules]: "stable closing"
  unfolding stable_def
proof (intro allI impI conjI)
  show "closing s \<Longrightarrow> closing (apply_other oth s)" for s :: "('w, 'b) rmq" and oth
    by (cases oth) (auto simp: install_connection_def)
qed simp_all

lemma stable_others: "stable C \<Longrightarrow> C s \<Longrightarrow> C (foldl (\<lambda>s oth. apply_other oth s) s os)"
  by (induction os arbitrary: s) (auto simp: stable_def)

lemma logs_ret [logs_rules]: "logs C P (ret x)"
  and logs_fail [logs_rules]: "logs C P (fail e)"
  and logs_never [logs_rules]: "logs C P never"
  and logs_reads [logs_rules]: "logs C P (reads f)"
  and logs_lift [logs_rules]: "logs C P (lift_res r)"
  by (simp_all add: logs_def io_defs)

lemma logs_or_amqp [logs_rules]: "logs C P (or_amqp r)"
  by (simp add: or_amqp_def logs_ret logs_fail split: sum.split)

lemma logs_writes [logs_rules]:
  "(\<And>s. log (f s) = log s) \<Longrightarrow> (\<And>s. C s \<Longrightarrow> C (f s)) \<Longrightarrow> logs C P (writes f)"
  by (simp add: logs_def writes_def)

lemma bind_io_Some: "bind_io m f s = Some (r, s') \<longleftrightarrow>
    (\<exists>e. m s = Some (Inl e, s') \<and> r = Inl e) \<or> (\<exists>x t. m s = Some (Inr x, t) \<and> f x t = Some (r, s'))"
  by (auto simp: bind_io_def split: option.splits sum.splits)

lemma bind_io_Inr: "bind_io m f s = Some (Inr y, s') \<longleftrightarrow> (\<exists>x t. m s = Some (Inr x, t) \<and> f x t = Some (Inr y, s'))"
  by (auto simp: bind_io_Some)

lemma logsD: "logs C P m \<Longrightarrow> C s \<Longrightarrow> m s = Some (r, s') \<Longrightarrow> C s' \<and> (\<exists>new. log s' = log s @ new \<and> list_all P new)"
  by (auto simp: logs_def)

lemma logs_bind [logs_rules]:
  assumes "logs C P m" "\<And>x. logs C P (f x)"
  shows "logs C P (bind_io m f)"
  unfolding logs_def
proof (intro allI impI)
  fix s r s'
  assume C: "C s" and "bind_io m f s = Some (r, s')"
  then consider e where "m s = Some (Inl e, s')" | x t where "m s = Some (Inr x, t)" "f x t = Some (r, s')"
    by (auto simp: bind_io_Some)
  then show "C s' \<and> (\<exists>new. log s' = log s @ new \<and> list_all P new)"
  proof cases
    case 1
    with logsD [OF assms(1) C] show ?thesis by blast
  next
    case (2 x t)
    from logsD [OF assms(1) C 2(1)] obtain a where a: "C t" "log t = log s @ a" "list_all P a" by blast
    from logsD [OF assms(2) a(1) 2(2)] obtain b where "C s'" "log s' = log t @ b" "list_all P b" by blast
    with a show ?thesis by (intro conjI exI [of _ "a @ b"]) simp_all
  qed
qed

lemma logs_catch [logs_rules]: "logs C P m \<Longrightarrow> logs C P (catch m)"
  unfolding logs_def catch_def by (auto split: option.splits)

lemma await_Some: "await L f ev s = Some (r, s') \<longleftrightarrow> (\<exists>x w others w'. f (world s) = (x, w)
    \<and> l_others L w = (others, w') \<and> r = Inr x
    \<and> s' = foldl (\<lambda>s oth. apply_other oth s) (s\<lparr>world := w', log := log s @ ev x\<rparr>) others)"
  unfolding await_def by (cases "f (world s)", cases "l_others L (snd (f (world s)))") auto

lemma await_log: "await L f ev s = Some (r, s') \<Longrightarrow> \<exists>x. r = Inr x \<and> log s' = log s @ ev x"
  by (auto simp: await_Some)

lemma logs_await [logs_rules]:
  assumes "stable C" "\<And>x. list_all P (ev x)"
  shows "logs C P (await L f ev)"
  unfolding logs_def
proof (intro allI impI conjI)
  fix s r s'
  assume C: "C s" and aw: "await L f ev s = Some (r, s')"
  then obtain x w' others where
    s': "s' = foldl (\<lambda>s oth. apply_other oth s) (s\<lparr>world := w', log := log s @ ev x\<rparr>) others"
    by (auto simp: await_Some)
  have "C (s\<lparr>world := w', log := log s @ ev x\<rparr>)" using assms(1) C by (simp add: stable_def)
  with assms(1) show "C s'" unfolding s' by (rule stable_others)
  show "\<exists>new. log s' = log s @ new \<and> list_all P new" using await_log [OF aw] assms(2) by blast
qed

lemma logs_pause [logs_rules]: "stable C \<Longrightarrow> logs C P (pause L)"
  unfolding pause_def by (rule logs_await) simp_all

lemma logs_if [logs_rules]: "logs C P m \<Longrightarrow> logs C P n \<Longrightarrow> logs C P (if b then m else n)"
  by simp

lemma logs_option [logs_rules]:
  "logs C P m \<Longrightarrow> (\<And>x. logs C P (f x)) \<Longrightarrow> logs C P (case v of None \<Rightarrow> m | Some x \<Rightarrow> f x)"
  by (cases v) auto

lemma logs_sum [logs_rules]:
  "(\<And>x. logs C P (f x)) \<Longrightarrow> (\<And>y. logs C P (g y)) \<Longrightarrow> logs C P (case v of Inl x \<Rightarrow> f x | Inr y \<Rightarrow> g y)"
  by (cases v) auto

lemma logs_prod [logs_rules]: "(\<And>x y. logs C P (f x y)) \<Longrightarrow> logs C P (case v of (x, y) \<Rightarrow> f x y)"
  by (cases v) auto

lemma logs_Let [logs_rules]: "(\<And>x. logs C P (f x)) \<Longrightarrow> logs C P (let x = v in f x)"
  by simp

lemma logs_weaken: "logs C P m \<Longrightarrow> (\<And>e. P e \<Longrightarrow> Q e) \<Longrightarrow> logs C Q m"
  unfolding logs_def by (blast intro: list.pred_mono_strong)

text \<open>What a loop keeps: if every turn of it does.\<close>

definition keeps :: "(('w, 'b) rmq \<Rightarrow> bool) \<Rightarrow> ('b rmq_event \<Rightarrow> bool) \<Rightarrow> ('x \<Rightarrow> ('w, 'b, 'r + 'x) io) \<Rightarrow> 'x
    \<Rightarrow> ('w, 'b) rmq \<Rightarrow> (core_error + 'r) \<times> ('w, 'b) rmq \<Rightarrow> bool" where
  "keeps C P body x s y \<longleftrightarrow> (\<forall>x. logs C P (body x)) \<longrightarrow> C s \<longrightarrow>
     C (snd y) \<and> (\<exists>new. log (snd y) = log s @ new \<and> list_all P new)"

lemma keeps_turn:
  assumes rec: "\<And>body x s y. rec body x s = Some y \<Longrightarrow> keeps C P body x s y"
    and run: "(case body x s of None \<Rightarrow> None
      | Some (r, s) \<Rightarrow> (case r of Inl e \<Rightarrow> Some (Inl e, s)
        | Inr turn \<Rightarrow> (case turn of Inl y \<Rightarrow> Some (Inr y, s) | Inr x \<Rightarrow> rec body x s))) = Some y"
  shows "keeps C P body x s y"
  unfolding keeps_def
proof (intro impI)
  assume t: "\<forall>x. logs C P (body x)" and "C s"
  from run obtain r s1 where o: "body x s = Some (r, s1)" by (auto split: option.splits)
  from logsD [OF spec [OF t] \<open>C s\<close> o] obtain new where
    n: "C s1" "log s1 = log s @ new" "list_all P new" by blast
  show "C (snd y) \<and> (\<exists>new. log (snd y) = log s @ new \<and> list_all P new)"
  proof (cases "\<exists>x. r = Inr (Inr x)")
    case True
    then obtain x' where "rec body x' s1 = Some y" using run o by auto
    from rec [OF this] t n obtain b where "C (snd y)" "log (snd y) = log s1 @ b" "list_all P b"
      unfolding keeps_def by blast
    with n show ?thesis by (intro conjI exI [of _ "new @ b"]) simp_all
  next
    case False
    then have "snd y = s1" using run o by (auto split: sum.splits)
    with n show ?thesis by auto
  qed
qed

lemma keeps_repeat: "repeat_io body x s = Some y \<Longrightarrow> keeps C P body x s y"
proof -
  assume run: "repeat_io body x s = Some y"
  have "(case ((body, x), s) of (bx, s) \<Rightarrow> (case bx of (body, x) \<Rightarrow> keeps C P body x) s) y"
  proof (rule repeat_io.raw_induct)
    show "(case ((body, x), s) of (bx, s) \<Rightarrow> (case bx of (body, x) \<Rightarrow> repeat_io body x) s) = Some y"
      using run by simp
  qed (rule keeps_turn)
  then show ?thesis by simp
qed

lemma logs_repeat [logs_rules]: "(\<And>x. logs C P (body x)) \<Longrightarrow> logs C P (repeat_io body x)"
  unfolding logs_def [of _ _ "repeat_io body x"] using keeps_repeat [of body x _ _ C P] unfolding keeps_def by fastforce

lemma total_ret [total_rules]: "total (ret x)"
  and total_fail [total_rules]: "total (fail e)"
  and total_reads [total_rules]: "total (reads f)"
  and total_writes [total_rules]: "total (writes g)"
  and total_lift [total_rules]: "total (lift_res r)"
  by (simp_all add: total_def io_defs)

lemma total_or_amqp [total_rules]: "total (or_amqp r)"
  by (simp add: or_amqp_def total_ret total_fail split: sum.split)

lemma total_bind [total_rules]: "total m \<Longrightarrow> (\<And>x. total (f x)) \<Longrightarrow> total (bind_io m f)"
  by (auto simp: total_def bind_io_def split: option.split sum.split)

lemma total_catch [total_rules]: "total m \<Longrightarrow> total (catch m)"
  by (auto simp: total_def catch_def split: option.split)

lemma total_await [total_rules]: "total (await L f ev)"
  by (auto simp: total_def await_def split: prod.splits)

lemma total_pause [total_rules]: "total (pause L)"
  by (simp add: pause_def total_await)

lemma total_if [total_rules]: "total m \<Longrightarrow> total n \<Longrightarrow> total (if b then m else n)"
  by simp

lemma total_option [total_rules]:
  "total m \<Longrightarrow> (\<And>x. total (f x)) \<Longrightarrow> total (case v of None \<Rightarrow> m | Some x \<Rightarrow> f x)"
  by (cases v) auto

lemma total_sum [total_rules]:
  "(\<And>x. total (f x)) \<Longrightarrow> (\<And>y. total (g y)) \<Longrightarrow> total (case v of Inl x \<Rightarrow> f x | Inr y \<Rightarrow> g y)"
  by (cases v) auto

lemma bind_io_assoc: "bind_io (bind_io m f) g = bind_io m (\<lambda>x. bind_io (f x) g)"
  by (auto simp: bind_io_def fun_eq_iff split: option.split sum.split)

section \<open>Which errors there can be\<close>

definition fails_with :: "(core_error \<Rightarrow> bool) \<Rightarrow> ('w, 'b, 'a) io \<Rightarrow> bool" where
  "fails_with E m \<longleftrightarrow> (\<forall>s e s'. m s = Some (Inl e, s') \<longrightarrow> E e)"

named_theorems fails_rules \<open>introduction rules for \<open>fails_with\<close>\<close>

lemma fails_ret [fails_rules]: "fails_with E (ret x)"
  and fails_fail [fails_rules]: "E e \<Longrightarrow> fails_with E (fail e)"
  and fails_reads [fails_rules]: "fails_with E (reads f)"
  and fails_writes [fails_rules]: "fails_with E (writes g)"
  by (simp_all add: fails_with_def io_defs)

lemma fails_await [fails_rules]: "fails_with E (await L f ev)"
  by (auto simp: fails_with_def await_Some)

lemma fails_pause [fails_rules]: "fails_with E (pause L)"
  unfolding pause_def by (rule fails_await)

lemma fails_catch [fails_rules]: "fails_with E (catch m)"
  by (auto simp: fails_with_def catch_def split: option.splits)

lemma fails_bind [fails_rules]: "fails_with E m \<Longrightarrow> (\<And>x. fails_with E (f x)) \<Longrightarrow> fails_with E (bind_io m f)"
  unfolding fails_with_def bind_io_Some by blast

lemma fails_if [fails_rules]: "fails_with E m \<Longrightarrow> fails_with E n \<Longrightarrow> fails_with E (if b then m else n)"
  by simp

lemma fails_sum [fails_rules]:
  "(\<And>x. fails_with E (f x)) \<Longrightarrow> (\<And>y. fails_with E (g y)) \<Longrightarrow> fails_with E (case v of Inl x \<Rightarrow> f x | Inr y \<Rightarrow> g y)"
  by (cases v) auto

lemma fails_option [fails_rules]:
  "fails_with E m \<Longrightarrow> (\<And>x. fails_with E (f x)) \<Longrightarrow> fails_with E (case v of None \<Rightarrow> m | Some x \<Rightarrow> f x)"
  by (cases v) auto

lemma failsD: "fails_with E m \<Longrightarrow> m s = Some (Inl e, s') \<Longrightarrow> E e"
  by (auto simp: fails_with_def)

end
