(* ===== verification/Rmq_Connection.thy ===== *)
theory Rmq_Connection
  imports Rmq_World
begin

text \<open>
  \<open>crates/rabbitmq/src/connection.rs\<close>: the reconnecting connection. \<open>reconnect_once\<close> is one turn of the
  loop of \<open>ensure_connected\<close>, which ends with a connection or an error, or goes on with one more failure.
  Tracing is left out.
\<close>

definition TLS_refused :: "bool \<Rightarrow> bool option \<Rightarrow> core_error + unit" where
  "TLS_refused tls_backend amqps = (if tls_backend then Inr ()
     else if amqps = Some True then Inl (into_core TlsUnavailable) else Inr ())"

section \<open>Looking at the handle\<close>

definition is_closing :: "('w, 'b) lapin \<Rightarrow> ('w, 'b, bool) io" where
  "is_closing L = bind_io (pause L) (\<lambda>_. reads closing)"

definition check_open :: "('w, 'b) lapin \<Rightarrow> ('w, 'b, unit) io" where
  "check_open L = bind_io (is_closing L) (\<lambda>cl. if cl then fail (into_core BackendClosed) else ret ())"

definition peek :: "('w, 'b, nat) io" where
  "peek = reads current"

definition conn_up :: "('w, 'b) lapin \<Rightarrow> nat \<Rightarrow> ('w, 'b, bool) io" where
  "conn_up L c = await L (l_conn_up L c) (\<lambda>_. [])"

definition is_connected :: "('w, 'b) lapin \<Rightarrow> ('w, 'b, bool) io" where
  "is_connected L = bind_io (is_closing L) (\<lambda>cl. if cl then ret False
     else bind_io peek (\<lambda>c. conn_up L c))"

definition live :: "('w, 'b) lapin \<Rightarrow> ('w, 'b, nat option) io" where
  "live L = bind_io (check_open L) (\<lambda>_. bind_io peek (\<lambda>c. bind_io (conn_up L c) (\<lambda>up.
     ret (if up then Some c else None))))"

definition remember :: "queue_config \<Rightarrow> ('w, 'b, unit) io" where
  "remember c = writes (\<lambda>s. s\<lparr>configs := remember_config c (configs s)\<rparr>)"

definition config_for :: "string \<Rightarrow> ('w, 'b, queue_config option) io" where
  "config_for n = reads (\<lambda>s. map_of (configs s) n)"

section \<open>Declaring a queue\<close>

definition chan_up :: "('w, 'b) lapin \<Rightarrow> nat \<Rightarrow> ('w, 'b, bool) io" where
  "chan_up L ch = await L (l_chan_up L ch) (\<lambda>_. [])"

definition close_chan :: "('w, 'b) lapin \<Rightarrow> nat \<Rightarrow> ('w, 'b, lapin_error + unit) io" where
  "close_chan L ch = await L (l_close_chan L ch) (\<lambda>_. [ECloseChan ch])"

definition create_channel :: "('w, 'b) lapin \<Rightarrow> nat \<Rightarrow> ('w, 'b, lapin_error + nat) io" where
  "create_channel L c = await L (l_create_channel L c) (\<lambda>_. [])"

definition queue_declare :: "('w, 'b) lapin \<Rightarrow> nat \<Rightarrow> string \<Rightarrow> queue_declare_options \<Rightarrow> field_table
    \<Rightarrow> ('w, 'b, unit) io" where
  "queue_declare L ch n dopts args =
     bind_io (await L (l_queue_declare L ch n dopts args) (\<lambda>r. [EDeclare ch n dopts args r])) or_amqp"

definition declare_topology :: "('w, 'b) lapin \<Rightarrow> rmq_options \<Rightarrow> nat \<Rightarrow> queue_config \<Rightarrow> ('w, 'b, unit) io" where
  "declare_topology L opts ch c =
     bind_io (lift_res (short_string (qc_name c))) (\<lambda>n.
     bind_io (queue_declare L ch n (declare_options (durable c)) (queue_args c)) (\<lambda>_.
     if declare_dead_letter_queues opts
     then bind_io (lift_res (short_string (dead_queue_name (qc_name c) (dead_suffix opts)))) (\<lambda>n.
          queue_declare L ch n (declare_options True) (dead_queue_args c))
     else ret ()))"

text \<open>The replay of the declared queues on a new connection stops at the first refusal.\<close>

fun redeclare_loop :: "('w, 'b) lapin \<Rightarrow> rmq_options \<Rightarrow> nat \<Rightarrow> queue_config list \<Rightarrow> ('w, 'b, unit) io" where
  "redeclare_loop L opts ch [] = ret ()"
| "redeclare_loop L opts ch (c # cs) = bind_io (catch (declare_topology L opts ch c)) (\<lambda>r. case r of
       Inl e \<Rightarrow> ret ()
     | Inr u \<Rightarrow> redeclare_loop L opts ch cs)"

definition close_if_up :: "('w, 'b) lapin \<Rightarrow> nat \<Rightarrow> ('w, 'b, unit) io" where
  "close_if_up L ch = bind_io (chan_up L ch) (\<lambda>up.
     if up then bind_io (close_chan L ch) (\<lambda>_. ret ()) else ret ())"

definition redeclare :: "('w, 'b) lapin \<Rightarrow> rmq_options \<Rightarrow> nat \<Rightarrow> ('w, 'b, unit) io" where
  "redeclare L opts c = bind_io (reads (\<lambda>s. l_map_order L (world s) (map snd (configs s)))) (\<lambda>cs.
     if cs = [] then ret ()
     else bind_io (create_channel L c) (\<lambda>r. case r of
         Inl e \<Rightarrow> ret ()
       | Inr ch \<Rightarrow> bind_io (redeclare_loop L opts ch cs) (\<lambda>_. close_if_up L ch)))"

section \<open>Reconnecting\<close>

definition sleep_unless_closing :: "('w, 'b) lapin \<Rightarrow> duration \<Rightarrow> ('w, 'b, unit) io" where
  "sleep_unless_closing L d = bind_io (check_open L) (\<lambda>_.
     bind_io (await L (l_sleep L d) (\<lambda>_. [ESleep d])) (\<lambda>_. check_open L))"

definition close_quietly :: "('w, 'b) lapin \<Rightarrow> nat \<Rightarrow> ('w, 'b, unit) io" where
  "close_quietly L c = bind_io (conn_up L c) (\<lambda>up.
     if up then bind_io (await L (l_close_conn L c) (\<lambda>_. [ECloseConn c])) (\<lambda>_. ret ()) else ret ())"

definition dial :: "('w, 'b) lapin \<Rightarrow> rmq_options \<Rightarrow> ('w, 'b, lapin_error + nat) io" where
  "dial L opts = bind_io (reads uri) (\<lambda>u.
     await L (l_dial L u (handshake_properties opts)) (\<lambda>r. [EDial r]))"

definition install :: "nat \<Rightarrow> ('w, 'b, unit) io" where
  "install c = writes (install_connection c)"

definition attempt_of :: "u32 \<Rightarrow> lapin_error option \<Rightarrow> attempt_info" where
  "attempt_of failures last_error = (case last_error of
       Some e \<Rightarrow> attempt_after RebuildConnection failures (DialFailed e)
     | None \<Rightarrow> attempt_first RebuildConnection)"

definition reconnect_once :: "('w, 'b) lapin \<Rightarrow> rmq_options \<Rightarrow> reconnect_policy \<Rightarrow> u32 \<Rightarrow> lapin_error option
    \<Rightarrow> ('w, 'b, nat + (u32 \<times> lapin_error option)) io" where
  "reconnect_once L opts policy failures last_error =
     (case policy (attempt_of failures last_error) of
        None \<Rightarrow> never
      | Some None \<Rightarrow> fail (into_core (ReconnectExhausted failures last_error))
      | Some (Some dly) \<Rightarrow>
          bind_io (if dly = 0 then ret () else sleep_unless_closing L dly) (\<lambda>_.
          bind_io (check_open L) (\<lambda>_.
          bind_io (dial L opts) (\<lambda>r. case r of
              Inr c \<Rightarrow> bind_io (is_closing L) (\<lambda>cl.
                if cl then bind_io (close_quietly L c) (\<lambda>_. fail (into_core BackendClosed))
                else bind_io (pause L) (\<lambda>_. bind_io (install c) (\<lambda>_.
                  bind_io (redeclare L opts c) (\<lambda>_. ret (Inl c)))))
            | Inl e \<Rightarrow> ret (Inr (failures + 1, Some e))))))"

definition reconnect_loop :: "('w, 'b) lapin \<Rightarrow> rmq_options \<Rightarrow> reconnect_policy \<Rightarrow> u32 \<times> lapin_error option
    \<Rightarrow> ('w, 'b, nat) io" where
  "reconnect_loop L opts policy = repeat_io (\<lambda>(failures, last_error). reconnect_once L opts policy failures last_error)"

definition ensure_connected :: "('w, 'b) lapin \<Rightarrow> rmq_options \<Rightarrow> ('w, 'b, nat) io" where
  "ensure_connected L opts = bind_io (live L) (\<lambda>c. case c of
       Some c \<Rightarrow> ret c
     | None \<Rightarrow> bind_io (pause L) (\<lambda>_. bind_io (live L) (\<lambda>c. case c of
         Some c \<Rightarrow> ret c
       | None \<Rightarrow> (case reconnect opts of
           None \<Rightarrow> fail (into_core ConnectionLost)
         | Some policy \<Rightarrow> reconnect_loop L opts policy (0, None)))))"

text \<open>The first connection is dialled once; the handle is the state the backend starts in.\<close>

definition connect :: "('w, 'b) lapin \<Rightarrow> rmq_options \<Rightarrow> bool \<Rightarrow> bool option \<Rightarrow> ('w, 'b, unit) io" where
  "connect L opts tls_backend amqps = bind_io (lift_res (TLS_refused tls_backend amqps)) (\<lambda>_.
     bind_io (dial L opts) (\<lambda>r. bind_io (or_amqp r) (\<lambda>c.
     writes (\<lambda>s. s\<lparr>current := c, generation := 1, closing := False, configs := []\<rparr>))))"

section \<open>Closing\<close>

definition mark_closing :: "('w, 'b, unit) io" where
  "mark_closing = writes (\<lambda>s. s\<lparr>closing := True\<rparr>)"

definition close_connection :: "('w, 'b) lapin \<Rightarrow> ('w, 'b, unit) io" where
  "close_connection L = bind_io mark_closing (\<lambda>_. bind_io peek (\<lambda>c. bind_io (conn_up L c) (\<lambda>up.
     if \<not> up then ret ()
     else bind_io (await L (l_close_conn L c) (\<lambda>_. [ECloseConn c])) (\<lambda>r. case r of
         Inr u \<Rightarrow> ret ()
       | Inl e \<Rightarrow> (if is_benign_close_error e then ret () else fail (amqp e))))))"

section \<open>What these operations ask of the broker\<close>

text \<open>Everything but dialling: the events that can occur on a connection there is.\<close>

fun no_dial :: "'b rmq_event \<Rightarrow> bool" where
  "no_dial (EDial r) = False"
| "no_dial _ = True"

text \<open>No message is published or settled and no consumer started.\<close>

fun upkeep :: "'b rmq_event \<Rightarrow> bool" where
  "upkeep (EPublish ch q b p r) = False"
| "upkeep (EConfirm ch q b p r) = False"
| "upkeep (EAck a r) = False"
| "upkeep (EReject a q r) = False"
| "upkeep (EConsume ch q t r) = False"
| "upkeep _ = True"

text \<open>Keeping the topology: upkeep that does not dial.\<close>

abbreviation housekeeping :: "'b rmq_event \<Rightarrow> bool" where
  "housekeeping e \<equiv> upkeep e \<and> no_dial e"

lemmas handle_defs = is_closing_def check_open_def peek_def conn_up_def chan_up_def close_chan_def
  create_channel_def close_if_up_def close_quietly_def config_for_def live_def sleep_unless_closing_def

lemma logs_handle [logs_rules]:
  "stable C \<Longrightarrow> logs C housekeeping (is_closing L)"
  "stable C \<Longrightarrow> logs C housekeeping (check_open L)"
  "stable C \<Longrightarrow> logs C housekeeping (conn_up L c)"
  "stable C \<Longrightarrow> logs C housekeeping (chan_up L ch)"
  "stable C \<Longrightarrow> logs C housekeeping (close_chan L ch)"
  "stable C \<Longrightarrow> logs C housekeeping (create_channel L c)"
  "stable C \<Longrightarrow> logs C housekeeping (close_if_up L ch)"
  "stable C \<Longrightarrow> logs C housekeeping (close_quietly L c)"
  "stable C \<Longrightarrow> logs C housekeeping (live L)"
  "stable C \<Longrightarrow> logs C housekeeping (sleep_unless_closing L d)"
  "logs C P (config_for n)"
  "logs C P peek"
  by (auto simp: handle_defs intro!: logs_rules)

lemma logs_queue_declare [logs_rules]: "stable C \<Longrightarrow> logs C housekeeping (queue_declare L ch n dopts args)"
  unfolding queue_declare_def by (auto intro!: logs_rules)

lemma logs_declare_topology [logs_rules]: "stable C \<Longrightarrow> logs C housekeeping (declare_topology L opts ch c)"
  unfolding declare_topology_def by (intro logs_rules)

lemma logs_redeclare_loop [logs_rules]: "stable C \<Longrightarrow> logs C housekeeping (redeclare_loop L opts ch cs)"
  by (induction cs) (auto intro!: logs_rules)

lemma logs_redeclare [logs_rules]: "stable C \<Longrightarrow> logs C housekeeping (redeclare L opts c)"
  unfolding redeclare_def by (intro logs_rules)

lemma total_handle [total_rules]:
  "total (is_closing L)" "total (check_open L)" "total (conn_up L c)" "total (chan_up L ch)"
  "total (close_chan L ch)" "total (create_channel L c)" "total (close_if_up L ch)"
  "total (close_quietly L c)" "total (live L)" "total (sleep_unless_closing L d)"
  "total (config_for n)" "total peek"
  unfolding handle_defs by (intro total_rules)+

lemma total_declare [total_rules]: "total (declare_topology L opts ch c)"
  unfolding declare_topology_def queue_declare_def by (intro total_rules)

lemma total_redeclare [total_rules]: "total (redeclare L opts c)"
proof -
  have "total (redeclare_loop L opts ch cs)" for ch cs
    by (induction cs) (auto intro!: total_rules)
  then show ?thesis unfolding redeclare_def by (intro total_rules)
qed

section \<open>The loop\<close>

definition dials :: "'b rmq_event list \<Rightarrow> nat" where
  "dials evs = length (filter (\<lambda>e. \<not> no_dial e) evs)"

lemma dials_simps [simp]: "dials [] = 0" "dials (xs @ ys) = dials xs + dials ys"
  "dials (e # xs) = (if no_dial e then dials xs else Suc (dials xs))"
  by (simp_all add: dials_def)

lemma no_dials: "list_all (\<lambda>e. upkeep e \<and> no_dial e) new \<Longrightarrow> dials new = 0 \<and> list_all upkeep new"
  by (induction new) auto

text \<open>After what is only housekeeping.\<close>

lemma housekeeping_dials:
  assumes "logs (\<lambda>s. True) housekeeping m" "m s = Some (r, s')"
  shows "\<exists>new. log s' = log s @ new \<and> dials new = 0 \<and> list_all upkeep new"
  using logsD [OF assms(1) TrueI assms(2)] no_dials by blast

lemma dial_logs: "dial L opts s = Some (r, s') \<Longrightarrow>
    \<exists>x. r = Inr x \<and> log s' = log s @ [EDial x]"
  by (auto simp: dial_def bind_io_Some reads_def dest: await_log)

text \<open>The only error of these operations is that the backend is closed.\<close>

abbreviation only_closed :: "core_error \<Rightarrow> bool" where
  "only_closed e \<equiv> e = into_core BackendClosed"

lemma fails_handle [fails_rules]:
  "fails_with E (is_closing L)" "fails_with E (conn_up L c)" "fails_with E (chan_up L ch)"
  "fails_with E (close_chan L ch)" "fails_with E (create_channel L c)" "fails_with E (close_if_up L ch)"
  "fails_with E (close_quietly L c)" "fails_with E (config_for n)" "fails_with E peek"
  "fails_with only_closed (check_open L)" "fails_with only_closed (live L)"
  "fails_with only_closed (sleep_unless_closing L d)"
  unfolding handle_defs by (intro fails_rules refl)+

lemma fails_redeclare [fails_rules]: "fails_with E (redeclare L opts c)"
proof -
  have "fails_with E (redeclare_loop L opts ch cs)" for ch cs
    by (induction cs) (auto intro!: fails_rules)
  then show ?thesis unfolding redeclare_def by (intro fails_rules)
qed

text \<open>One turn of the loop: refused before dialling, or one dial and what became of it.\<close>

definition after_dial :: "('w, 'b) lapin \<Rightarrow> rmq_options \<Rightarrow> u32 \<Rightarrow> lapin_error + nat
    \<Rightarrow> ('w, 'b, nat + (u32 \<times> lapin_error option)) io" where
  "after_dial L opts failures r = (case r of
       Inr c \<Rightarrow> bind_io (is_closing L) (\<lambda>cl.
         if cl then bind_io (close_quietly L c) (\<lambda>_. fail (into_core BackendClosed))
         else bind_io (pause L) (\<lambda>_. bind_io (install c) (\<lambda>_.
           bind_io (redeclare L opts c) (\<lambda>_. ret (Inl c)))))
     | Inl e \<Rightarrow> ret (Inr (failures + 1, Some e)))"

definition before_dial :: "('w, 'b) lapin \<Rightarrow> duration \<Rightarrow> ('w, 'b, unit) io" where
  "before_dial L dly = bind_io (if dly = 0 then ret () else sleep_unless_closing L dly) (\<lambda>_. check_open L)"

lemma reconnect_once_eq:
  "policy (attempt_of failures l) = Some (Some dly) \<Longrightarrow> reconnect_once L opts policy failures l
     = bind_io (before_dial L dly) (\<lambda>_. bind_io (dial L opts) (after_dial L opts failures))"
  by (simp add: reconnect_once_def before_dial_def after_dial_def [abs_def] bind_io_assoc)

lemma logs_install [logs_rules]: "(\<And>s. C s \<Longrightarrow> C (install_connection c s)) \<Longrightarrow> logs C P (install c)"
  unfolding install_def by (rule logs_writes) (auto simp: install_connection_def)

lemma before_dial_logs: "stable C \<Longrightarrow> logs C housekeeping (before_dial L dly)"
  unfolding before_dial_def by (intro logs_rules)

lemma after_dial_logs: "logs (\<lambda>s. True) housekeeping (after_dial L opts failures r)"
  unfolding after_dial_def by (intro logs_rules TrueI)

lemma before_dial_fails: "fails_with only_closed (before_dial L dly)"
  unfolding before_dial_def by (intro fails_rules)

lemma after_dial_result:
  "after_dial L opts failures r s = Some (x, s') \<Longrightarrow>
     (case r of Inl e \<Rightarrow> x = Inr (Inr (failures + 1, Some e)) | Inr c \<Rightarrow> x = Inr (Inl c) \<or> x = Inl (into_core BackendClosed))"
proof -
  have "fails_with only_closed (after_dial L opts failures r)"
    unfolding after_dial_def install_def by (intro fails_rules refl)
  moreover assume "after_dial L opts failures r s = Some (x, s')"
  ultimately show ?thesis
    by (cases r; cases x) (auto simp: after_dial_def ret_def fail_def bind_io_Inr split: if_splits dest: failsD)
qed

lemma reconnect_once_cases:
  assumes pol: "policy (attempt_of failures l) = Some (Some dly)"
    and run: "reconnect_once L opts policy failures l s = Some (x, s')"
  shows "\<exists>new. log s' = log s @ new \<and> list_all upkeep new
    \<and> (x = Inl (into_core BackendClosed) \<and> dials new \<le> 1
       \<or> (\<exists>c. x = Inr (Inl c) \<and> dials new = 1) \<or> (\<exists>e. x = Inr (Inr (failures + 1, Some e)) \<and> dials new = 1))"
proof -
  from run consider e where "before_dial L dly s = Some (Inl e, s')" "x = Inl e"
    | u t where "before_dial L dly s = Some (Inr u, t)"
      "bind_io (dial L opts) (after_dial L opts failures) t = Some (x, s')"
    unfolding reconnect_once_eq [where policy = policy, OF pol] bind_io_Some by metis
  then show ?thesis
  proof cases
    case 1
    with housekeeping_dials [OF before_dial_logs [OF stable_True]] failsD [OF before_dial_fails] show ?thesis
      by (metis le0)
  next
    case (2 u t)
    obtain a where a: "log t = log s @ a" "dials a = 0" "list_all upkeep a"
      using housekeeping_dials [OF before_dial_logs [OF stable_True] 2(1)] by blast
    from 2(2) obtain r t' where d: "dial L opts t = Some (Inr r, t')"
      "after_dial L opts failures r t' = Some (x, s')"
      unfolding bind_io_Some by (metis dial_logs Inl_Inr_False)
    then have l: "log t' = log t @ [EDial r]" using dial_logs by blast
    obtain b where b: "log s' = log t' @ b" "dials b = 0" "list_all upkeep b"
      using housekeeping_dials [OF after_dial_logs d(2)] by blast
    from after_dial_result [OF d(2)] a l b show ?thesis
      by (intro exI [of _ "a @ EDial r # b"]) (auto split: sum.splits)
  qed
qed

lemma total_once: "policy (attempt_of failures l) \<noteq> None \<Longrightarrow> total (reconnect_once L opts policy failures l)"
  unfolding reconnect_once_def dial_def install_def
  by (cases "policy (attempt_of failures l)") (auto intro!: total_rules)

lemma reconnect_loop_turn: "reconnect_loop L opts policy (failures, l) s =
    (case reconnect_once L opts policy failures l s of None \<Rightarrow> None
     | Some (Inl e, s) \<Rightarrow> Some (Inl e, s)
     | Some (Inr (Inl c), s) \<Rightarrow> Some (Inr c, s)
     | Some (Inr (Inr x), s) \<Rightarrow> reconnect_loop L opts policy x s)"
  unfolding reconnect_loop_def by (subst repeat_io.simps) (auto split: option.split sum.split)

text \<open>With a policy that gives up, the loop comes back after boundedly many dials.\<close>

lemma reconnect_loop_bounded:
  assumes pol: "gives_up_after n policy"
  shows "unat failures \<le> unat n \<Longrightarrow> failures = 0 \<or> l \<noteq> None \<Longrightarrow>
    \<exists>r s' new. reconnect_loop L opts policy (failures, l) s = Some (r, s') \<and> log s' = log s @ new
      \<and> list_all upkeep new \<and> dials new + unat failures \<le> unat n
      \<and> (case r of Inr c \<Rightarrow> True | Inl e \<Rightarrow> e = into_core BackendClosed
           \<or> (\<exists>k l'. e = into_core (ReconnectExhausted k l') \<and> k \<le> n))"
proof (induction "unat n - unat failures" arbitrary: failures l s rule: less_induct)
  case less
  have at: "at_failures (attempt_of failures l) = failures"
    using less.prems(2) by (cases l) (auto simp: attempt_of_def attempt_first_def attempt_after_def)
  obtain s1 x where x: "reconnect_once L opts policy failures l s = Some (x, s1)"
    using total_once [of policy failures l L opts] pol
    by (metis gives_up_after_def total_def not_None_eq surj_pair)
  have le: "failures \<le> n" using less.prems(1) by (simp only: word_le_nat_alt)
  show ?case
  proof (cases "policy (attempt_of failures l)")
    case None
    moreover have "policy (attempt_of failures l) \<noteq> None" using pol unfolding gives_up_after_def by blast
    ultimately show ?thesis by contradiction
  next
    case (Some answer)
    show ?thesis
    proof (cases answer)
      case None
      with Some have "reconnect_once L opts policy failures l s
          = Some (Inl (into_core (ReconnectExhausted failures l)), s)"
        by (simp add: reconnect_once_def fail_def)
      with le less.prems(1) show ?thesis
        by (simp add: reconnect_loop_turn)
    next
      case (Some dly)
      with \<open>policy (attempt_of failures l) = Some answer\<close>
      have p: "policy (attempt_of failures l) = Some (Some dly)" by simp
      with pol at have "\<not> n \<le> failures" by (auto simp: gives_up_after_def)
      then have lt: "failures < n" by simp
      note inc = unat_add_one [OF lt]
      have ltn: "unat failures < unat n" using lt by (simp only: word_less_nat_alt)
      obtain new where new: "log s1 = log s @ new" "list_all upkeep new"
        and cs: "x = Inl (into_core BackendClosed) \<and> dials new \<le> 1
          \<or> (\<exists>c. x = Inr (Inl c) \<and> dials new = 1) \<or> (\<exists>e. x = Inr (Inr (failures + 1, Some e)) \<and> dials new = 1)"
        using reconnect_once_cases [where policy = policy, OF p x] by blast
      from cs consider "x = Inl (into_core BackendClosed)" "dials new \<le> 1" | c where "x = Inr (Inl c)" "dials new = 1"
        | e where "x = Inr (Inr (failures + 1, Some e))" "dials new = 1" by blast
      then show ?thesis
      proof cases
        case (3 e)
        have "unat n - unat (failures + 1) < unat n - unat failures" "unat (failures + 1) \<le> unat n"
          using inc ltn by simp_all
        from less.hyps [OF this, of "Some e" s1] obtain r s' b where
          "reconnect_loop L opts policy (failures + 1, Some e) s1 = Some (r, s')" "log s' = log s1 @ b"
          "list_all upkeep b" "dials b + unat (failures + 1) \<le> unat n"
          "case r of Inr c \<Rightarrow> True | Inl e \<Rightarrow> e = into_core BackendClosed
           \<or> (\<exists>k l'. e = into_core (ReconnectExhausted k l') \<and> k \<le> n)" by auto
        with 3 x new inc show ?thesis
          by (intro exI [of _ r] exI [of _ s'] exI [of _ "new @ b"]) (simp add: reconnect_loop_turn [of L opts policy failures])
      qed (use x new ltn in \<open>simp_all add: reconnect_loop_turn [of L opts policy failures]\<close>)
    qed
  qed
qed

lemma stable_install: "stable C \<Longrightarrow> C s \<Longrightarrow> C (install_connection c s)"
  unfolding stable_def by (metis apply_other.simps(2))

lemma logs_once: "stable C \<Longrightarrow> logs C upkeep (reconnect_once L opts policy failures l)"
proof -
  assume C: "stable C"
  have d: "logs C upkeep (dial L opts)"
    unfolding dial_def by (intro logs_rules C) simp
  have a: "logs C upkeep (after_dial L opts failures r)" for r
    by (rule logs_weaken [of C housekeeping])
      (unfold after_dial_def, intro logs_rules C stable_install [OF C], simp_all)
  have b: "logs C upkeep (before_dial L dly)" for dly
    by (rule logs_weaken [OF before_dial_logs [OF C]]) simp
  show ?thesis
  proof (cases "policy (attempt_of failures l)")
    case None
    then show ?thesis by (simp add: reconnect_once_def logs_never)
  next
    case (Some answer)
    then show ?thesis
    proof (cases answer)
      case None
      with Some show ?thesis by (simp add: reconnect_once_def logs_fail)
    next
      case (Some dly)
      with \<open>policy (attempt_of failures l) = Some answer\<close>
      have "policy (attempt_of failures l) = Some (Some dly)" by simp
      then show ?thesis
        unfolding reconnect_once_eq [where policy = policy, OF \<open>policy (attempt_of failures l) = Some (Some dly)\<close>]
        by (intro logs_bind b d a)
    qed
  qed
qed

lemma logs_ensure_connected: "stable C \<Longrightarrow> logs C upkeep (ensure_connected L opts)"
proof -
  assume C: "stable C"
  have "logs C upkeep (reconnect_loop L opts policy x)" for policy x
    unfolding reconnect_loop_def by (intro logs_rules logs_once C)
  moreover have "logs C upkeep (live L)"
    by (rule logs_weaken [of C housekeeping]) (simp_all add: logs_handle C)
  ultimately show ?thesis
    unfolding ensure_connected_def by (intro logs_rules C)
qed

text \<open>A closed handle fails at once, without a word to the broker.\<close>

lemma closed_fails:
  assumes "closing s" "m s = Some (r, s')" "logs closing (\<lambda>e. False) m"
  shows "log s' = log s \<and> closing s'"
proof -
  obtain new where "closing s'" "log s' = log s @ new" "list_all (\<lambda>e. False) new"
    using logsD [OF assms(3,1,2)] by blast
  then show ?thesis by (cases new) auto
qed

lemma check_open_closed: "closing s \<Longrightarrow> \<exists>s'. check_open L s = Some (Inl (into_core BackendClosed), s')
    \<and> log s' = log s \<and> closing s'"
proof -
  assume cl: "closing s"
  obtain r s' where p: "pause L s = Some (r, s')"
    using total_pause [of L] by (metis not_None_eq surj_pair total_def)
  moreover have "logs closing (\<lambda>e. False) (pause L)" by (intro logs_rules)
  ultimately have "log s' = log s \<and> closing s'" using closed_fails cl by blast
  moreover have "\<exists>u. r = Inr u" using p by (auto simp: pause_def await_Some)
  ultimately show ?thesis using p
    by (auto simp: check_open_def is_closing_def bind_io_def reads_def fail_def)
qed

lemma ensure_connected_closed: "closing s \<Longrightarrow> \<exists>s'. ensure_connected L opts s = Some (Inl (into_core BackendClosed), s')
    \<and> log s' = log s \<and> closing s'"
  using check_open_closed [of s L] by (auto simp: ensure_connected_def live_def bind_io_def)

lemma logs_ensure_connected_closed: "logs closing P (ensure_connected L opts)"
  unfolding logs_def using ensure_connected_closed [of _ L opts] by fastforce

end
