(* ===== verification/Rmq_Publisher.thy ===== *)
theory Rmq_Publisher
  imports Rmq_Connection
begin

text \<open>
  \<open>crates/rabbitmq/src/publisher.rs\<close>: publishing on a leased channel and waiting for the broker's
  confirmation, the hold queues a delay waits in, dead letters, and closing the channels. A lease is
  given back on every path, so what may fail while it is held is run with its result as a value.
\<close>

section \<open>Leasing a channel\<close>

definition acquire_permit :: "('w, 'b) lapin \<Rightarrow> ('w, 'b, unit) io" where
  "acquire_permit L = bind_io (pause L) (\<lambda>_ s. case take_permit (confirm_pool s) of
       None \<Rightarrow> None
     | Some (Inl e) \<Rightarrow> Some (Inl e, s)
     | Some (Inr p) \<Rightarrow> Some (Inr (), s\<lparr>confirm_pool := p\<rparr>))"

definition pop_channel :: "('w, 'b, nat option) io" where
  "pop_channel s = (case pop_idle (confirm_pool s) of (c, p) \<Rightarrow> Some (Inr c, s\<lparr>confirm_pool := p\<rparr>))"

definition open_confirm_channel :: "('w, 'b) lapin \<Rightarrow> nat \<Rightarrow> ('w, 'b, nat) io" where
  "open_confirm_channel L c = bind_io (create_channel L c) (\<lambda>r. bind_io (or_amqp r) (\<lambda>ch.
     bind_io (await L (l_confirm_select L ch) (\<lambda>_. [])) (\<lambda>r. bind_io (or_amqp r) (\<lambda>_. ret ch))))"

definition open_replacement :: "('w, 'b) lapin \<Rightarrow> rmq_options \<Rightarrow> ('w, 'b, nat) io" where
  "open_replacement L opts = bind_io (ensure_connected L opts) (\<lambda>c. open_confirm_channel L c)"

definition or_release :: "('w, 'b, 'a) io \<Rightarrow> ('w, 'b, 'a) io" where
  "or_release m = bind_io (catch m) (\<lambda>r. case r of
       Inl e \<Rightarrow> bind_io (writes (\<lambda>s. s\<lparr>confirm_pool := release_permit (confirm_pool s)\<rparr>)) (\<lambda>_. fail e)
     | Inr x \<Rightarrow> ret x)"

definition acquire :: "('w, 'b) lapin \<Rightarrow> rmq_options \<Rightarrow> ('w, 'b, nat) io" where
  "acquire L opts = bind_io (acquire_permit L) (\<lambda>_. bind_io pop_channel (\<lambda>pooled. or_release
     (case pooled of
        Some ch \<Rightarrow> bind_io (chan_up L ch) (\<lambda>up. if up then ret ch else open_replacement L opts)
      | None \<Rightarrow> open_replacement L opts)))"

definition end_lease :: "nat \<Rightarrow> ('w, 'b, unit) io" where
  "end_lease ch = writes (\<lambda>s. s\<lparr>confirm_pool := drop_lease ch (confirm_pool s)\<rparr>)"

section \<open>Publishing\<close>

fun confirmation_to_result :: "confirmation \<Rightarrow> string \<Rightarrow> core_error + unit" where
  "confirmation_to_result (CAck None) key = Inr ()"
| "confirmation_to_result (CAck (Some returned)) key =
     Inl (into_core (Returned (reply_code returned) (reply_text returned) key))"
| "confirmation_to_result (CNack (Some returned)) key =
     Inl (into_core (Returned (reply_code returned) (reply_text returned) key))"
| "confirmation_to_result (CNack None) key = Inl (into_core (Nacked key))"
| "confirmation_to_result CNotRequested key = Inl (into_core (ConfirmsNotEnabled key))"

definition publish_on :: "('w, 'b) lapin \<Rightarrow> nat \<Rightarrow> string \<Rightarrow> 'b \<Rightarrow> basic_properties \<Rightarrow> ('w, 'b, confirmation) io" where
  "publish_on L ch key body props =
     bind_io (await L (l_basic_publish L ch key True body props) (\<lambda>r. [EPublish ch key body props r])) (\<lambda>r.
     bind_io (or_amqp r) (\<lambda>_.
     bind_io (await L (l_await_confirm L ch) (\<lambda>r. [EConfirm ch key body props r])) or_amqp))"

definition publish_confirmed :: "('w, 'b) lapin \<Rightarrow> rmq_options \<Rightarrow> string \<Rightarrow> 'b \<Rightarrow> basic_properties
    \<Rightarrow> ('w, 'b, unit) io" where
  "publish_confirmed L opts q body props =
     bind_io (lift_res (short_string q)) (\<lambda>key.
     bind_io (acquire L opts) (\<lambda>ch.
     bind_io (catch (publish_on L ch key body props)) (\<lambda>r.
     bind_io (end_lease ch) (\<lambda>_.
     bind_io (lift_res r) (\<lambda>conf. lift_res (confirmation_to_result conf q))))))"

definition publish_envelope :: "('w, 'b) lapin \<Rightarrow> rmq_options \<Rightarrow> envelope \<Rightarrow> ('w, 'b, unit) io" where
  "publish_envelope L opts e = bind_io (lift_res (to_bytes (l_wire L) e)) (\<lambda>body.
     publish_confirmed L opts (queue e) body (props_for (l_show_uuid L) e))"

section \<open>Holding\<close>

definition with_declare_channel :: "('w, 'b) lapin \<Rightarrow> rmq_options \<Rightarrow> ('w, 'b, nat) io" where
  "with_declare_channel L opts = bind_io (pause L) (\<lambda>_. bind_io (reads declare_channel) (\<lambda>ch.
     bind_io (chan_up L ch) (\<lambda>up.
     if up then ret ch
     else bind_io (ensure_connected L opts) (\<lambda>c. bind_io (create_channel L c) (\<lambda>r.
          bind_io (or_amqp r) (\<lambda>ch. bind_io (writes (\<lambda>s. s\<lparr>declare_channel := ch\<rparr>)) (\<lambda>_. ret ch)))))))"

definition publish_held :: "('w, 'b) lapin \<Rightarrow> rmq_options \<Rightarrow> envelope \<Rightarrow> duration \<Rightarrow> hold \<Rightarrow> ('w, 'b, unit) io" where
  "publish_held L opts e dly h = bind_io (config_for (queue e)) (\<lambda>cfg. case cfg of
       None \<Rightarrow> fail (UnknownQueue (queue e))
     | Some config \<Rightarrow> (case deferred_ttl_ms dly (granularity h opts) of
         None \<Rightarrow> fail (into_core (DelayTooLong dly (from_millis (unat MAX_DEFERRAL_MS))))
       | Some ttl_ms \<Rightarrow>
           (let hold_queue = deferred_queue_name (queue e) (deferred_suffix opts) ttl_ms
            in bind_io (lift_res (short_string hold_queue)) (\<lambda>hold_name.
               bind_io (with_declare_channel L opts) (\<lambda>ch.
               bind_io (queue_declare L ch hold_name (declare_options (durable config))
                 (deferred_queue_args config ttl_ms)) (\<lambda>_.
               bind_io (lift_res (to_bytes (l_wire L) e)) (\<lambda>body.
               publish_confirmed L opts hold_queue body (props_for (l_show_uuid L) e))))))))"

section \<open>Dead letters\<close>

definition publish_dead_letter :: "('w, 'b) lapin \<Rightarrow> rmq_options \<Rightarrow> envelope \<Rightarrow> string \<Rightarrow> ('w, 'b, unit) io" where
  "publish_dead_letter L opts e reason = bind_io (lift_res (to_bytes (l_wire L) e)) (\<lambda>body.
     publish_confirmed L opts (dead_queue_name (queue e) (dead_suffix opts)) body
       (dead_letter_props (l_show_uuid L) e reason))"

definition publish_malformed :: "('w, 'b) lapin \<Rightarrow> rmq_options \<Rightarrow> string \<Rightarrow> 'b \<Rightarrow> string \<Rightarrow> ('w, 'b, unit) io" where
  "publish_malformed L opts q body reason =
     publish_confirmed L opts (dead_queue_name q (dead_suffix opts)) body (malformed_props q reason)"

section \<open>Closing\<close>

definition close_channel :: "('w, 'b) lapin \<Rightarrow> nat \<Rightarrow> ('w, 'b, unit) io" where
  "close_channel L ch = bind_io (chan_up L ch) (\<lambda>up.
     if \<not> up then ret ()
     else bind_io (close_chan L ch) (\<lambda>r. case r of
         Inr u \<Rightarrow> ret ()
       | Inl e \<Rightarrow> (if is_benign_close_error e then ret () else fail (amqp e))))"

fun close_channels :: "('w, 'b) lapin \<Rightarrow> nat list \<Rightarrow> core_error + unit \<Rightarrow> ('w, 'b, core_error + unit) io" where
  "close_channels L [] res = ret res"
| "close_channels L (ch # chs) res = bind_io (catch (close_channel L ch)) (\<lambda>closed.
     close_channels L chs (if is_ok res then closed else res))"

text \<open>What follows once the permits are taken; they are given back at the end, unless the pool was closed
  already and none were.\<close>

definition close_idle :: "('w, 'b) lapin \<Rightarrow> pool \<Rightarrow> nat list \<Rightarrow> ('w, 'b, unit) io" where
  "close_idle L p chs = bind_io (close_channels L chs (Inr ())) (\<lambda>res.
     bind_io (writes (\<lambda>t. if pl_closed p then t
       else t\<lparr>confirm_pool := (confirm_pool t)\<lparr>pl_free := pl_free (confirm_pool t) + pl_size p\<rparr>\<rparr>)) (\<lambda>_.
     lift_res res))"

definition close_pool :: "('w, 'b) lapin \<Rightarrow> ('w, 'b, unit) io" where
  "close_pool L = bind_io (pause L) (\<lambda>_ s. case take_all_permits (confirm_pool s) of
       None \<Rightarrow> None
     | Some p \<Rightarrow> (case shut_pool p of (chs, p') \<Rightarrow> close_idle L p chs (s\<lparr>confirm_pool := p'\<rparr>)))"

definition close_publisher :: "('w, 'b) lapin \<Rightarrow> ('w, 'b, unit) io" where
  "close_publisher L = bind_io (catch (close_pool L)) (\<lambda>publishing.
     bind_io (catch (bind_io (pause L) (\<lambda>_. bind_io (reads declare_channel) (close_channel L)))) (\<lambda>declaring.
     lift_res (if is_ok publishing then declaring else publishing)))"

section \<open>What publishing asks of the broker\<close>

fun no_settle :: "'b rmq_event \<Rightarrow> bool" where
  "no_settle (EAck a r) = False"
| "no_settle (EReject a q r) = False"
| "no_settle _ = True"

text \<open>What the broker has taken responsibility for: a confirmation that is a bare ack.\<close>

fun accepted :: "'b rmq_event \<Rightarrow> (string \<times> 'b \<times> basic_properties) option" where
  "accepted (EConfirm ch q b p (Inr (CAck None))) = Some (q, b, p)"
| "accepted _ = None"

text \<open>Nothing accepted and nothing settled.\<close>

abbreviation fruitless :: "'b rmq_event \<Rightarrow> bool" where
  "fruitless e \<equiv> accepted e = None \<and> no_settle e"

lemma upkeep_fruitless: "upkeep e \<Longrightarrow> fruitless e"
  by (cases e) auto

lemma upkeep_list_fruitless: "list_all upkeep new \<Longrightarrow> list_all fruitless new"
  by (induction new) (auto dest: upkeep_fruitless)

lemma stable_pool: "stable C \<Longrightarrow> C s \<Longrightarrow> C (s\<lparr>confirm_pool := p\<rparr>)"
  by (simp add: stable_def)

lemma stable_declare_channel: "stable C \<Longrightarrow> C s \<Longrightarrow> C (s\<lparr>declare_channel := c\<rparr>)"
  unfolding stable_def by (metis apply_other.simps(5))

lemma logs_acquire_permit: "stable C \<Longrightarrow> logs C P (acquire_permit L)"
  unfolding acquire_permit_def
  by (intro logs_bind logs_pause) (auto simp: logs_def stable_pool split: option.splits sum.splits)

lemma logs_pop_channel: "stable C \<Longrightarrow> logs C P pop_channel"
  by (auto simp: logs_def pop_channel_def stable_pool split: prod.splits)

lemma logs_or_release: "stable C \<Longrightarrow> logs C P m \<Longrightarrow> logs C P (or_release m)"
  unfolding or_release_def by (intro logs_rules) (auto simp: stable_pool)

lemma logs_end_lease: "stable C \<Longrightarrow> logs C P (end_lease ch)"
  unfolding end_lease_def by (intro logs_rules) (auto simp: stable_pool)

lemma logs_open_replacement:
  assumes "stable C" "logs C P (ensure_connected L opts)" "\<And>e. housekeeping e \<Longrightarrow> P e"
  shows "logs C P (open_replacement L opts)"
  unfolding open_replacement_def open_confirm_channel_def create_channel_def
  by (intro logs_rules assms) simp_all

lemma logs_acquire:
  assumes "stable C" "logs C P (ensure_connected L opts)" "\<And>e. housekeeping e \<Longrightarrow> P e"
  shows "logs C P (acquire L opts)"
  unfolding acquire_def chan_up_def
  by (intro logs_rules logs_acquire_permit logs_pop_channel logs_or_release logs_open_replacement assms) simp_all

lemma logs_with_declare_channel:
  assumes "stable C" "logs C P (ensure_connected L opts)"
  shows "logs C P (with_declare_channel L opts)"
  unfolding with_declare_channel_def create_channel_def chan_up_def
  by (intro logs_rules assms) (simp_all add: stable_declare_channel assms)

lemma publish_on_cases:
  assumes "publish_on L ch q body props s = Some (r, s')"
  shows "\<exists>new. log s' = log s @ new \<and> (case r of
      Inr conf \<Rightarrow> new = [EPublish ch q body props (Inr ()), EConfirm ch q body props (Inr conf)]
    | Inl e \<Rightarrow> list_all fruitless new)"
proof -
  from assms obtain x t where x: "log t = log s @ [EPublish ch q body props x]"
    "bind_io (or_amqp x) (\<lambda>_. bind_io (await L (l_await_confirm L ch) (\<lambda>r. [EConfirm ch q body props r])) or_amqp) t
      = Some (r, s')"
    unfolding publish_on_def bind_io_Some [of "await _ _ _"] by (auto dest: await_log)
  show ?thesis
  proof (cases x)
    case (Inl e)
    with x show ?thesis by (auto simp: or_amqp_def fail_def bind_io_def)
  next
    case (Inr u)
    with x(2) obtain y t' where "log t' = log t @ [EConfirm ch q body props y]" "or_amqp y t' = Some (r, s')"
      by (auto simp: or_amqp_def ret_def bind_io_Some dest: await_log)
    with x(1) Inr show ?thesis by (cases y) (auto simp: or_amqp_def fail_def ret_def)
  qed
qed

section \<open>Sequences that accept at most one message\<close>

text \<open>\<open>runs_to Q m\<close>: when \<open>m\<close> fails, nothing was accepted and nothing settled; when it succeeds, the
  events it caused satisfy \<open>Q\<close>.\<close>

definition runs_to :: "('a \<Rightarrow> 'b rmq_event list \<Rightarrow> bool) \<Rightarrow> ('w, 'b, 'a) io \<Rightarrow> bool" where
  "runs_to Q m \<longleftrightarrow> (\<forall>s r s'. m s = Some (r, s') \<longrightarrow> (\<exists>new. log s' = log s @ new
     \<and> (case r of Inl e \<Rightarrow> list_all fruitless new | Inr x \<Rightarrow> Q x new)))"

lemma runs_toD: "runs_to Q m \<Longrightarrow> m s = Some (r, s') \<Longrightarrow> \<exists>new. log s' = log s @ new
     \<and> (case r of Inl e \<Rightarrow> list_all fruitless new | Inr x \<Rightarrow> Q x new)"
  by (auto simp: runs_to_def)

lemma runs_to_bind:
  assumes "runs_to Q m" and f: "\<And>x a. Q x a \<Longrightarrow> list_all fruitless a"
    and k: "\<And>x a. Q x a \<Longrightarrow> runs_to (R x) (f x)"
    and T: "\<And>x a y b. Q x a \<Longrightarrow> R x y b \<Longrightarrow> T y (a @ b)"
  shows "runs_to T (bind_io m f)"
  unfolding runs_to_def
proof (intro allI impI)
  fix s r s'
  assume "bind_io m f s = Some (r, s')"
  then consider e where "m s = Some (Inl e, s')" "r = Inl e"
    | x t where "m s = Some (Inr x, t)" "f x t = Some (r, s')"
    by (auto simp: bind_io_Some)
  then show "\<exists>new. log s' = log s @ new \<and> (case r of Inl e \<Rightarrow> list_all fruitless new | Inr y \<Rightarrow> T y new)"
  proof cases
    case 1
    with runs_toD [OF assms(1) 1(1)] show ?thesis by auto
  next
    case (2 x t)
    from runs_toD [OF assms(1) 2(1)] obtain a where a: "log t = log s @ a" "Q x a" by auto
    from runs_toD [OF k [OF a(2)] 2(2)] obtain b where b: "log s' = log t @ b"
      "case r of Inl e \<Rightarrow> list_all fruitless b | Inr y \<Rightarrow> R x y b" by blast
    with a f [OF a(2)] T [OF a(2)] show ?thesis
      by (intro exI [of _ "a @ b"]) (auto split: sum.splits)
  qed
qed

lemma runs_to_upkeep: "logs (\<lambda>s. True) upkeep m \<Longrightarrow> runs_to (\<lambda>x. list_all fruitless) m"
  unfolding runs_to_def using logsD upkeep_list_fruitless by (fastforce split: sum.split)

lemma runs_to_lift: "runs_to (\<lambda>x new. r = Inr x \<and> new = []) (lift_res r)"
  by (auto simp: runs_to_def lift_res_def split: sum.split)

lemma runs_to_acquire: "runs_to (\<lambda>x. list_all fruitless) (acquire L opts)"
proof (rule runs_to_upkeep, rule logs_acquire)
  show "logs (\<lambda>s. True) upkeep (ensure_connected L opts)"
    by (rule logs_ensure_connected [OF stable_True])
qed (simp_all add: stable_True)

lemma runs_to_declare_channel: "runs_to (\<lambda>x. list_all fruitless) (with_declare_channel L opts)"
  by (intro runs_to_upkeep logs_with_declare_channel logs_ensure_connected stable_True)

text \<open>A publish that succeeds ends with the broker's bare ack of exactly this message; one that fails
  leaves nothing accepted.\<close>

definition ends_accepted :: "string \<Rightarrow> 'b \<Rightarrow> basic_properties \<Rightarrow> 'b rmq_event list \<Rightarrow> bool" where
  "ends_accepted q body props new \<longleftrightarrow>
     (\<exists>pre ch. new = pre @ [EConfirm ch q body props (Inr (CAck None))] \<and> list_all fruitless pre)"

lemma ends_accepted_append: "list_all fruitless a \<Longrightarrow> ends_accepted q body props b \<Longrightarrow> ends_accepted q body props (a @ b)"
proof -
  assume a: "list_all fruitless a" and "ends_accepted q body props b"
  then obtain pre ch where "b = pre @ [EConfirm ch q body props (Inr (CAck None))]" "list_all fruitless pre"
    unfolding ends_accepted_def by blast
  with a show ?thesis
    unfolding ends_accepted_def by (intro exI [of _ "a @ pre"] exI [of _ ch]) simp
qed

lemma confirmation_cases:
  "confirmation_to_result conf q = (if conf = CAck None then Inr () else
     Inl (case confirmation_to_result conf q of Inl e \<Rightarrow> e | Inr u \<Rightarrow> undefined))
   \<and> (conf \<noteq> CAck None \<longrightarrow> accepted (EConfirm ch q body props (Inr conf)) = None)"
  by (cases "(conf, q)" rule: confirmation_to_result.cases) auto

lemma leased_runs_to: "runs_to (\<lambda>u. ends_accepted q body props)
    (bind_io (catch (publish_on L ch q body props)) (\<lambda>r. bind_io (end_lease ch) (\<lambda>_.
       bind_io (lift_res r) (\<lambda>conf. lift_res (confirmation_to_result conf q)))))"
  unfolding runs_to_def
proof (intro allI impI)
  fix s r s'
  assume "bind_io (catch (publish_on L ch q body props)) (\<lambda>r. bind_io (end_lease ch) (\<lambda>_.
       bind_io (lift_res r) (\<lambda>conf. lift_res (confirmation_to_result conf q)))) s = Some (r, s')"
  then obtain x t where x: "publish_on L ch q body props s = Some (x, t)" "log s' = log t"
    "r = (case x of Inl e \<Rightarrow> Inl e | Inr conf \<Rightarrow> confirmation_to_result conf q)"
    by (auto simp: catch_def bind_io_def end_lease_def writes_def lift_res_def split: option.splits sum.splits)
  from publish_on_cases [OF x(1)] obtain new where new: "log t = log s @ new" "case x of
      Inr conf \<Rightarrow> new = [EPublish ch q body props (Inr ()), EConfirm ch q body props (Inr conf)]
    | Inl e \<Rightarrow> list_all fruitless new" by blast
  have "case r of Inl e \<Rightarrow> list_all fruitless new | Inr u \<Rightarrow> ends_accepted q body props new"
  proof (cases x)
    case (Inr conf)
    then have n: "new = [EPublish ch q body props (Inr ())] @ [EConfirm ch q body props (Inr conf)]"
      using new(2) by simp
    show ?thesis
    proof (cases "conf = CAck None")
      case True
      then have "ends_accepted q body props new"
        unfolding ends_accepted_def n by (intro exI [of _ "[EPublish ch q body props (Inr ())]"] exI [of _ ch]) simp
      with True x(3) Inr show ?thesis by simp
    next
      case False
      with confirmation_cases [of conf q ch body props] x(3) Inr show ?thesis
        by (auto simp: n split: sum.splits)
    qed
  qed (use x new in simp)
  with new x(2) show "\<exists>new. log s' = log s @ new
      \<and> (case r of Inl e \<Rightarrow> list_all fruitless new | Inr u \<Rightarrow> ends_accepted q body props new)" by auto
qed

lemma publish_confirmed_runs_to: "runs_to (\<lambda>u. ends_accepted q body props) (publish_confirmed L opts q body props)"
  unfolding publish_confirmed_def
proof (rule runs_to_bind [OF runs_to_lift], simp)
  fix key a
  assume "short_string q = Inr key \<and> a = []"
  then have key: "key = q" by simp
  show "runs_to (\<lambda>u. ends_accepted q body props) (bind_io (acquire L opts) (\<lambda>ch.
      bind_io (catch (publish_on L ch key body props)) (\<lambda>r. bind_io (end_lease ch) (\<lambda>_.
      bind_io (lift_res r) (\<lambda>conf. lift_res (confirmation_to_result conf q))))))"
    unfolding key
    by (rule runs_to_bind [OF runs_to_acquire _ leased_runs_to]) (simp_all add: ends_accepted_append)
qed simp

text \<open>The bytes of an envelope.\<close>

definition body_of :: "('w, 'b) lapin \<Rightarrow> envelope \<Rightarrow> 'b" where
  "body_of L e = print_json (l_wire L) (JObj (envelope_fields (l_wire L) e))"

lemma bind_to_bytes [simp]: "bind_io (lift_res (to_bytes (l_wire L) e)) f = f (body_of L e)"
  by (simp add: fun_eq_iff bind_io_def lift_res_def to_bytes_def body_of_def)

lemma bind_reads [simp]: "bind_io (reads f) g s = g (f s) s"
  by (simp add: bind_io_def reads_def)

lemma declare_runs_to: "runs_to (\<lambda>u new. new = [EDeclare ch n dopts args (Inr ())]) (queue_declare L ch n dopts args)"
  unfolding runs_to_def
proof (intro allI impI)
  fix s r s'
  assume "queue_declare L ch n dopts args s = Some (r, s')"
  then obtain x t where "log t = log s @ [EDeclare ch n dopts args x]" "or_amqp x t = Some (r, s')"
    unfolding queue_declare_def bind_io_Some by (auto dest: await_log)
  then show "\<exists>new. log s' = log s @ new \<and> (case r of Inl e \<Rightarrow> list_all fruitless new
      | Inr u \<Rightarrow> new = [EDeclare ch n dopts args (Inr ())])"
    by (cases x) (auto simp: or_amqp_def ret_def fail_def)
qed

text \<open>What a successful hold amounts to: the hold queue was declared for this delay and then the broker
  has acked the envelope into it.\<close>

definition hold_done :: "('w, 'b) lapin \<Rightarrow> rmq_options \<Rightarrow> queue_config \<Rightarrow> envelope \<Rightarrow> u32
    \<Rightarrow> 'b rmq_event list \<Rightarrow> bool" where
  "hold_done L opts config e ttl new \<longleftrightarrow>
     (let name = deferred_queue_name (queue e) (deferred_suffix opts) ttl in
      ends_accepted name (body_of L e) (props_for (l_show_uuid L) e) new
      \<and> (\<exists>ch. EDeclare ch name (declare_options (durable config)) (deferred_queue_args config ttl) (Inr ()) \<in> set new))"

lemma declare_publish_runs_to:
  "runs_to (\<lambda>u. hold_done L opts config e ttl)
     (bind_io (queue_declare L ch (deferred_queue_name (queue e) (deferred_suffix opts) ttl)
        (declare_options (durable config)) (deferred_queue_args config ttl)) (\<lambda>_.
      publish_confirmed L opts (deferred_queue_name (queue e) (deferred_suffix opts) ttl) (body_of L e)
        (props_for (l_show_uuid L) e)))"
  by (rule runs_to_bind [OF declare_runs_to _ publish_confirmed_runs_to])
    (auto simp: hold_done_def Let_def intro: ends_accepted_append [of "[_]", simplified])

lemma hold_rest_runs_to:
  "runs_to (\<lambda>u. hold_done L opts config e ttl)
     (bind_io (lift_res (short_string (deferred_queue_name (queue e) (deferred_suffix opts) ttl))) (\<lambda>hold_name.
      bind_io (with_declare_channel L opts) (\<lambda>ch.
      bind_io (queue_declare L ch hold_name (declare_options (durable config)) (deferred_queue_args config ttl)) (\<lambda>_.
      bind_io (lift_res (to_bytes (l_wire L) e)) (\<lambda>body.
      publish_confirmed L opts (deferred_queue_name (queue e) (deferred_suffix opts) ttl) body
        (props_for (l_show_uuid L) e))))))"
proof (rule runs_to_bind [OF runs_to_lift], simp)
  fix hold_name a
  assume "short_string (deferred_queue_name (queue e) (deferred_suffix opts) ttl) = Inr hold_name \<and> a = []"
  then have n: "hold_name = deferred_queue_name (queue e) (deferred_suffix opts) ttl" by simp
  show "runs_to (\<lambda>u. hold_done L opts config e ttl) (bind_io (with_declare_channel L opts) (\<lambda>ch.
      bind_io (queue_declare L ch hold_name (declare_options (durable config)) (deferred_queue_args config ttl)) (\<lambda>_.
      bind_io (lift_res (to_bytes (l_wire L) e)) (\<lambda>body.
      publish_confirmed L opts (deferred_queue_name (queue e) (deferred_suffix opts) ttl) body
        (props_for (l_show_uuid L) e)))))"
    unfolding n bind_to_bytes
    by (rule runs_to_bind [OF runs_to_declare_channel _ declare_publish_runs_to])
      (auto simp: hold_done_def Let_def intro: ends_accepted_append)
qed simp

lemma publish_held_cases:
  assumes run: "publish_held L opts e dly h s = Some (r, s')"
  shows "\<exists>new. log s' = log s @ new \<and> (case r of
      Inl x \<Rightarrow> list_all fruitless new
    | Inr u \<Rightarrow> (\<exists>config ttl. map_of (configs s) (queue e) = Some config
        \<and> deferred_ttl_ms dly (granularity h opts) = Some ttl \<and> hold_done L opts config e ttl new))"
proof (cases "map_of (configs s) (queue e)")
  case None
  with run show ?thesis by (auto simp: publish_held_def config_for_def fail_def)
next
  case (Some config)
  show ?thesis
  proof (cases "deferred_ttl_ms dly (granularity h opts)")
    case None
    with run Some show ?thesis by (auto simp: publish_held_def config_for_def fail_def)
  next
    case (Some ttl)
    with run \<open>map_of (configs s) (queue e) = Some config\<close>
    have r: "bind_io (lift_res (short_string (deferred_queue_name (queue e) (deferred_suffix opts) ttl))) (\<lambda>hold_name.
      bind_io (with_declare_channel L opts) (\<lambda>ch.
      bind_io (queue_declare L ch hold_name (declare_options (durable config)) (deferred_queue_args config ttl)) (\<lambda>_.
      bind_io (lift_res (to_bytes (l_wire L) e)) (\<lambda>body.
      publish_confirmed L opts (deferred_queue_name (queue e) (deferred_suffix opts) ttl) body
        (props_for (l_show_uuid L) e))))) s = Some (r, s')"
      by (simp add: publish_held_def config_for_def Let_def)
    from runs_toD [OF hold_rest_runs_to r] Some \<open>map_of (configs s) (queue e) = Some config\<close>
    show ?thesis by (auto split: sum.splits)
  qed
qed

lemma publish_envelope_runs_to: "runs_to (\<lambda>u. ends_accepted (queue e) (body_of L e) (props_for (l_show_uuid L) e))
    (publish_envelope L opts e)"
  unfolding publish_envelope_def bind_to_bytes by (rule publish_confirmed_runs_to)

lemma publish_dead_letter_runs_to:
  "runs_to (\<lambda>u. ends_accepted (dead_queue_name (queue e) (dead_suffix opts)) (body_of L e)
      (dead_letter_props (l_show_uuid L) e reason)) (publish_dead_letter L opts e reason)"
  unfolding publish_dead_letter_def bind_to_bytes by (rule publish_confirmed_runs_to)

lemma publish_malformed_runs_to:
  "runs_to (\<lambda>u. ends_accepted (dead_queue_name q (dead_suffix opts)) body (malformed_props q reason))
     (publish_malformed L opts q body reason)"
  unfolding publish_malformed_def by (rule publish_confirmed_runs_to)

end
