(* ===== verification/Rmq_Delivery.thy ===== *)
theory Rmq_Delivery
  imports Rmq_Publisher Backend_Spec
begin

text \<open>
  \<open>crates/rabbitmq/src/delivery.rs\<close>: one message in flight, and the four ways to settle it. Retrying,
  deferring and dead-lettering publish first and settle the original second.
\<close>

record rmq_delivery =
  rd_envelope :: envelope
  rd_acker :: nat

definition delivery_new :: "envelope \<Rightarrow> nat \<Rightarrow> rmq_delivery" where
  "delivery_new e a = \<lparr>rd_envelope = e, rd_acker = a\<rparr>"

definition settled_result :: "('w, 'b) lapin \<Rightarrow> rmq_delivery \<Rightarrow> bool \<Rightarrow> string \<Rightarrow> core_error + unit" where
  "settled_result L d done operation = (if done then Inr ()
     else Inl (into_core (AlreadySettled operation (l_show_uuid L (job_id (rd_envelope d)))
       (queue (rd_envelope d)))))"

definition send_ack :: "('w, 'b) lapin \<Rightarrow> nat \<Rightarrow> ('w, 'b, lapin_error + bool) io" where
  "send_ack L a = await L (l_ack L a) (\<lambda>r. [EAck a r])"

definition send_reject :: "('w, 'b) lapin \<Rightarrow> nat \<Rightarrow> ('w, 'b, lapin_error + bool) io" where
  "send_reject L a = await L (l_reject L a False) (\<lambda>r. [EReject a False r])"

definition ack_original :: "('w, 'b) lapin \<Rightarrow> rmq_delivery \<Rightarrow> ('w, 'b, unit) io" where
  "ack_original L d = bind_io (send_ack L (rd_acker d)) (\<lambda>r. bind_io (or_amqp r) (\<lambda>acked.
     lift_res (settled_result L d acked ''ack'')))"

definition reject_original :: "('w, 'b) lapin \<Rightarrow> rmq_delivery \<Rightarrow> ('w, 'b, unit) io" where
  "reject_original L d = bind_io (send_reject L (rd_acker d)) (\<lambda>r. bind_io (or_amqp r) (\<lambda>rejected.
     lift_res (settled_result L d rejected ''reject'')))"

definition rmq_ack :: "('w, 'b) lapin \<Rightarrow> rmq_delivery \<Rightarrow> ('w, 'b, unit) io" where
  "rmq_ack L d = ack_original L d"

definition rmq_dead_letter :: "('w, 'b) lapin \<Rightarrow> rmq_options \<Rightarrow> rmq_delivery \<Rightarrow> string \<Rightarrow> ('w, 'b, unit) io" where
  "rmq_dead_letter L opts d reason =
     (if \<not> declare_dead_letter_queues opts then reject_original L d
      else bind_io (publish_dead_letter L opts (rd_envelope d) reason) (\<lambda>_. ack_original L d))"

definition rmq_retry :: "('w, 'b) lapin \<Rightarrow> rmq_options \<Rightarrow> rmq_delivery \<Rightarrow> envelope \<Rightarrow> duration \<Rightarrow> ('w, 'b, unit) io" where
  "rmq_retry L opts d nxt dly = bind_io (publish_held L opts nxt dly HoldRetry) (\<lambda>_. ack_original L d)"

definition rmq_defer :: "('w, 'b) lapin \<Rightarrow> rmq_options \<Rightarrow> rmq_delivery \<Rightarrow> envelope \<Rightarrow> duration \<Rightarrow> ('w, 'b, unit) io" where
  "rmq_defer L opts d nxt dly = bind_io (publish_held L opts nxt dly HoldDeferral) (\<lambda>_. ack_original L d)"

definition rmq_settle :: "('w, 'b) lapin \<Rightarrow> rmq_options \<Rightarrow> settlement \<Rightarrow> rmq_delivery \<Rightarrow> ('w, 'b, unit) io" where
  "rmq_settle L opts st d = (case st of
       SAck \<Rightarrow> rmq_ack L d
     | SDeadLetter r \<Rightarrow> rmq_dead_letter L opts d r
     | SRetry e t \<Rightarrow> rmq_retry L opts d e t
     | SDefer e t \<Rightarrow> rmq_defer L opts d e t)"

section \<open>Publish first, settle second\<close>

text \<open>The call that settles the original, and what the caller is told.\<close>

definition settling_call :: "rmq_options \<Rightarrow> settlement \<Rightarrow> rmq_delivery \<Rightarrow> lapin_error + bool \<Rightarrow> 'b rmq_event" where
  "settling_call opts st d a = (case st of
       SDeadLetter r \<Rightarrow> (if declare_dead_letter_queues opts then EAck (rd_acker d) a
                         else EReject (rd_acker d) False a)
     | _ \<Rightarrow> EAck (rd_acker d) a)"

text \<open>What has to have happened before: \<open>cfgs\<close> are the queues declared so far.\<close>

definition hold_of :: "('w, 'b) lapin \<Rightarrow> rmq_options \<Rightarrow> (string \<times> queue_config) list \<Rightarrow> envelope \<Rightarrow> duration \<Rightarrow> hold
    \<Rightarrow> 'b rmq_event list \<Rightarrow> bool" where
  "hold_of L opts cfgs e dly h new \<longleftrightarrow> (\<exists>config ttl. map_of cfgs (queue e) = Some config
     \<and> deferred_ttl_ms dly (granularity h opts) = Some ttl \<and> hold_done L opts config e ttl new)"

fun published_for :: "('w, 'b) lapin \<Rightarrow> rmq_options \<Rightarrow> (string \<times> queue_config) list \<Rightarrow> settlement \<Rightarrow> rmq_delivery
    \<Rightarrow> 'b rmq_event list \<Rightarrow> bool" where
  "published_for L opts cfgs SAck d new \<longleftrightarrow> new = []"
| "published_for L opts cfgs (SDeadLetter r) d new \<longleftrightarrow> (if declare_dead_letter_queues opts
     then ends_accepted (dead_queue_name (queue (rd_envelope d)) (dead_suffix opts)) (body_of L (rd_envelope d))
       (dead_letter_props (l_show_uuid L) (rd_envelope d) r) new
     else new = [])"
| "published_for L opts cfgs (SRetry e t) d new \<longleftrightarrow> hold_of L opts cfgs e t HoldRetry new"
| "published_for L opts cfgs (SDefer e t) d new \<longleftrightarrow> hold_of L opts cfgs e t HoldDeferral new"

definition settle_outcome :: "('w, 'b) lapin \<Rightarrow> rmq_options \<Rightarrow> (string \<times> queue_config) list \<Rightarrow> settlement
    \<Rightarrow> rmq_delivery \<Rightarrow> core_error + unit \<Rightarrow> 'b rmq_event list \<Rightarrow> bool" where
  "settle_outcome L opts cfgs st d r new \<longleftrightarrow>
     (\<exists>e. r = Inl e \<and> list_all fruitless new)
   \<or> (\<exists>pre a. new = pre @ [settling_call opts st d a] \<and> published_for L opts cfgs st d pre
        \<and> (r = Inr () \<longleftrightarrow> a = Inr True))"

lemma settled_result_ok [simp]: "settled_result L d done op = Inr () \<longleftrightarrow> done"
  by (simp add: settled_result_def)

lemma settle_tail:
  assumes "bind_io (await L f (\<lambda>a. [ev a])) (\<lambda>r. bind_io (or_amqp r) (\<lambda>ok. lift_res (settled_result L d ok op))) s
     = Some (r, s')"
  shows "\<exists>a. log s' = log s @ [ev a] \<and> (r = Inr () \<longleftrightarrow> a = Inr True)"
proof -
  from assms obtain a t where a: "log t = log s @ [ev a]"
    "bind_io (or_amqp a) (\<lambda>ok. lift_res (settled_result L d ok op)) t = Some (r, s')"
    by (auto simp: bind_io_Some [of "await _ _ _"] dest: await_log)
  then show ?thesis
    by (cases a) (auto simp: or_amqp_def fail_def ret_def bind_io_def lift_res_def)
qed

lemma ack_original_log: "ack_original L d s = Some (r, s') \<Longrightarrow>
    \<exists>a. log s' = log s @ [EAck (rd_acker d) a] \<and> (r = Inr () \<longleftrightarrow> a = Inr True)"
  unfolding ack_original_def send_ack_def by (rule settle_tail)

lemma reject_original_log: "reject_original L d s = Some (r, s') \<Longrightarrow>
    \<exists>a. log s' = log s @ [EReject (rd_acker d) False a] \<and> (r = Inr () \<longleftrightarrow> a = Inr True)"
  unfolding reject_original_def send_reject_def by (rule settle_tail)

text \<open>A publish followed by the ack.\<close>

lemma publish_then_ack:
  fixes L :: "('w, 'b) lapin"
  assumes run: "bind_io m (\<lambda>u. ack_original L d) s = Some (r, s')"
    and m: "\<And>x t. m s = Some (x, t) \<Longrightarrow> \<exists>new. log t = log s @ new
      \<and> (case x of Inl e \<Rightarrow> list_all fruitless new | Inr u \<Rightarrow> published_for L opts cfgs st d new)"
    and call: "\<And>a. settling_call opts st d a = (EAck (rd_acker d) a :: 'b rmq_event)"
  shows "\<exists>new. log s' = log s @ new \<and> settle_outcome L opts cfgs st d r new"
proof -
  from run consider e where "m s = Some (Inl e, s')" "r = Inl e"
    | u t where "m s = Some (Inr u, t)" "ack_original L d t = Some (r, s')"
    by (auto simp: bind_io_Some)
  then show ?thesis
  proof cases
    case 1
    with m [OF 1(1)] show ?thesis by (auto simp: settle_outcome_def)
  next
    case (2 u t)
    from m [OF 2(1)] obtain pre where "log t = log s @ pre" "published_for L opts cfgs st d pre" by auto
    moreover from ack_original_log [OF 2(2)] obtain a where
      "log s' = log t @ [EAck (rd_acker d) a]" "r = Inr () \<longleftrightarrow> a = Inr True" by blast
    ultimately have "log s' = log s @ pre @ [EAck (rd_acker d) a]"
      and "settle_outcome L opts cfgs st d r (pre @ [EAck (rd_acker d) a])"
      by (auto simp: settle_outcome_def call)
    then show ?thesis by blast
  qed
qed

lemma publish_held_published:
  "publish_held L opts e t h s = Some (x, s') \<Longrightarrow> \<exists>new. log s' = log s @ new
     \<and> (case x of Inl e \<Rightarrow> list_all fruitless new | Inr u \<Rightarrow> hold_of L opts (configs s) e t h new)"
  using publish_held_cases [of L opts e t h s x s'] unfolding hold_of_def by (cases x) auto

lemma rmq_settle_cases:
  assumes run: "rmq_settle L opts st d s = Some (r, s')"
  shows "\<exists>new. log s' = log s @ new \<and> settle_outcome L opts (configs s) st d r new"
proof (cases st)
  case SAck
  with run ack_original_log [of L d s r s'] show ?thesis
    by (auto simp: rmq_settle_def rmq_ack_def settle_outcome_def settling_call_def)
next
  case (SDeadLetter reason)
  show ?thesis
  proof (cases "declare_dead_letter_queues opts")
    case True
    with run SDeadLetter have b: "bind_io (publish_dead_letter L opts (rd_envelope d) reason)
        (\<lambda>u. ack_original L d) s = Some (r, s')"
      by (simp add: rmq_settle_def rmq_dead_letter_def)
    show ?thesis
    proof (rule publish_then_ack [OF b])
      fix x t
      assume "publish_dead_letter L opts (rd_envelope d) reason s = Some (x, t)"
      from runs_toD [OF publish_dead_letter_runs_to this] True SDeadLetter
      show "\<exists>new. log t = log s @ new \<and> (case x of Inl e \<Rightarrow> list_all fruitless new
          | Inr u \<Rightarrow> published_for L opts (configs s) st d new)" by (cases x) auto
    qed (simp add: settling_call_def True SDeadLetter)
  next
    case False
    with run SDeadLetter reject_original_log [of L d s r s'] show ?thesis
      by (auto simp: rmq_settle_def rmq_dead_letter_def settle_outcome_def settling_call_def)
  qed
next
  case (SRetry e t)
  with run have b: "bind_io (publish_held L opts e t HoldRetry) (\<lambda>u. ack_original L d) s = Some (r, s')"
    by (simp add: rmq_settle_def rmq_retry_def)
  show ?thesis
  proof (rule publish_then_ack [OF b])
    fix x t'
    assume "publish_held L opts e t HoldRetry s = Some (x, t')"
    from publish_held_published [OF this] SRetry
    show "\<exists>new. log t' = log s @ new \<and> (case x of Inl e \<Rightarrow> list_all fruitless new
        | Inr u \<Rightarrow> published_for L opts (configs s) st d new)" by (cases x) auto
  qed (simp add: settling_call_def SRetry)
next
  case (SDefer e t)
  with run have b: "bind_io (publish_held L opts e t HoldDeferral) (\<lambda>u. ack_original L d) s = Some (r, s')"
    by (simp add: rmq_settle_def rmq_defer_def)
  show ?thesis
  proof (rule publish_then_ack [OF b])
    fix x t'
    assume "publish_held L opts e t HoldDeferral s = Some (x, t')"
    from publish_held_published [OF this] SDefer
    show "\<exists>new. log t' = log s @ new \<and> (case x of Inl e \<Rightarrow> list_all fruitless new
        | Inr u \<Rightarrow> published_for L opts (configs s) st d new)" by (cases x) auto
  qed (simp add: settling_call_def SDefer)
qed

end
