(* ===== verification/Rmq_Consumer.thy ===== *)
theory Rmq_Consumer
  imports Rmq_Delivery
begin

text \<open>
  The consumer half of \<open>crates/rabbitmq/src/backend.rs\<close>: subscribing, the stream that outlives its
  connection, and what happens to a message that does not decode. \<open>recover_once\<close> is one turn of the loop
  of \<open>recover\<close> and \<open>stream_turn\<close> one of the loop of \<open>delivery_stream\<close>; both loops may go on for ever.
\<close>

section \<open>Subscribing\<close>

definition hex_char :: "nat \<Rightarrow> char" where
  "hex_char d = (if d < 10 then digit_char d else char_of (87 + d))"

fun show_hex :: "nat \<Rightarrow> string" where
  "show_hex n = (if n < 16 then [hex_char n] else show_hex (n div 16) @ [hex_char (n mod 16)])"

declare show_hex.simps [simp del]

definition tag_text :: "string \<Rightarrow> 128 word \<Rightarrow> u64 \<Rightarrow> string" where
  "tag_text q nanos sequence = ''queuey.'' @ truncate_at_boundary q 160 @ ''.'' @ show_hex (unat nanos)
     @ ''.'' @ show_nat (unat sequence)"

definition consumer_tag :: "('w, 'b) lapin \<Rightarrow> string \<Rightarrow> ('w, 'b, string) io" where
  "consumer_tag L q = bind_io (reads next_tag) (\<lambda>sequence.
     bind_io (writes (\<lambda>s. s\<lparr>next_tag := next_tag s + 1\<rparr>)) (\<lambda>_.
     bind_io (await L (l_nanos L) (\<lambda>_. [])) (\<lambda>nanos. ret (tag_text q nanos sequence))))"

definition subscribe :: "('w, 'b) lapin \<Rightarrow> nat \<Rightarrow> queue_config \<Rightarrow> ('w, 'b, nat \<times> nat) io" where
  "subscribe L c cfg = bind_io (create_channel L c) (\<lambda>r. bind_io (or_amqp r) (\<lambda>ch.
     bind_io (await L (l_qos L ch (prefetch cfg)) (\<lambda>r. [EQos ch (prefetch cfg) r])) (\<lambda>r.
     bind_io (or_amqp r) (\<lambda>_.
     bind_io (consumer_tag L (qc_name cfg)) (\<lambda>tag.
     bind_io (lift_res (short_string (qc_name cfg))) (\<lambda>q.
     bind_io (lift_res (short_string tag)) (\<lambda>tag.
     bind_io (await L (l_consume L ch q tag) (\<lambda>r. [EConsume ch q tag r])) (\<lambda>r.
     bind_io (or_amqp r) (\<lambda>consumer. ret (ch, consumer))))))))))"

record consume_state =
  cs_consumer :: nat
  cs_channel :: nat
  cs_config :: queue_config
  cs_generation :: u64

definition rmq_consume :: "('w, 'b) lapin \<Rightarrow> rmq_options \<Rightarrow> queue_config \<Rightarrow> ('w, 'b, consume_state) io" where
  "rmq_consume L opts cfg = bind_io (ensure_connected L opts) (\<lambda>c. bind_io (reads generation) (\<lambda>g.
     bind_io (subscribe L c cfg) (\<lambda>(ch, consumer).
     ret \<lparr>cs_consumer = consumer, cs_channel = ch, cs_config = cfg, cs_generation = g\<rparr>)))"

section \<open>Resubscribing\<close>

datatype resubscribed = ResYes | ResStop

definition close_consumer_channel :: "('w, 'b) lapin \<Rightarrow> nat \<Rightarrow> ('w, 'b, unit) io" where
  "close_consumer_channel L ch = bind_io (chan_up L ch) (\<lambda>up.
     if \<not> up then ret () else bind_io (close_chan L ch) (\<lambda>_. ret ()))"

definition recover_once :: "('w, 'b) lapin \<Rightarrow> rmq_options \<Rightarrow> reconnect_policy \<Rightarrow> consume_state \<Rightarrow> u32
    \<Rightarrow> ('w, 'b, consume_state + u32) io" where
  "recover_once L opts policy cs failures =
     bind_io (ensure_connected L opts) (\<lambda>c. bind_io (reads generation) (\<lambda>g.
     bind_io (catch (subscribe L c (cs_config cs))) (\<lambda>r. case r of
         Inr (ch, consumer) \<Rightarrow>
           ret (Inl (cs\<lparr>cs_channel := ch, cs_consumer := consumer, cs_generation := g\<rparr>))
       | Inl e \<Rightarrow> (case policy (attempt_after RebuildConsumer (failures + 1) (SubscribeFailed e)) of
             None \<Rightarrow> never
           | Some None \<Rightarrow> fail e
           | Some (Some dly) \<Rightarrow> bind_io (sleep_unless_closing L dly) (\<lambda>_. ret (Inr (failures + 1)))))))"

definition recover_loop :: "('w, 'b) lapin \<Rightarrow> rmq_options \<Rightarrow> reconnect_policy \<Rightarrow> consume_state
    \<Rightarrow> u32 \<Rightarrow> ('w, 'b, consume_state) io" where
  "recover_loop L opts policy cs = repeat_io (recover_once L opts policy cs)"

text \<open>The state is only changed by a resubscribe that succeeds.\<close>

definition recover :: "('w, 'b) lapin \<Rightarrow> rmq_options \<Rightarrow> consume_state \<Rightarrow> ('w, 'b, resubscribed \<times> consume_state) io" where
  "recover L opts cs = bind_io (is_closing L) (\<lambda>cl.
     if cl then ret (ResStop, cs)
     else case reconnect opts of
         None \<Rightarrow> ret (ResStop, cs)
       | Some policy \<Rightarrow> bind_io (close_consumer_channel L (cs_channel cs)) (\<lambda>_.
           bind_io (recover_loop L opts policy cs 0) (\<lambda>cs. ret (ResYes, cs))))"

section \<open>A message that does not decode\<close>

definition forward_malformed :: "('w, 'b) lapin \<Rightarrow> rmq_options \<Rightarrow> string \<Rightarrow> 'b lapin_delivery \<Rightarrow> ('w, 'b, bool) io" where
  "forward_malformed L opts q d =
     bind_io (catch (publish_malformed L opts q (ld_data d) REASON_MALFORMED)) (\<lambda>r. case r of
         Inl e \<Rightarrow> ret False
       | Inr u \<Rightarrow> bind_io (send_ack L (ld_acker d)) (\<lambda>a. case a of
             Inr b \<Rightarrow> ret True
           | Inl e \<Rightarrow> ret False))"

definition discard_malformed :: "('w, 'b) lapin \<Rightarrow> rmq_options \<Rightarrow> string \<Rightarrow> 'b lapin_delivery \<Rightarrow> ('w, 'b, unit) io" where
  "discard_malformed L opts q d =
     bind_io (if declare_dead_letter_queues opts then forward_malformed L opts q d else ret False) (\<lambda>done.
     if done then ret () else bind_io (send_reject L (ld_acker d)) (\<lambda>_. ret ()))"

section \<open>The stream\<close>

text \<open>An item is a delivery or an error; \<open>None\<close> is the end of the stream.\<close>

type_synonym item = "((core_error + rmq_delivery) \<times> consume_state) option"

definition stream_turn :: "('w, 'b) lapin \<Rightarrow> rmq_options \<Rightarrow> consume_state \<Rightarrow> ('w, 'b, item + consume_state) io" where
  "stream_turn L opts cs = bind_io (await L (l_next L (cs_consumer cs)) (\<lambda>_. [])) (\<lambda>nxt.
     case (case nxt of Some (Inr d) \<Rightarrow> Some d | Some (Inl e) \<Rightarrow> None | None \<Rightarrow> None) of
       None \<Rightarrow> bind_io (catch (recover L opts cs)) (\<lambda>r. case r of
           Inr (ResYes, cs') \<Rightarrow> ret (Inr cs')
         | Inr (ResStop, cs') \<Rightarrow> ret (Inl None)
         | Inl e \<Rightarrow> ret (Inl (Some (Inl e, cs))))
     | Some d \<Rightarrow> (case (from_bytes (l_wire L) (ld_data d) :: core_error + envelope) of
           Inr e \<Rightarrow> ret (Inl (Some (Inr (delivery_new e (ld_acker d)), cs)))
         | Inl e \<Rightarrow> bind_io (discard_malformed L opts (qc_name (cs_config cs)) d) (\<lambda>_. ret (Inr cs))))"

definition stream_next :: "('w, 'b) lapin \<Rightarrow> rmq_options \<Rightarrow> consume_state \<Rightarrow> ('w, 'b, item) io" where
  "stream_next L opts = repeat_io (stream_turn L opts)"

end
