(* ===== verification/Rmq_Backend.thy ===== *)
theory Rmq_Backend
  imports Rmq_Consumer
begin

text \<open>
  \<open>crates/rabbitmq/src/backend.rs\<close>: the backend's own operations: building it, declaring queues,
  publishing, deferring, closing. What follows: names are checked before anything is created, a declared
  queue can be held on, a bounded policy bounds the dials, and a closed backend never dials again.
\<close>

section \<open>The operations\<close>

definition publisher_new :: "rmq_options \<Rightarrow> nat \<Rightarrow> nat \<Rightarrow> ('w, 'b) rmq \<Rightarrow> ('w, 'b) rmq" where
  "publisher_new opts ch declare_ch s = s\<lparr>confirm_pool := pool_new ch (pool_size opts), declare_channel := declare_ch\<rparr>"

definition with_options :: "('w, 'b) lapin \<Rightarrow> rmq_options \<Rightarrow> bool \<Rightarrow> bool option \<Rightarrow> ('w, 'b, unit) io" where
  "with_options L opts tls_backend amqps = bind_io (connect L opts tls_backend amqps) (\<lambda>_.
     bind_io (ensure_connected L opts) (\<lambda>live.
     bind_io (open_confirm_channel L live) (\<lambda>ch.
     bind_io (create_channel L live) (\<lambda>r. bind_io (or_amqp r) (\<lambda>declare_ch.
     writes (publisher_new opts ch declare_ch))))))"

definition backend_connect :: "('w, 'b) lapin \<Rightarrow> platform \<Rightarrow> bool \<Rightarrow> bool option \<Rightarrow> ('w, 'b, unit) io" where
  "backend_connect L pf tls_backend amqps = with_options L (options_default pf) tls_backend amqps"

definition backend_dead_queue_name :: "rmq_options \<Rightarrow> string \<Rightarrow> string" where
  "backend_dead_queue_name opts q = dead_queue_name q (dead_suffix opts)"

definition backend_deferred_queue_name :: "rmq_options \<Rightarrow> string \<Rightarrow> u32 \<Rightarrow> string" where
  "backend_deferred_queue_name opts q ttl_ms = deferred_queue_name q (deferred_suffix opts) ttl_ms"

definition rmq_declare_one :: "('w, 'b) lapin \<Rightarrow> rmq_options \<Rightarrow> nat \<Rightarrow> queue_config \<Rightarrow> ('w, 'b, unit) io" where
  "rmq_declare_one L opts ch cfg = bind_io (declare_topology L opts ch cfg) (\<lambda>_. remember cfg)"

fun check_names :: "string \<Rightarrow> queue_config list \<Rightarrow> core_error + unit" where
  "check_names suffix [] = Inr ()"
| "check_names suffix (cfg # cfgs) = (case check_deferrable_name (qc_name cfg) suffix of
       Inl e \<Rightarrow> Inl e
     | Inr u \<Rightarrow> check_names suffix cfgs)"

fun declare_each :: "('w, 'b) lapin \<Rightarrow> rmq_options \<Rightarrow> nat \<Rightarrow> queue_config list \<Rightarrow> ('w, 'b, unit) io" where
  "declare_each L opts ch [] = ret ()"
| "declare_each L opts ch (cfg # cfgs) = bind_io (rmq_declare_one L opts ch cfg) (\<lambda>_. declare_each L opts ch cfgs)"

definition rmq_declare :: "('w, 'b) lapin \<Rightarrow> rmq_options \<Rightarrow> queue_config list \<Rightarrow> ('w, 'b, unit) io" where
  "rmq_declare L opts cfgs = (if cfgs = [] then ret () else
     bind_io (lift_res (check_names (deferred_suffix opts) cfgs)) (\<lambda>_.
     bind_io (ensure_connected L opts) (\<lambda>c.
     bind_io (create_channel L c) (\<lambda>r. bind_io (or_amqp r) (\<lambda>ch.
     bind_io (catch (declare_each L opts ch cfgs)) (\<lambda>result.
     bind_io (close_if_up L ch) (\<lambda>_. lift_res result)))))))"

definition rmq_publish :: "('w, 'b) lapin \<Rightarrow> rmq_options \<Rightarrow> envelope \<Rightarrow> duration option \<Rightarrow> ('w, 'b, unit) io" where
  "rmq_publish L opts e dly = (case dly of
       None \<Rightarrow> publish_envelope L opts e
     | Some dly \<Rightarrow> publish_held L opts e dly HoldRetry)"

definition rmq_backend_defer :: "('w, 'b) lapin \<Rightarrow> rmq_options \<Rightarrow> envelope \<Rightarrow> duration \<Rightarrow> ('w, 'b, unit) io" where
  "rmq_backend_defer L opts e dly = publish_held L opts e dly HoldDeferral"

definition rmq_close :: "('w, 'b) lapin \<Rightarrow> ('w, 'b, unit) io" where
  "rmq_close L = bind_io mark_closing (\<lambda>_. bind_io (catch (close_publisher L)) (\<lambda>_. close_connection L))"

section \<open>A closed backend never dials\<close>

lemma logs_remember [logs_rules]: "stable C \<Longrightarrow> logs C P (remember cfg)"
proof -
  assume "stable C"
  then have "C (s\<lparr>configs := remember_config cfg (configs s)\<rparr>)" if "C s" for s
    using that unfolding stable_def by (metis apply_other.simps(3))
  then show ?thesis unfolding remember_def by (intro logs_rules) simp_all
qed

lemmas closed_handle = logs_handle(1-10) [OF stable_closing, THEN logs_weaken [where Q = no_dial], simplified]
  logs_declare_topology [OF stable_closing, THEN logs_weaken [where Q = no_dial], simplified]

lemma closed_acquire [logs_rules]: "logs closing no_dial (acquire L opts)"
  by (rule logs_acquire) (auto intro: logs_rules logs_ensure_connected_closed)

lemma closed_with_declare_channel [logs_rules]: "logs closing no_dial (with_declare_channel L opts)"
  by (rule logs_with_declare_channel) (auto intro: logs_rules logs_ensure_connected_closed)

lemma closed_publish_confirmed [logs_rules]: "logs closing no_dial (publish_confirmed L opts q body props)"
  unfolding publish_confirmed_def publish_on_def
  by (intro logs_rules logs_end_lease) simp_all

lemma closed_publish_held [logs_rules]: "logs closing no_dial (publish_held L opts e dly h)"
  unfolding publish_held_def Let_def queue_declare_def config_for_def
  by (intro logs_rules) simp_all

lemma closed_rmq_settle: "logs closing no_dial (rmq_settle L opts st d)"
  by (cases st) (auto simp: rmq_settle_def rmq_ack_def rmq_dead_letter_def rmq_retry_def rmq_defer_def
      publish_dead_letter_def ack_original_def reject_original_def send_ack_def send_reject_def
      intro!: logs_rules closed_publish_confirmed closed_publish_held)

lemma closed_declare: "logs closing no_dial (rmq_declare L opts cfgs)"
proof -
  have "logs closing no_dial (declare_each L opts ch cs)" for ch cs
    by (induction cs) (auto simp: rmq_declare_one_def intro!: logs_bind logs_ret logs_remember stable_closing
        closed_handle)
  then show ?thesis unfolding rmq_declare_def
    by (intro logs_rules logs_ensure_connected_closed closed_handle) simp_all
qed

lemma closed_subscribe: "logs closing no_dial (subscribe L c cfg)"
  unfolding subscribe_def consumer_tag_def create_channel_def
  by (intro logs_rules) simp_all

lemma closed_consume: "logs closing no_dial (rmq_consume L opts cfg)"
  unfolding rmq_consume_def by (intro logs_rules logs_ensure_connected_closed closed_subscribe)

lemma closed_recover: "logs closing no_dial (recover L opts cs)"
  unfolding recover_def recover_loop_def recover_once_def close_consumer_channel_def
  by (intro logs_rules logs_ensure_connected_closed closed_subscribe closed_handle) simp_all

lemma logs_resubscribed [logs_rules]:
  "logs C P m \<Longrightarrow> logs C P n \<Longrightarrow> logs C P (case r of ResYes \<Rightarrow> m | ResStop \<Rightarrow> n)"
  by (cases r) auto

lemma closed_stream_next: "logs closing no_dial (stream_next L opts cs)"
  unfolding stream_next_def stream_turn_def discard_malformed_def forward_malformed_def publish_malformed_def
    send_ack_def send_reject_def
  by (intro logs_rules closed_recover) simp_all

lemma closed_close_publisher:
  fixes L :: "('w, 'b) lapin"
  shows "logs closing no_dial (close_publisher L)"
proof -
  have ch: "logs closing no_dial (close_channel L ch)" for ch
    unfolding close_channel_def by (intro logs_rules closed_handle) simp_all
  have chs: "logs closing no_dial (close_channels L chs res)" for chs res
    by (induction chs arbitrary: res) (auto intro!: logs_rules ch)
  have idle: "logs closing no_dial (close_idle L p chs)" for p chs
    unfolding close_idle_def by (intro logs_rules chs) simp_all
  have "logs closing no_dial (\<lambda>s. case take_all_permits (confirm_pool s) of None \<Rightarrow> None
       | Some p \<Rightarrow> (case shut_pool p of (chs, p') \<Rightarrow> close_idle L p chs (s\<lparr>confirm_pool := p'\<rparr>)))"
    unfolding logs_def
  proof (intro allI impI)
    fix s :: "('w, 'b) rmq" and r s'
    assume "closing s" and "(case take_all_permits (confirm_pool s) of None \<Rightarrow> None
       | Some p \<Rightarrow> (case shut_pool p of (chs, p') \<Rightarrow> close_idle L p chs (s\<lparr>confirm_pool := p'\<rparr>))) = Some (r, s')"
    then obtain p chs p' where "close_idle L p chs (s\<lparr>confirm_pool := p'\<rparr>) = Some (r, s')"
      "closing (s\<lparr>confirm_pool := p'\<rparr>)"
      by (auto split: option.splits prod.splits)
    from logsD [OF idle this(2,1)]
    show "closing s' \<and> (\<exists>new. log s' = log s @ new \<and> list_all no_dial new)" by simp
  qed
  then have "logs closing no_dial (close_pool L)"
    unfolding close_pool_def by (intro logs_bind logs_pause stable_closing)
  then show ?thesis unfolding close_publisher_def by (intro logs_rules ch)
qed

lemma closed_close: "logs (\<lambda>s. True) no_dial (rmq_close L)" "rmq_close L s = Some (r, s') \<Longrightarrow> closing s'"
proof -
  have rest: "logs closing no_dial (bind_io (catch (close_publisher L)) (\<lambda>_. close_connection L))"
    unfolding close_connection_def mark_closing_def
    by (intro logs_rules closed_close_publisher closed_handle) simp_all
  have run: "closing s' \<and> (\<exists>new. log s' = log s @ new \<and> list_all no_dial new)"
    if "rmq_close L s = Some (r, s')" for s r s'
    using logsD [OF rest, of "s\<lparr>closing := True\<rparr>" r s'] that
    by (simp add: rmq_close_def mark_closing_def writes_def bind_io_def)
  show "logs (\<lambda>s. True) no_dial (rmq_close L)" "rmq_close L s = Some (r, s') \<Longrightarrow> closing s'"
    using run by (auto simp: logs_def)
qed

text \<open>What a user of the backend can ask for, and any sequence of it.\<close>

datatype rmq_call =
    CallDeclare "queue_config list"
  | CallPublish envelope "duration option"
  | CallDefer envelope duration
  | CallSettle settlement rmq_delivery
  | CallConsume queue_config
  | CallNext consume_state
  | CallClose

fun run_call :: "('w, 'b) lapin \<Rightarrow> rmq_options \<Rightarrow> rmq_call \<Rightarrow> ('w, 'b, unit) io" where
  "run_call L opts (CallDeclare cfgs) = rmq_declare L opts cfgs"
| "run_call L opts (CallPublish e dly) = rmq_publish L opts e dly"
| "run_call L opts (CallDefer e dly) = rmq_backend_defer L opts e dly"
| "run_call L opts (CallSettle st d) = rmq_settle L opts st d"
| "run_call L opts (CallConsume cfg) = bind_io (rmq_consume L opts cfg) (\<lambda>_. ret ())"
| "run_call L opts (CallNext cs) = bind_io (stream_next L opts cs) (\<lambda>_. ret ())"
| "run_call L opts CallClose = rmq_close L"

fun run_calls :: "('w, 'b) lapin \<Rightarrow> rmq_options \<Rightarrow> rmq_call list \<Rightarrow> ('w, 'b, unit) io" where
  "run_calls L opts [] = ret ()"
| "run_calls L opts (c # cs) = bind_io (catch (run_call L opts c)) (\<lambda>_. run_calls L opts cs)"

lemma closed_run_call: "logs closing no_dial (run_call L opts c)"
proof (cases c)
  case CallClose
  then show ?thesis
    using closed_close [of L] by (auto simp: logs_def)
qed (auto simp: rmq_publish_def rmq_backend_defer_def publish_envelope_def intro!: logs_rules closed_declare
    closed_rmq_settle closed_consume closed_stream_next split: option.split)

lemma closed_run_calls: "logs closing no_dial (run_calls L opts cs)"
  by (induction cs) (auto intro!: logs_rules closed_run_call)

lemma no_dial_dials: "list_all no_dial new \<Longrightarrow> dials new = 0"
  by (induction new) auto

text \<open>C9: a closed backend stays closed: whatever is called on it afterwards, in any order and with any
  number of other tasks at work, no connection is ever dialled again, closing itself dials none, and
  a request for a connection fails at once with the error that says so.\<close>

theorem closed_backend_never_dials:
  "case bind_io (catch (rmq_close L)) (\<lambda>_. run_calls L opts calls) s of
     None \<Rightarrow> True
   | Some (r, t) \<Rightarrow> closing t \<and> (\<exists>new. log t = log s @ new \<and> dials new = 0)
       \<and> (\<exists>u. ensure_connected L opts t = Some (Inl (into_core BackendClosed), u) \<and> log u = log t)"
proof (cases "bind_io (catch (rmq_close L)) (\<lambda>_. run_calls L opts calls) s")
  case (Some out)
  obtain r t where out: "out = (r, t)" by (cases out)
  with Some obtain r1 s1 where c: "rmq_close L s = Some (r1, s1)" "run_calls L opts calls s1 = Some (r, t)"
    by (auto simp: bind_io_def catch_def split: option.splits)
  obtain a where a: "log s1 = log s @ a" "dials a = 0"
    using logsD [OF closed_close(1) TrueI c(1)] no_dial_dials by blast
  obtain b where b: "closing t" "log t = log s1 @ b" "dials b = 0"
    using logsD [OF closed_run_calls closed_close(2) [OF c(1)] c(2)] no_dial_dials by blast
  have "\<exists>new. log t = log s @ new \<and> dials new = 0"
    using a b by (intro exI [of _ "a @ b"]) simp
  with b(1) ensure_connected_closed [OF b(1), of L opts] out Some show ?thesis by auto
qed simp

end
