(* ===== verification/Envelope_Properties.thy ===== *)
theory Envelope_Properties
  imports Envelope
begin

text \<open>
  Properties of the wire format: what is written reads back, what an older or a newer peer writes is
  read too, and rescheduling changes only what it should.
\<close>

lemma written_reads_back:
  assumes "wire_ok w" "plain (payload e)" "json_depth (payload e) < 127"
  shows "from_bytes w (print_json w (JObj (envelope_fields w e))) = (Inr e :: 'b error + envelope)"
proof -
  have "read_envelope w (\<lambda>k. field k (envelope_fields w e)) = (Inr e :: 'b error + envelope)"
    by (cases "correlation_id e") (simp_all add: read_envelope_def envelope_field wire_ok_uuid [OF assms(1)])
  with wire_ok_text [OF assms(1) envelope_plain [OF assms]] show ?thesis
    by (simp add: from_bytes_def envelope_of_json_def)
qed

text \<open>C27: reading the bytes an envelope was written to gives the envelope back, every field of it, where its
  payload is a document \<open>serde_json\<close> documents to read back: no floats, integers of 64 bits, no key twice in an
  object, and nested less than 127 deep, one less than the parser's limit because of the envelope itself.\<close>

theorem envelope_round_trip:
  assumes "wire_ok w" "plain (payload e)" "json_depth (payload e) < 127"
  shows "(case to_bytes w e of Inl x \<Rightarrow> Inl x | Inr body \<Rightarrow> from_bytes w body) = (Inr e :: 'b error + envelope)"
  using written_reads_back [OF assms] by (simp add: to_bytes_def)

text \<open>The fields with a default.\<close>

definition optional :: "string set" where
  "optional = {''deferrals'', ''priority'', ''correlation_id''}"

lemma field_dropped:
  "field k (filter (\<lambda>kv. fst kv \<notin> ks) kvs) = (if k \<in> ks then Inr None else field k kvs)"
proof (cases "k \<in> ks")
  case True
  then have "k \<notin> fst ` set (filter (\<lambda>kv. fst kv \<notin> ks) kvs)" by auto
  from field_absent [OF this] True show ?thesis by simp
next
  case False
  then show ?thesis using field_filter [of "\<lambda>k. k \<notin> ks" k kvs] by simp
qed

text \<open>C28: an envelope written by a peer that does not know some of the optional fields, and adds fields of
  its own that this version does not know, still reads: the missing fields take their defaults and the
  unknown ones are ignored.\<close>

theorem envelope_forward_and_backward_compatible:
  assumes "wire_ok w" "ks \<subseteq> optional" "fst ` set extra \<inter> set field_names = {}"
  shows "envelope_of_json w (JObj (filter (\<lambda>kv. fst kv \<notin> ks) (envelope_fields w e) @ extra))
    = (Inr (e\<lparr>deferrals := if ''deferrals'' \<in> ks then 0 else deferrals e,
             priority := if ''priority'' \<in> ks then 0 else priority e,
             correlation_id := if ''correlation_id'' \<in> ks then None else correlation_id e\<rparr>) :: 'b error + envelope)"
proof -
  have x: "k \<in> set field_names \<Longrightarrow> field k (kvs @ extra) = (field k kvs :: 'b error + json option)" for k kvs
    using assms(3) by (intro field_append_absent) blast
  have req: "k \<notin> optional \<Longrightarrow> k \<notin> ks" for k using assms(2) by blast
  show ?thesis
    using assms(1) by (cases "correlation_id e")
      (simp_all add: envelope_of_json_def read_envelope_def x field_names_def field_dropped
        envelope_field wire_ok_uuid req optional_def)
qed

text \<open>C29: a retry is the next attempt of the same job at normal priority, a deferral the same attempt with
  one more deferral at the given priority: identity, type, queue, payload, enqueue time and
  correlation id survive both, in any number and order.\<close>

theorem rescheduling_preserves_identity:
  assumes "e' = foldl (\<lambda>e op. case op of None \<Rightarrow> next_attempt e | Some p \<Rightarrow> deferred e p) e ops"
  shows "job_id e' = job_id e \<and> job_type e' = job_type e \<and> queue e' = queue e \<and> payload e' = payload e
    \<and> enqueued_at_ms e' = enqueued_at_ms e \<and> correlation_id e' = correlation_id e
    \<and> attempt e' = attempt e + of_nat (length (filter (\<lambda>op. op = None) ops))
    \<and> deferrals e' = deferrals e + of_nat (length (filter (\<lambda>op. op \<noteq> None) ops))
    \<and> priority e' = (if ops = [] then priority e else case last ops of None \<Rightarrow> 0 | Some p \<Rightarrow> p)"
  unfolding assms
  by (induction ops rule: rev_induct) (auto simp: next_attempt_def deferred_def split: option.split)

section \<open>Witnesses\<close>

definition identity_wire :: "json wire" where
  "identity_wire = \<lparr>uuid_to_json = (\<lambda>u. JStr (replicate (unat u) CHR ''1'')),
     uuid_of_json = (\<lambda>j. case j of JStr s \<Rightarrow> Some (of_nat (length s)) | _ \<Rightarrow> None),
     print_json = (\<lambda>j. j), parse_json = Some\<rparr>"

lemma identity_wire_ok: "wire_ok identity_wire"
  by (simp add: wire_ok_def identity_wire_def)

definition example_payload :: json where
  "example_payload = JObj [(''to'', JStr ''a@b.c''), (''copies'', JArr [JInt (- 1), JBool True])]"

theorem envelope_round_trip_witness:
  "from_bytes identity_wire (JObj (envelope_fields identity_wire (envelope_raw 1 2 ''t'' ''q'' example_payload)))
    = (Inr (envelope_raw 1 2 ''t'' ''q'' example_payload) :: string error + envelope)"
  using envelope_round_trip [OF identity_wire_ok, of "envelope_raw 1 2 ''t'' ''q'' example_payload", where 'b = string]
  by (simp add: to_bytes_def envelope_raw_def example_payload_def) (simp add: identity_wire_def)

theorem envelope_forward_and_backward_compatible_witness:
  "envelope_of_json identity_wire (JObj (filter (\<lambda>kv. fst kv \<notin> {''priority''})
      (envelope_fields identity_wire (deferred (envelope_raw 1 2 ''t'' ''q'' JNull) 9)) @ [(''trace'', JNull)]))
    = (Inr (deferred (envelope_raw 1 2 ''t'' ''q'' JNull) 0) :: string error + envelope)"
  using envelope_forward_and_backward_compatible [OF identity_wire_ok, of "{''priority''}"
      "[(''trace'', JNull)]" "deferred (envelope_raw 1 2 ''t'' ''q'' JNull) 9", where 'b = string]
  by (simp add: optional_def field_names_def deferred_def envelope_raw_def)

theorem rescheduling_preserves_identity_witness:
  "attempt (next_attempt (deferred (envelope_raw 1 2 ''t'' ''q'' JNull) 9)) = 2"
  using rescheduling_preserves_identity [OF refl, of "envelope_raw 1 2 ''t'' ''q'' JNull" "[Some 9, None]"]
  by (simp add: envelope_raw_def)

end
