(* ===== verification/Rmq_Properties.thy ===== *)
theory Rmq_Properties
  imports Rmq_Backend Envelope_Properties
begin

text \<open>
  What the RabbitMQ backend promises, for every behaviour of the client library, the broker and the
  backend's other tasks: nothing is settled before what it stands for was accepted, undecodable messages
  are disposed of, declaring is checked first, and reconnecting and resubscribing end when the policy
  gives up. The example broker serves the witnesses and shows the success paths are taken.
\<close>

section \<open>Counting\<close>

text \<open>\<open>costs P k m\<close>: whatever happens, \<open>m\<close> adds at most \<open>k\<close> events satisfying \<open>P\<close>.\<close>

definition costs :: "('b rmq_event \<Rightarrow> bool) \<Rightarrow> nat \<Rightarrow> ('w, 'b, 'a) io \<Rightarrow> bool" where
  "costs P k m \<longleftrightarrow> (\<forall>s r s'. m s = Some (r, s') \<longrightarrow> (\<exists>new. log s' = log s @ new \<and> length (filter P new) \<le> k))"

fun starts_consumer :: "'b rmq_event \<Rightarrow> bool" where
  "starts_consumer (EConsume ch q t r) = True"
| "starts_consumer _ = False"

definition consumes :: "'b rmq_event list \<Rightarrow> nat" where
  "consumes new = length (filter starts_consumer new)"

lemma consumes_simps [simp]: "consumes [] = 0" "consumes (a @ b) = consumes a + consumes b"
  by (simp_all add: consumes_def)

lemma costsD: "costs P k m \<Longrightarrow> m s = Some (r, s') \<Longrightarrow> \<exists>new. log s' = log s @ new \<and> length (filter P new) \<le> k"
  by (auto simp: costs_def)

lemma logs_costs: "logs (\<lambda>s. True) (\<lambda>e. \<not> P e) m \<Longrightarrow> costs P 0 m"
  unfolding costs_def using logsD by (fastforce simp: list_all_iff filter_empty_conv)

lemma costs_bind:
  assumes "costs P j m" "\<And>x. costs P k (f x)"
  shows "costs P (j + k) (bind_io m f)"
  unfolding costs_def
proof (intro allI impI)
  fix s r s'
  assume "bind_io m f s = Some (r, s')"
  then consider e where "m s = Some (Inl e, s')" | x t where "m s = Some (Inr x, t)" "f x t = Some (r, s')"
    by (auto simp: bind_io_Some)
  then show "\<exists>new. log s' = log s @ new \<and> length (filter P new) \<le> j + k"
  proof cases
    case 1
    from costsD [OF assms(1) 1] show ?thesis using trans_le_add1 by blast
  next
    case (2 x t)
    from costsD [OF assms(1) 2(1)] obtain a where "log t = log s @ a" "length (filter P a) \<le> j" by blast
    moreover from costsD [OF assms(2) 2(2)] obtain b where "log s' = log t @ b" "length (filter P b) \<le> k" by blast
    ultimately show ?thesis by (intro exI [of _ "a @ b"]) simp
  qed
qed

lemma costs_free_bind: "logs (\<lambda>s. True) (\<lambda>e. \<not> P e) m \<Longrightarrow> (\<And>x. costs P k (f x)) \<Longrightarrow> costs P k (bind_io m f)"
  using costs_bind [OF logs_costs] by fastforce

lemma costs_await: "(\<And>x. length (filter P (ev x)) \<le> k) \<Longrightarrow> costs P k (await L f ev)"
  unfolding costs_def using await_log by blast

text \<open>Subscribing up to its one \<open>basic.consume\<close>.\<close>

definition start_consumer :: "('w, 'b) lapin \<Rightarrow> nat \<Rightarrow> string \<Rightarrow> string \<Rightarrow> ('w, 'b, nat \<times> nat) io" where
  "start_consumer L ch q tag = bind_io (await L (l_consume L ch q tag) (\<lambda>r. [EConsume ch q tag r]))
     (\<lambda>r. bind_io (or_amqp r) (\<lambda>consumer. ret (ch, consumer)))"

lemma start_consumer_once: "costs starts_consumer 1 (start_consumer L ch q tag)"
proof -
  have "costs starts_consumer 0 (bind_io (or_amqp r) (\<lambda>consumer. ret (ch, consumer)))" for r :: "lapin_error + nat"
    by (rule logs_costs) (intro logs_rules)
  then have "costs starts_consumer (1 + 0) (start_consumer L ch q tag)"
    unfolding start_consumer_def by (intro costs_bind costs_await) simp_all
  then show ?thesis by simp
qed

lemma subscribe_consumes_once: "costs starts_consumer 1 (subscribe L c cfg)"
  unfolding subscribe_def start_consumer_def [symmetric]
  by (intro costs_free_bind start_consumer_once)
    (unfold create_channel_def consumer_tag_def, (intro logs_rules; simp)+)

lemma subscribe_dials_never: "logs (\<lambda>s. True) no_dial (subscribe L c cfg)"
  unfolding subscribe_def consumer_tag_def create_channel_def by (intro logs_rules) simp_all

lemma subscribe_total: "total (subscribe L c cfg)"
  unfolding subscribe_def consumer_tag_def create_channel_def by (intro total_rules)

lemma subscribe_run:
  obtains r t new where "subscribe L c cfg s = Some (r, t)" "log t = log s @ new" "dials new = 0"
    "consumes new \<le> 1"
proof -
  obtain r t where run: "subscribe L c cfg s = Some (r, t)"
    using subscribe_total [of L c cfg] unfolding total_def by (metis not_None_eq surj_pair)
  moreover obtain new where "log t = log s @ new" "dials new = 0"
    using logsD [OF subscribe_dials_never TrueI run] no_dial_dials by blast
  moreover have "consumes new \<le> 1"
    using costsD [OF subscribe_consumes_once run] \<open>log t = log s @ new\<close> by (auto simp: consumes_def)
  ultimately show thesis using that by blast
qed

section \<open>Bounded reconnection\<close>

lemma upkeep_consumes: "list_all upkeep new \<Longrightarrow> consumes new = 0"
proof -
  have "upkeep e \<Longrightarrow> \<not> starts_consumer e" for e :: "'b rmq_event" by (cases e) auto
  then show "list_all upkeep new \<Longrightarrow> consumes new = 0" by (induction new) (auto simp: consumes_def)
qed

lemma live_run: "\<exists>r t new. live L s = Some (r, t) \<and> log t = log s @ new \<and> dials new = 0 \<and> list_all upkeep new
    \<and> (\<forall>e. r = Inl e \<longrightarrow> e = into_core BackendClosed)"
proof -
  obtain r t where run: "live L s = Some (r, t)"
    using total_handle(9) [of L] unfolding total_def by (metis not_None_eq surj_pair)
  moreover have "logs (\<lambda>s. True) housekeeping (live L)" by (intro logs_rules)
  ultimately show ?thesis
    using housekeeping_dials failsD [OF fails_handle(11) [of L]] by blast
qed

lemma result_option_cases:
  obtains e where "r = Inl e" | c where "r = Inr (Some c)" | "r = Inr None"
proof (cases r)
  case (Inr v)
  with that show thesis by (cases v) auto
qed (use that in auto)

lemma ensure_connected_bounded:
  assumes pol: "gives_up_after n policy" "reconnect opts = Some policy"
  shows "\<exists>r t new. ensure_connected L opts s = Some (r, t) \<and> log t = log s @ new \<and> list_all upkeep new
    \<and> dials new \<le> unat n \<and> (case r of Inr c \<Rightarrow> True | Inl e \<Rightarrow> e = into_core BackendClosed
        \<or> (\<exists>k l. e = into_core (ReconnectExhausted k l) \<and> k \<le> n))"
proof -
  obtain r1 s1 a where l1: "live L s = Some (r1, s1)" "log s1 = log s @ a" "dials a = 0" "list_all upkeep a"
    "\<forall>e. r1 = Inl e \<longrightarrow> e = into_core BackendClosed" using live_run by blast
  obtain r2 s2 b where l2: "pause L s1 = Some (r2, s2)" "log s2 = log s1 @ b" "b = []" "\<exists>u. r2 = Inr u"
    using total_pause [of L] unfolding total_def pause_def by (metis await_log append_Nil2 not_None_eq surj_pair)
  obtain r3 s3 c where l3: "live L s2 = Some (r3, s3)" "log s3 = log s2 @ c" "dials c = 0" "list_all upkeep c"
    "\<forall>e. r3 = Inl e \<longrightarrow> e = into_core BackendClosed" using live_run by blast
  obtain r4 s4 d where l4: "reconnect_loop L opts policy (0, None) s3 = Some (r4, s4)" "log s4 = log s3 @ d"
    "list_all upkeep d" "dials d \<le> unat n" "case r4 of Inr c \<Rightarrow> True | Inl e \<Rightarrow> e = into_core BackendClosed
           \<or> (\<exists>k l'. e = into_core (ReconnectExhausted k l') \<and> k \<le> n)"
    using reconnect_loop_bounded [OF pol(1), of 0 None L opts s3] by auto
  consider e where "r1 = Inl e" | c where "r1 = Inr (Some c)" | "r1 = Inr None"
      by (rule result_option_cases)
  then show ?thesis
  proof cases
    case 3
    consider e where "r3 = Inl e" | c where "r3 = Inr (Some c)" | "r3 = Inr None"
      by (rule result_option_cases)
    then show ?thesis
      by cases (use l1 l2 l3 l4 3 pol(2) in \<open>auto simp: ensure_connected_def bind_io_def ret_def\<close>)
  qed (use l1 in \<open>auto simp: ensure_connected_def bind_io_def ret_def\<close>)
qed

section \<open>Bounded resubscribing\<close>

lemma run_total: "total m \<Longrightarrow> \<exists>r t. m s = Some (r, t)"
  unfolding total_def by (metis not_None_eq surj_pair)

lemma run_housekeeping:
  assumes "total m" "logs (\<lambda>s. True) housekeeping m"
  shows "\<exists>r t new. m s = Some (r, t) \<and> log t = log s @ new \<and> dials new = 0 \<and> consumes new = 0"
  using run_total [OF assms(1)] housekeeping_dials [OF assms(2)] upkeep_consumes by blast

text \<open>One turn of \<open>recover\<close>: it ends the loop, or one more failure is counted and the policy has not
  given up.\<close>

lemma recover_turn:
  assumes pol: "gives_up_after n policy" "reconnect opts = Some policy" and f: "f = 0 \<or> f < n"
  shows "\<exists>r t new. recover_once L opts policy cs f s = Some (r, t) \<and> log t = log s @ new
    \<and> dials new \<le> unat n \<and> consumes new \<le> 1 \<and> (\<forall>g. r = Inr (Inr g) \<longrightarrow> g = f + 1 \<and> f + 1 < n)"
proof -
  obtain r1 s1 a where e: "ensure_connected L opts s = Some (r1, s1)" "log s1 = log s @ a"
    "dials a \<le> unat n" "consumes a = 0"
    using ensure_connected_bounded [OF pol, of L s] upkeep_consumes by blast
  show ?thesis
  proof (cases r1)
    case (Inl x)
    with e show ?thesis by (auto simp: recover_once_def bind_io_def)
  next
    case (Inr c)
    obtain r2 s2 b where b: "subscribe L c (cs_config cs) s1 = Some (r2, s2)" "log s2 = log s1 @ b"
      "dials b = 0" "consumes b \<le> 1" by (rule subscribe_run)
    show ?thesis
    proof (cases r2)
      case (Inr x)
      with e b \<open>r1 = Inr c\<close> show ?thesis
        by (auto simp: recover_once_def bind_io_def reads_def catch_def ret_def split: prod.split)
    next
      case (Inl x)
      let ?ask = "policy (attempt_after RebuildConsumer (f + 1) (SubscribeFailed x))"
      have ask: "?ask \<noteq> None" "n \<le> f + 1 \<Longrightarrow> ?ask = Some None"
        using pol(1) by (auto simp: gives_up_after_def attempt_after_def)
      show ?thesis
      proof (cases "?ask = Some None")
        case True
        with e b \<open>r1 = Inr c\<close> Inl show ?thesis
          by (auto simp: recover_once_def bind_io_def reads_def catch_def fail_def)
      next
        case False
        with ask obtain dly where dly: "?ask = Some (Some dly)" "f + 1 < n" by fastforce
        obtain r3 s3 d where d: "sleep_unless_closing L dly s2 = Some (r3, s3)" "log s3 = log s2 @ d"
          "dials d = 0" "consumes d = 0"
          using run_housekeeping [of "sleep_unless_closing L dly" s2] total_handle(10) logs_handle(10) [OF stable_True]
          by blast
        with e b dly \<open>r1 = Inr c\<close> Inl show ?thesis
          by (cases r3) (auto simp: recover_once_def bind_io_def reads_def catch_def ret_def)
      qed
    qed
  qed
qed

lemma recover_loop_bounded:
  assumes pol: "gives_up_after n policy" "reconnect opts = Some policy"
  shows "f = 0 \<or> f < n \<Longrightarrow> \<exists>r t new. recover_loop L opts policy cs f s = Some (r, t) \<and> log t = log s @ new
    \<and> consumes new \<le> max 1 (unat n - unat f) \<and> dials new \<le> unat n * max 1 (unat n - unat f)"
proof (induction "unat n - unat f" arbitrary: f s rule: less_induct)
  case less
  obtain r t a where t: "recover_once L opts policy cs f s = Some (r, t)" "log t = log s @ a"
    "dials a \<le> unat n" "consumes a \<le> 1" "\<forall>g. r = Inr (Inr g) \<longrightarrow> g = f + 1 \<and> f + 1 < n"
    using recover_turn [OF pol less.prems] by blast
  show ?case
  proof (cases "r = Inr (Inr (f + 1))")
    case True
    with t(5) have fn: "f + 1 < n" by blast
    then have "f < n" using less.prems by (metis word_gt_0 word_not_simps(1))
    note inc = unat_add_one [OF this]
    have lt: "unat (f + 1) < unat n" using fn by (simp only: word_less_nat_alt)
    have "unat n - unat (f + 1) < unat n - unat f" using inc lt by simp
    from less.hyps [OF this disjI2 [OF fn], of t] obtain r' t' b where u:
      "recover_loop L opts policy cs (f + 1) t = Some (r', t')" "log t' = log t @ b"
      "consumes b \<le> max 1 (unat n - unat (f + 1))" "dials b \<le> unat n * max 1 (unat n - unat (f + 1))" by blast
    have m: "max 1 (unat n - unat f) = Suc (max 1 (unat n - unat (f + 1)))" using inc lt by simp
    have "recover_loop L opts policy cs f s = Some (r', t')"
      using t(1) True u(1) unfolding recover_loop_def by (subst repeat_io.simps) simp
    with t u m show ?thesis by (intro exI [of _ r'] exI [of _ t'] exI [of _ "a @ b"]) simp
  next
    case False
    with t(5) have "r \<noteq> Inr (Inr g)" for g by blast
    then have "\<exists>r'. recover_loop L opts policy cs f s = Some (r', t)"
      using t(1) unfolding recover_loop_def by (subst repeat_io.simps) (auto split: sum.split)
    moreover have "dials a \<le> unat n * max 1 (unat n - unat f)"
    proof -
      have "unat n * 1 \<le> unat n * max 1 (unat n - unat f)" by (rule mult_le_mono2) simp
      with t(3) show ?thesis by linarith
    qed
    moreover have "consumes a \<le> max 1 (unat n - unat f)" using t(4) by linarith
    ultimately show ?thesis using t(2) by blast
  qed
qed

text \<open>Nothing is published or settled on the way: what a resubscription logs is upkeep and the request for
  deliveries.\<close>

abbreviation rebuilding :: "'b rmq_event \<Rightarrow> bool" where
  "rebuilding e \<equiv> upkeep e \<or> starts_consumer e"

lemmas rebuild_handle = logs_handle(1-10) [OF stable_True, THEN logs_weaken [where Q = rebuilding], simplified]

lemma rebuild_ensure_connected: "logs (\<lambda>s. True) rebuilding (ensure_connected L opts)"
  by (rule logs_weaken [OF logs_ensure_connected [OF stable_True]]) simp

lemma rebuild_subscribe: "logs (\<lambda>s. True) rebuilding (subscribe L c cfg)"
  unfolding subscribe_def consumer_tag_def create_channel_def by (intro logs_rules) simp_all

lemma rebuild_recover: "logs (\<lambda>s. True) rebuilding (recover L opts cs)"
  unfolding recover_def recover_loop_def recover_once_def close_consumer_channel_def
  by (intro logs_rules rebuild_ensure_connected rebuild_subscribe rebuild_handle) simp_all

text \<open>C10: with a policy of at most \<open>n\<close> attempts, a request for a connection comes back whatever the broker
  and the other tasks do: after at most \<open>n\<close> dials, with a connection, or with the error that the
  backend is closed or that reconnecting is exhausted after at most \<open>n\<close> failures; nothing was published,
  settled or consumed meanwhile. A consumer that lost its subscription also stops trying: after at most
  \<open>max 1 n\<close> subscriptions and \<open>n * max 1 n\<close> dials, and it too has published and settled nothing.\<close>

theorem bounded_reconnection_comes_back:
  assumes "rng_ok pf" "bp_max_attempts b = Some n" "reconnect opts = Some (next_delay pf b)"
  shows "(\<exists>r t new. ensure_connected L opts s = Some (r, t) \<and> log t = log s @ new \<and> list_all upkeep new
      \<and> dials new \<le> unat n \<and> (case r of Inr c \<Rightarrow> True | Inl e \<Rightarrow> e = into_core BackendClosed
          \<or> (\<exists>k l. e = into_core (ReconnectExhausted k l) \<and> k \<le> n)))
    \<and> (\<exists>r t new. recover L opts cs s = Some (r, t) \<and> log t = log s @ new
      \<and> list_all (\<lambda>e. upkeep e \<or> starts_consumer e) new
      \<and> consumes new \<le> max 1 (unat n) \<and> dials new \<le> unat n * max 1 (unat n))"
proof (intro conjI)
  note pol = next_delay_gives_up [OF assms(1,2)] assms(3)
  show "\<exists>r t new. ensure_connected L opts s = Some (r, t) \<and> log t = log s @ new \<and> list_all upkeep new
      \<and> dials new \<le> unat n \<and> (case r of Inr c \<Rightarrow> True | Inl e \<Rightarrow> e = into_core BackendClosed
          \<or> (\<exists>k l. e = into_core (ReconnectExhausted k l) \<and> k \<le> n))"
    by (rule ensure_connected_bounded [OF pol])
  obtain r1 s1 a where a: "is_closing L s = Some (r1, s1)" "log s1 = log s @ a" "dials a = 0" "consumes a = 0"
    using run_housekeeping [of "is_closing L" s] total_handle(1) logs_handle(1) [OF stable_True] by blast
  have "total (close_consumer_channel L ch)" "logs (\<lambda>s. True) housekeeping (close_consumer_channel L ch)" for ch
    unfolding close_consumer_channel_def by (intro total_rules, intro logs_rules)
  then obtain r2 s2 b' where b': "close_consumer_channel L (cs_channel cs) s1 = Some (r2, s2)"
    "log s2 = log s1 @ b'" "dials b' = 0" "consumes b' = 0"
    using run_housekeeping [of "close_consumer_channel L (cs_channel cs)" s1] by blast
  obtain r3 s3 c where c: "recover_loop L opts (next_delay pf b) cs 0 s2 = Some (r3, s3)" "log s3 = log s2 @ c"
    "consumes c \<le> max 1 (unat n)" "dials c \<le> unat n * max 1 (unat n)"
    using recover_loop_bounded [OF pol, of 0 L cs s2] by auto
  from a b' c have "\<exists>r t new. recover L opts cs s = Some (r, t) \<and> log t = log s @ new
      \<and> consumes new \<le> max 1 (unat n) \<and> dials new \<le> unat n * max 1 (unat n)"
    by (cases r1; cases r2; cases r3) (auto simp: recover_def bind_io_def ret_def assms(3))
  with logsD [OF rebuild_recover TrueI, of L opts cs s]
  show "\<exists>r t new. recover L opts cs s = Some (r, t) \<and> log t = log s @ new
      \<and> list_all rebuilding new \<and> consumes new \<le> max 1 (unat n) \<and> dials new \<le> unat n * max 1 (unat n)"
    by fastforce
qed

section \<open>Declaring\<close>

definition topology_created :: "rmq_options \<Rightarrow> queue_config \<Rightarrow> 'b rmq_event list \<Rightarrow> bool" where
  "topology_created opts cfg new \<longleftrightarrow>
     (\<exists>ch. EDeclare ch (qc_name cfg) (declare_options (durable cfg)) (queue_args cfg) (Inr ()) \<in> set new)
   \<and> (declare_dead_letter_queues opts \<longrightarrow> (\<exists>ch. EDeclare ch (dead_queue_name (qc_name cfg) (dead_suffix opts))
        (declare_options True) (dead_queue_args cfg) (Inr ()) \<in> set new))"

definition known :: "string \<Rightarrow> ('w, 'b) rmq \<Rightarrow> bool" where
  "known n s \<longleftrightarrow> map_of (configs s) n \<noteq> None"

lemma map_of_remember: "map_of (remember_config c cs) n = (if n = qc_name c then Some c else map_of cs n)"
  unfolding remember_config_def by (auto simp: map_of_filter_in) (induction cs, auto)

lemma stable_known [logs_rules]: "stable (known n)"
  unfolding stable_def
proof (intro allI impI conjI)
  show "known n s \<Longrightarrow> known n (apply_other oth s)" for s :: "('w, 'b) rmq" and oth
    by (cases oth) (auto simp: known_def install_connection_def map_of_remember)
qed (simp_all add: known_def)

lemma queue_declare_ok: "queue_declare L ch n dopts args s = Some (Inr u, t) \<Longrightarrow>
    log t = log s @ [EDeclare ch n dopts args (Inr ())]"
  using runs_toD [OF declare_runs_to, of L ch n dopts args s "Inr u" t] by auto

lemma declare_topology_ok:
  assumes "declare_topology L opts ch cfg s = Some (Inr u, t)"
  shows "\<exists>new. log t = log s @ new \<and> topology_created opts cfg new"
proof -
  from assms obtain s1 where s1: "queue_declare L ch (qc_name cfg) (declare_options (durable cfg)) (queue_args cfg) s
      = Some (Inr (), s1)"
    "(if declare_dead_letter_queues opts
     then bind_io (lift_res (short_string (dead_queue_name (qc_name cfg) (dead_suffix opts)))) (\<lambda>n.
          queue_declare L ch n (declare_options True) (dead_queue_args cfg))
     else ret ()) s1 = Some (Inr u, t)"
    by (auto simp: declare_topology_def bind_io_Inr lift_res_def)
  show ?thesis
  proof (cases "declare_dead_letter_queues opts")
    case True
    with s1(2) have "queue_declare L ch (dead_queue_name (qc_name cfg) (dead_suffix opts)) (declare_options True)
        (dead_queue_args cfg) s1 = Some (Inr u, t)"
      by (auto simp: bind_io_Inr lift_res_def)
    from queue_declare_ok [OF s1(1)] queue_declare_ok [OF this] show ?thesis
      by (auto simp: topology_created_def)
  next
    case False
    with s1(2) queue_declare_ok [OF s1(1)] show ?thesis
      by (auto simp: topology_created_def ret_def)
  qed
qed

lemma topology_created_mono: "topology_created opts cfg a \<Longrightarrow> set a \<subseteq> set b \<Longrightarrow> topology_created opts cfg b"
  unfolding topology_created_def by blast

lemma declare_each_keeps: "logs (known n) (\<lambda>e. True) (declare_each L opts ch cfgs)"
proof (induction cfgs)
  case (Cons c cfgs)
  have "logs (known n) (\<lambda>e. True) (declare_topology L opts ch c)"
    by (rule logs_weaken [OF logs_declare_topology [OF stable_known]]) simp
  with Cons show ?case
    by (auto simp: rmq_declare_one_def intro!: logs_bind logs_remember stable_known)
qed (simp add: logs_ret)

lemma declare_each_ok:
  "declare_each L opts ch cfgs s = Some (Inr u, t) \<Longrightarrow> \<exists>new. log t = log s @ new
     \<and> (\<forall>cfg\<in>set cfgs. topology_created opts cfg new \<and> known (qc_name cfg) t)"
proof (induction cfgs arbitrary: s)
  case (Cons c cfgs)
  then obtain s1 where s1: "declare_topology L opts ch c s = Some (Inr (), s1)"
    "declare_each L opts ch cfgs (s1\<lparr>configs := remember_config c (configs s1)\<rparr>) = Some (Inr u, t)"
    by (auto simp: rmq_declare_one_def bind_io_Inr remember_def writes_def)
  let ?s = "s1\<lparr>configs := remember_config c (configs s1)\<rparr>"
  obtain a where a: "log s1 = log s @ a" "topology_created opts c a" using declare_topology_ok [OF s1(1)] by blast
  obtain b where b: "log t = log ?s @ b" "\<forall>cfg\<in>set cfgs. topology_created opts cfg b \<and> known (qc_name cfg) t"
    using Cons.IH [OF s1(2)] by blast
  have "known (qc_name c) ?s" by (simp add: known_def map_of_remember)
  then have "known (qc_name c) t" using logsD [OF declare_each_keeps _ s1(2)] by blast
  then show ?case using a b
    by (intro exI [of _ "a @ b"]) (auto intro: topology_created_mono [of _ _ a] topology_created_mono [of _ _ b])
qed (auto simp: ret_def)

lemma check_names_ok: "check_names suffix cfgs = Inr () \<longleftrightarrow>
    (\<forall>cfg\<in>set cfgs. check_deferrable_name (qc_name cfg) suffix = Inr ())"
  by (induction cfgs) (auto split: sum.split)

lemma check_names_error: "check_names suffix cfgs = Inl e \<Longrightarrow> \<exists>q h k. e = into_core (DeferredNameTooLong q h k MAX_SHORT_STRING_LENGTH)"
  by (induction cfgs) (auto simp: check_deferrable_name_def Let_def split: sum.splits if_splits)

lemma close_if_up_keeps: "logs (known n) (\<lambda>e. True) (close_if_up L ch)"
  by (rule logs_weaken [OF logs_handle(7) [OF stable_known]]) simp

lemma rmq_declare_ok:
  assumes "rmq_declare L opts cfgs s = Some (Inr u, t)"
  shows "\<exists>new. log t = log s @ new \<and> (\<forall>cfg\<in>set cfgs. topology_created opts cfg new \<and> known (qc_name cfg) t)"
proof (cases "cfgs = []")
  case False
  with assms obtain c s1 r s2 ch s3 v where
    c: "ensure_connected L opts s = Some (Inr c, s1)" "create_channel L c s1 = Some (Inr r, s2)" "r = Inr ch"
    and d: "declare_each L opts ch cfgs s2 = Some (Inr u, s3)" "close_if_up L ch s3 = Some (Inr v, t)"
    by (auto simp: rmq_declare_def bind_io_Inr lift_res_def catch_def or_amqp_def ret_def fail_def
        split: option.splits sum.splits)
  obtain x where x: "log s1 = log s @ x"
    using logsD [OF logs_ensure_connected [OF stable_True] TrueI c(1)] by blast
  obtain y where y: "log s2 = log s1 @ y"
    using logsD [OF logs_handle(6) [OF stable_True] TrueI c(2)] by blast
  obtain z where z: "log s3 = log s2 @ z" "\<forall>cfg\<in>set cfgs. topology_created opts cfg z \<and> known (qc_name cfg) s3"
    using declare_each_ok [OF d(1)] by blast
  obtain w where w: "log t = log s3 @ w"
    using logsD [OF logs_handle(7) [OF stable_True] TrueI d(2)] by blast
  have "known (qc_name cfg) t" if "cfg \<in> set cfgs" for cfg
    using logsD [OF close_if_up_keeps _ d(2)] z(2) that by blast
  moreover have "topology_created opts cfg (x @ y @ z @ w)" if "cfg \<in> set cfgs" for cfg
    using z(2) that by (auto intro: topology_created_mono [of _ _ z])
  ultimately show ?thesis using x y z(1) w by (intro exI [of _ "x @ y @ z @ w"]) auto
qed (use assms in \<open>simp add: rmq_declare_def ret_def\<close>)

text \<open>C35: every queue name of a declaration is checked before anything else happens: if one of them leaves
  no room for its hold queues the declaration fails with that error and nothing at all has changed, not
  even a connection was asked for. A declaration that succeeds has created every queue of the list and,
  where dead-letter queues are the backend's, its dead-letter queue, each with the arguments of its
  configuration, and every one of them is known from then on, so retries and deferrals can be held.\<close>

theorem declare_checks_names_then_creates:
  "(if \<exists>cfg\<in>set cfgs. check_deferrable_name (qc_name cfg) (deferred_suffix opts) \<noteq> Inr ()
    then \<exists>q h k. rmq_declare L opts cfgs s
      = Some (Inl (into_core (DeferredNameTooLong q h k MAX_SHORT_STRING_LENGTH)), s)
    else (case rmq_declare L opts cfgs s of
        Some (Inr u, t) \<Rightarrow> \<exists>new. log t = log s @ new
          \<and> (\<forall>cfg\<in>set cfgs. topology_created opts cfg new \<and> known (qc_name cfg) t)
      | _ \<Rightarrow> True))"
proof (cases "check_names (deferred_suffix opts) cfgs")
  case (Inl e)
  then have "\<exists>cfg\<in>set cfgs. check_deferrable_name (qc_name cfg) (deferred_suffix opts) \<noteq> Inr ()"
    using check_names_ok [of "deferred_suffix opts" cfgs] by auto
  moreover have "rmq_declare L opts cfgs s = Some (Inl e, s)"
    using Inl by (cases cfgs) (auto simp: rmq_declare_def lift_res_def bind_io_def)
  ultimately show ?thesis using check_names_error [OF Inl] by auto
next
  case (Inr u)
  then have "\<not> (\<exists>cfg\<in>set cfgs. check_deferrable_name (qc_name cfg) (deferred_suffix opts) \<noteq> Inr ())"
    using check_names_ok [of "deferred_suffix opts" cfgs] by auto
  then show ?thesis using rmq_declare_ok [of L opts cfgs s] by (auto split: option.split sum.split)
qed

section \<open>Settling\<close>

text \<open>C2: a delivery is settled last: if settling comes back with an error before the broker answered the
  ack or reject, then nothing was accepted by the broker and nothing was settled; otherwise the last
  thing that happened is exactly one ack or reject of this delivery, and before it the broker had acked
  exactly what the settlement stands for - the dead letter with its reason, or the successor in the hold
  queue of its delay, declared for its queue - and the caller is told success exactly when the broker
  took the settlement.\<close>

theorem settled_only_after_publishing:
  "case rmq_settle L opts st d s of
     None \<Rightarrow> True
   | Some (r, t) \<Rightarrow> \<exists>new. log t = log s @ new \<and> settle_outcome L opts (configs s) st d r new"
  using rmq_settle_cases [of L opts st d s] by (auto split: option.split)

section \<open>Messages that do not decode\<close>

definition disposed :: "rmq_options \<Rightarrow> string \<Rightarrow> 'b lapin_delivery \<Rightarrow> 'b rmq_event list \<Rightarrow> bool" where
  "disposed opts q d new \<longleftrightarrow>
     (\<exists>pre b. new = pre @ [EAck (ld_acker d) (Inr b)] \<and> declare_dead_letter_queues opts
        \<and> ends_accepted (dead_queue_name q (dead_suffix opts)) (ld_data d) (malformed_props q REASON_MALFORMED) pre)
   \<or> (\<exists>pre e x. new = pre @ [EAck (ld_acker d) (Inl e), EReject (ld_acker d) False x]
        \<and> declare_dead_letter_queues opts
        \<and> ends_accepted (dead_queue_name q (dead_suffix opts)) (ld_data d) (malformed_props q REASON_MALFORMED) pre)
   \<or> (\<exists>pre x. new = pre @ [EReject (ld_acker d) False x] \<and> list_all fruitless pre
        \<and> (declare_dead_letter_queues opts \<or> pre = []))"

lemma discard_malformed_cases:
  assumes "discard_malformed L opts q d s = Some (r, t)"
  shows "r = Inr () \<and> (\<exists>new. log t = log s @ new \<and> disposed opts q d new)"
proof -
  have rej: "x = Inr () \<and> (\<exists>y. log v = log u @ [EReject (ld_acker d) False y])"
    if "bind_io (send_reject L (ld_acker d)) (\<lambda>_. ret ()) u = Some (x, v)" for x u v
    using that by (auto simp: send_reject_def bind_io_Some ret_def dest!: await_log)
  show ?thesis
  proof (cases "declare_dead_letter_queues opts")
    case False
    with assms rej [of s r t] show ?thesis
      by (auto simp: discard_malformed_def ret_def bind_io_def disposed_def)
  next
    case True
    with assms obtain p s1 where p: "publish_malformed L opts q (ld_data d) REASON_MALFORMED s = Some (p, s1)"
      by (auto simp: discard_malformed_def forward_malformed_def bind_io_def catch_def split: option.splits)
    obtain a where a: "log s1 = log s @ a" "case p of Inl e \<Rightarrow> list_all fruitless a
        | Inr u \<Rightarrow> ends_accepted (dead_queue_name q (dead_suffix opts)) (ld_data d)
            (malformed_props q REASON_MALFORMED) a"
      using runs_toD [OF publish_malformed_runs_to p] by blast
    show ?thesis
    proof (cases p)
      case (Inl e)
      with assms p True have "bind_io (send_reject L (ld_acker d)) (\<lambda>_. ret ()) s1 = Some (r, t)"
        by (simp add: discard_malformed_def forward_malformed_def bind_io_def catch_def ret_def)
      from rej [OF this] a Inl True show ?thesis by (auto simp: disposed_def)
    next
      case (Inr u)
      obtain k s2 where k: "send_ack L (ld_acker d) s1 = Some (Inr k, s2)" "log s2 = log s1 @ [EAck (ld_acker d) k]"
        unfolding send_ack_def using run_total [OF total_await] await_log by metis
      show ?thesis
      proof (cases k)
        case (Inr b)
        with assms p True k \<open>p = Inr u\<close> have "r = Inr ()" "t = s2"
          by (simp_all add: discard_malformed_def forward_malformed_def bind_io_def catch_def ret_def)
        with a k Inr True \<open>p = Inr u\<close> show ?thesis by (auto simp: disposed_def)
      next
        case (Inl e)
        with assms p True k \<open>p = Inr u\<close> have "bind_io (send_reject L (ld_acker d)) (\<lambda>_. ret ()) s2 = Some (r, t)"
          by (simp add: discard_malformed_def forward_malformed_def bind_io_def catch_def ret_def)
        from rej [OF this] a k Inl True \<open>p = Inr u\<close> show ?thesis by (auto simp: disposed_def)
      qed
    qed
  qed
qed

text \<open>C36: a message that does not decode is always disposed of and never fails the stream: its bytes reach
  the dead-letter queue unchanged, with the reason, before it is acked; when that is not the backend's
  queue, or the forwarding or its ack failed, it is rejected without requeueing.\<close>

theorem malformed_message_is_disposed_of:
  "case discard_malformed L opts q d s of
     None \<Rightarrow> True
   | Some (r, t) \<Rightarrow> r = Inr () \<and> (\<exists>new. log t = log s @ new \<and> disposed opts q d new)"
  using discard_malformed_cases [of L opts q d s] by (auto split: option.split)

section \<open>Consumer tags\<close>

lemma length_show_hex: "n < 16 ^ k \<Longrightarrow> 0 < k \<Longrightarrow> length (show_hex n) \<le> k"
proof (induction k arbitrary: n)
  case (Suc k)
  show ?case
  proof (cases "n < 16")
    case False
    with Suc.prems have "n div 16 < 16 ^ k" by (simp add: less_mult_imp_div_less mult.commute)
    moreover from this False have "0 < k" by (cases k) auto
    ultimately have "length (show_hex (n div 16)) \<le> k" by (rule Suc.IH)
    with False show ?thesis by (simp add: show_hex.simps [of n])
  qed (simp add: show_hex.simps)
qed simp

text \<open>the consumer tag of any queue, however long its name, at any time and after any number of
  subscriptions fits an AMQP short string, and shows the name whole when it has at most 160 bytes.\<close>

theorem consumer_tag_fits:
  "length (tag_text q nanos sequence) \<le> 221 \<and> short_string (tag_text q nanos sequence) = Inr (tag_text q nanos sequence)
   \<and> (if length q \<le> 160 then take (length q) (drop 7 (tag_text q nanos sequence)) = q else True)"
proof -
  have "unat nanos < 2 ^ LENGTH(128)" by (rule unsigned_less)
  then have "unat nanos < 16 ^ 32" by simp
  then have hex: "length (show_hex (unat nanos)) \<le> 32" by (rule length_show_hex) simp
  have "unat sequence < 2 ^ LENGTH(64)" by (rule unsigned_less)
  then have "length (show_nat (unat sequence)) \<le> length (show_nat (2 ^ 64 - 1))"
    by (intro length_show_nat_mono) simp
  also have "\<dots> = 20" by (simp add: show_nat.simps)
  finally have len: "length (tag_text q nanos sequence) \<le> 221"
    using hex length_truncate [of q 160] by (simp add: tag_text_def)
  then have "short_string (tag_text q nanos sequence) = Inr (tag_text q nanos sequence)"
    by (simp add: MAX_SHORT_STRING_LENGTH_def)
  with len show ?thesis by (simp add: tag_text_def truncate_at_boundary_def)
qed

section \<open>An example broker\<close>

text \<open>It accepts everything, or (\<open>up = False\<close>) its connection is gone and every dial is refused.\<close>

definition example_broker :: "bool \<Rightarrow> (nat, json) lapin" where
  "example_broker up = \<lparr>l_wire = identity_wire, l_show_uuid = (\<lambda>u. ''id''),
     l_dial = (\<lambda>u p w. (if up then Inr w else Inl (OtherLapinError ''refused''), w + 1)),
     l_conn_up = (\<lambda>c w. (up, w)), l_close_conn = (\<lambda>c w. (Inr (), w)),
     l_create_channel = (\<lambda>c w. (Inr w, w + 1)), l_chan_up = (\<lambda>ch w. (up, w)),
     l_close_chan = (\<lambda>ch w. (Inr (), w)), l_confirm_select = (\<lambda>ch w. (Inr (), w)),
     l_queue_declare = (\<lambda>ch n dopts args w. (Inr (), w)),
     l_basic_publish = (\<lambda>ch q mandatory body props w. (Inr (), w)),
     l_await_confirm = (\<lambda>ch w. (Inr (CAck None), w)), l_ack = (\<lambda>a w. (Inr True, w)),
     l_reject = (\<lambda>a requeue w. (Inr True, w)), l_qos = (\<lambda>ch n w. (Inr (), w)),
     l_consume = (\<lambda>ch q tag w. (Inr w, w + 1)), l_next = (\<lambda>c w. (None, w)), l_sleep = (\<lambda>d w. ((), w)),
     l_idle = (\<lambda>w. ((), w)), l_nanos = (\<lambda>w. (0, w)), l_map_order = (\<lambda>w cs. cs), l_others = (\<lambda>w. ([], w))\<rparr>"

definition example_options :: rmq_options where
  "example_options = set_reconnect (Some (next_delay example_platform
     (set_max_attempts (Some 3) backoff_policy_default))) (options_default example_platform)"

definition example_state :: "(nat, json) rmq" where
  "example_state = \<lparr>world = 10, log = [], uri = ''amqp://localhost'', current = 0, generation = 1,
     closing = False, configs = [(''jobs'', queue_config_new ''jobs'')], confirm_pool = pool_new 1 2,
     declare_channel = 2, next_tag = 0\<rparr>"

definition example_mail :: envelope where
  "example_mail = envelope_raw 1 2 ''mail'' ''jobs'' JNull"

definition example_consumer :: consume_state where
  "example_consumer = \<lparr>cs_consumer = 5, cs_channel = 4, cs_config = queue_config_new ''jobs'', cs_generation = 1\<rparr>"

lemmas example_broker_defs = example_broker_def example_options_def example_state_def example_mail_def
  example_consumer_def options_default_def set_reconnect_def

theorem bounded_reconnection_comes_back_witness:
  "(\<exists>r t new. ensure_connected (example_broker False) example_options example_state = Some (r, t)
      \<and> log t = new \<and> dials new \<le> 3)
   \<and> (\<exists>r t new. recover (example_broker False) example_options example_consumer example_state = Some (r, t)
      \<and> log t = new \<and> list_all (\<lambda>e. upkeep e \<or> starts_consumer e) new \<and> dials new \<le> 9)"
proof -
  have l: "log example_state = []" by (simp add: example_state_def)
  have r: "reconnect example_options
      = Some (next_delay example_platform (set_max_attempts (Some 3) backoff_policy_default))"
    by (simp add: example_options_def set_reconnect_def)
  have m: "bp_max_attempts (set_max_attempts (Some 3) backoff_policy_default) = Some 3"
    by (simp add: set_max_attempts_def)
  from bounded_reconnection_comes_back [OF example_platform_ok(1) m r,
      of "example_broker False" example_state example_consumer] l
  show ?thesis by auto
qed

text \<open>Holding with the example broker: the hold queue is declared, the successor published and
  confirmed, and then the original acked.\<close>

lemma example_ttl: "deferred_ttl_ms (from_secs 30) DEFAULT_GRANULARITY = Some 30000"
  "deferred_ttl_ms (from_millis 29200) DEFAULT_GRANULARITY = Some 30000"
  by (simp_all add: DEFAULT_GRANULARITY_def deferred_ttl_ms_step hold_step_def clamp_def millis_ceil_def div_ceil_def
      saturating_mul_u128_def from_secs_def from_millis_def nanos_per_sec_def nanos_per_milli_def Let_def)

lemma example_hold_queue: "deferred_queue_name ''jobs'' DEFAULT_DEFERRED_SUFFIX 30000 = ''jobs.deferred.30000''"
proof -
  have "digit_char 3 = CHR ''3''" "digit_char 0 = CHR ''0''" by code_simp+
  then show ?thesis by (simp add: deferred_queue_name_def DEFAULT_DEFERRED_SUFFIX_def show_nat.simps)
qed

lemma example_hold:
  assumes "queue e = ''jobs''" "deferred_ttl_ms dly DEFAULT_GRANULARITY = Some 30000"
    "st = SRetry e dly \<or> st = SDefer e dly"
  shows "\<exists>t. rmq_settle (example_broker True) example_options st (delivery_new d 7) example_state = Some (Inr (), t)
    \<and> (\<exists>dopts args b p. log t = [EDeclare 2 ''jobs.deferred.30000'' dopts args (Inr ()),
        EPublish 1 ''jobs.deferred.30000'' b p (Inr ()), EConfirm 1 ''jobs.deferred.30000'' b p (Inr (CAck None)),
        EAck 7 (Inr True)])"
proof -
  have short: "short_string ''jobs.deferred.30000'' = Inr ''jobs.deferred.30000''"
    by (simp add: MAX_SHORT_STRING_LENGTH_def)
  note defs = example_broker_defs rmq_settle_def rmq_retry_def rmq_defer_def publish_held_def config_for_def
    assms(1,2) example_hold_queue short Let_def with_declare_channel_def
    pause_def await_def queue_declare_def publish_confirmed_def acquire_def acquire_permit_def pop_channel_def
    or_release_def chan_up_def publish_on_def end_lease_def ack_original_def send_ack_def io_defs
    delivery_new_def take_permit_def pop_idle_def pool_new_def settled_result_def queue_config_new_def to_bytes_def
  from assms(3) show ?thesis
  proof
    assume "st = SRetry e dly"
    then show ?thesis by (simp add: defs)
  next
    assume "st = SDefer e dly"
    then show ?thesis by (simp add: defs)
  qed
qed

lemma example_retry:
  "\<exists>t. rmq_settle (example_broker True) example_options (SRetry (next_attempt example_mail) (from_millis 29200))
      (delivery_new example_mail 7) example_state = Some (Inr (), t)"
  using example_hold [OF _ example_ttl(2), of "next_attempt example_mail"]
  by (auto simp: example_mail_def envelope_raw_def next_attempt_def)

theorem declare_checks_names_then_creates_witness:
  "\<exists>t. rmq_declare (example_broker True) example_options [queue_config_new ''jobs''] example_state = Some (Inr (), t)
     \<and> topology_created example_options (queue_config_new ''jobs'') (log t) \<and> known ''jobs'' t"
proof -
  have short: "short_string ''jobs'' = Inr ''jobs''" "short_string ''jobs.dead'' = Inr ''jobs.dead''"
    by (simp_all add: MAX_SHORT_STRING_LENGTH_def)
  have dead: "dead_queue_name ''jobs'' DEFAULT_DEAD_SUFFIX = ''jobs.dead''"
    by (simp add: dead_queue_name_def DEFAULT_DEAD_SUFFIX_def)
  have chk: "check_deferrable_name ''jobs'' DEFAULT_DEFERRED_SUFFIX = Inr ()"
    by (simp add: check_deferrable_name_def deferred_queue_name_def DEFAULT_DEFERRED_SUFFIX_def
        MAX_SHORT_STRING_LENGTH_def show_nat.simps)
  have "\<exists>t. rmq_declare (example_broker True) example_options [queue_config_new ''jobs''] example_state = Some (Inr (), t)"
    by (simp add: example_broker_defs rmq_declare_def chk ensure_connected_def live_def check_open_def is_closing_def
        pause_def await_def io_defs conn_up_def peek_def create_channel_def rmq_declare_one_def declare_topology_def
        queue_config_new_def short dead queue_declare_def remember_def close_if_up_def chan_up_def close_chan_def)
  then obtain t where t: "rmq_declare (example_broker True) example_options [queue_config_new ''jobs''] example_state
      = Some (Inr (), t)" by blast
  have "check_deferrable_name (qc_name (queue_config_new ''jobs'')) (deferred_suffix example_options) = Inr ()"
    using chk by (simp add: example_broker_defs queue_config_new_def to_bytes_def)
  with declare_checks_names_then_creates [of "[queue_config_new ''jobs'']" example_options "example_broker True"
      example_state] t
  show ?thesis by (simp add: example_state_def queue_config_new_def to_bytes_def)
qed

end
