(* ===== verification/Rmq_Transport.thy ===== *)
theory Rmq_Transport
  imports Rmq_Properties Producer Worker_Properties
begin

text \<open>
  The RabbitMQ backend as a provider of the contract \<open>at_least_once\<close> of \<open>Backend_Spec\<close>, and with it the
  core crate's producer and worker over it. \<open>copies\<close> of a body are the messages with that body the
  broker acked that are work, not dead letters. The state is that of the backend, or \<open>None\<close> when a call
  did not come back (the operations are totalised for the records of the core crate; the contract only
  speaks of calls that came back).
\<close>

section \<open>The backend as records of operations\<close>

definition total_call :: "('w, 'b, unit) io \<Rightarrow> ('w, 'b) rmq option \<Rightarrow> (core_error + unit) \<times> ('w, 'b) rmq option" where
  "total_call m so = (case so of None \<Rightarrow> (Inl ShutDown, None)
     | Some s \<Rightarrow> (case m s of None \<Rightarrow> (Inl ShutDown, None) | Some (r, s') \<Rightarrow> (r, Some s')))"

definition rabbitmq_backend :: "('w, 'b) lapin \<Rightarrow> rmq_options \<Rightarrow> (('w, 'b) rmq option, backend_error) backend_ops" where
  "rabbitmq_backend L opts = \<lparr>b_declare = (\<lambda>cfgs. total_call (rmq_declare L opts cfgs)),
     b_publish = (\<lambda>e dly. total_call (rmq_publish L opts e dly)),
     b_defer = (\<lambda>e dly. total_call (rmq_backend_defer L opts e dly)), b_close = total_call (rmq_close L)\<rparr>"

definition rabbitmq_delivery :: "('w, 'b) lapin \<Rightarrow> rmq_options
    \<Rightarrow> (rmq_delivery, ('w, 'b) rmq option, backend_error) delivery_ops" where
  "rabbitmq_delivery L opts = \<lparr>d_envelope = rd_envelope,
     d_ack = (\<lambda>d. total_call (rmq_ack L d)),
     d_dead_letter = (\<lambda>d r. total_call (rmq_dead_letter L opts d r)),
     d_retry = (\<lambda>d e t. total_call (rmq_retry L opts d e t)),
     d_defer = (\<lambda>d e t. total_call (rmq_defer L opts d e t))\<rparr>"

lemma rabbitmq_settle: "apply_settlement (rabbitmq_delivery L opts) st d = total_call (rmq_settle L opts st d)"
  by (cases st) (simp_all add: rabbitmq_delivery_def rmq_settle_def fun_eq_iff)

lemma total_call_back: "total_call m so = (r, Some t) \<longleftrightarrow> (\<exists>s. so = Some s \<and> m s = Some (r, t))"
  by (auto simp: total_call_def split: option.splits)

section \<open>What the broker is responsible for\<close>

text \<open>
  Copies are counted by their bytes, on whatever queue the broker took them: that it is the right queue, the
  job's own or its hold queue, is \<open>settled_only_after_publishing\<close> and the shapes of the log it rests on.
\<close>

definition is_work :: "'b \<Rightarrow> 'b rmq_event \<Rightarrow> bool" where
  "is_work k ev \<longleftrightarrow> (case accepted ev of None \<Rightarrow> False | Some (q, b, p) \<Rightarrow> b = k \<and> \<not> says_death_reason p)"

definition accepted_copies :: "('w, 'b) rmq option \<Rightarrow> 'b \<Rightarrow> nat" where
  "accepted_copies so k = (case so of None \<Rightarrow> 0 | Some s \<Rightarrow> length (filter (is_work k) (log s)))"

definition work :: "'b \<Rightarrow> 'b rmq_event list \<Rightarrow> nat" where
  "work k new = length (filter (is_work k) new)"

lemma accepted_copies_grow: "log t = log s @ new \<Longrightarrow>
    accepted_copies (Some t) k = accepted_copies (Some s) k + work k new"
  by (simp add: accepted_copies_def work_def)

lemma work_append [simp]: "work k (a @ b) = work k a + work k b"
  by (simp add: work_def)

lemma work_fruitless: "list_all fruitless new \<Longrightarrow> work k new = 0"
  by (induction new) (auto simp: work_def is_work_def)

lemma work_ends_accepted: "ends_accepted q body props new \<Longrightarrow>
    work k new = (if k = body \<and> \<not> says_death_reason props then 1 else 0)"
  unfolding ends_accepted_def using work_fruitless by (fastforce simp: work_def is_work_def)

lemma work_hold: "hold_of L opts cfgs e dly h new \<Longrightarrow> work k new = (if k = body_of L e then 1 else 0)"
  by (auto simp: hold_of_def hold_done_def Let_def dest!: work_ends_accepted [where k = k])

lemma work_settling_call [simp]: "work k [settling_call opts st d a] = 0"
  by (cases st) (auto simp: work_def is_work_def settling_call_def)

lemma work_published: "published_for L opts cfgs st d new \<Longrightarrow>
    work k new = count_list (map (body_of L) (successor st)) k"
proof (cases st)
  case (SDeadLetter r)
  assume "published_for L opts cfgs st d new"
  with SDeadLetter show ?thesis
    by (auto simp: work_def dest!: work_ends_accepted [where k = k] split: if_splits)
next
  case (SRetry e t)
  assume "published_for L opts cfgs st d new"
  with SRetry work_hold [of L opts cfgs e t HoldRetry new k] show ?thesis by simp
next
  case (SDefer e t)
  assume "published_for L opts cfgs st d new"
  with SDefer work_hold [of L opts cfgs e t HoldDeferral new k] show ?thesis by simp
qed (simp add: work_def)

lemma publish_work:
  assumes "rmq_publish L opts e dly s = Some (r, t)"
  shows "accepted_copies (Some t) k = accepted_copies (Some s) k
    + (if r = Inr () \<and> k = body_of L e then 1 else 0)"
proof (cases dly)
  case None
  then have "publish_envelope L opts e s = Some (r, t)" using assms by (simp add: rmq_publish_def)
  from runs_toD [OF publish_envelope_runs_to this] obtain new where "log t = log s @ new"
    "case r of Inl e \<Rightarrow> list_all fruitless new
     | Inr u \<Rightarrow> ends_accepted (queue e) (body_of L e) (props_for (l_show_uuid L) e) new" by blast
  then show ?thesis
    by (cases r) (auto simp: accepted_copies_grow work_fruitless dest!: work_ends_accepted [where k = k])
next
  case (Some d)
  then have "publish_held L opts e d HoldRetry s = Some (r, t)" using assms by (simp add: rmq_publish_def)
  from publish_held_published [OF this] show ?thesis
    by (cases r) (auto simp: accepted_copies_grow work_fruitless work_hold)
qed

lemma defer_work:
  assumes "rmq_backend_defer L opts e dly s = Some (r, t)"
  shows "accepted_copies (Some t) k = accepted_copies (Some s) k
    + (if r = Inr () \<and> k = body_of L e then 1 else 0)"
  using publish_held_published [OF assms [unfolded rmq_backend_defer_def]]
  by (cases r) (auto simp: accepted_copies_grow work_fruitless work_hold)

lemma settle_work:
  assumes "rmq_settle L opts st d s = Some (r, t)"
  shows "r = Inr () \<Longrightarrow> accepted_copies (Some t) k
      = accepted_copies (Some s) k + count_list (map (body_of L) (successor st)) k"
    and "accepted_copies (Some t) k
      \<le> accepted_copies (Some s) k + count_list (map (body_of L) (successor st)) k"
proof -
  obtain new where new: "log t = log s @ new" "settle_outcome L opts (configs s) st d r new"
    using rmq_settle_cases [OF assms] by blast
  then consider e where "r = Inl e" "work k new = 0"
    | "work k new = count_list (map (body_of L) (successor st)) k"
    unfolding settle_outcome_def using work_fruitless work_published by fastforce
  then have "(r = Inr () \<longrightarrow> work k new = count_list (map (body_of L) (successor st)) k)
      \<and> work k new \<le> count_list (map (body_of L) (successor st)) k"
    by cases auto
  then show "r = Inr () \<Longrightarrow> accepted_copies (Some t) k
      = accepted_copies (Some s) k + count_list (map (body_of L) (successor st)) k"
    and "accepted_copies (Some t) k
      \<le> accepted_copies (Some s) k + count_list (map (body_of L) (successor st)) k"
    using accepted_copies_grow [OF new(1), of k] by auto
qed

section \<open>The contract\<close>

interpretation rabbitmq: at_least_once "b_publish (rabbitmq_backend L opts)" "b_defer (rabbitmq_backend L opts)"
  "apply_settlement (rabbitmq_delivery L opts)" "\<lambda>so d. True" "\<lambda>so. so \<noteq> None" "body_of L" accepted_copies
  for L :: "('w, 'b) lapin" and opts
proof unfold_locales
  fix so so' :: "('w, 'b) rmq option" and e t x d st v
  assume "so' \<noteq> None"
  then obtain s' where s': "so' = Some s'" by blast
  show "b_publish (rabbitmq_backend L opts) e t so = (Inr (), so') \<Longrightarrow>
      accepted_copies so' x = accepted_copies so x + (if x = body_of L e then 1 else 0)"
    "b_publish (rabbitmq_backend L opts) e t so = (Inl r, so') \<Longrightarrow> accepted_copies so' x = accepted_copies so x"
    for r
    by (auto simp: rabbitmq_backend_def s' total_call_back dest!: publish_work [where k = x])
  show "b_defer (rabbitmq_backend L opts) e d so = (Inr (), so') \<Longrightarrow>
      accepted_copies so' x = accepted_copies so x + (if x = body_of L e then 1 else 0)"
    "b_defer (rabbitmq_backend L opts) e d so = (Inl r, so') \<Longrightarrow> accepted_copies so' x = accepted_copies so x"
    for r
    by (auto simp: rabbitmq_backend_def s' total_call_back dest!: defer_work [where k = x])
  show "apply_settlement (rabbitmq_delivery L opts) st v so = (Inr (), so') \<Longrightarrow>
      accepted_copies so' x = accepted_copies so x + count_list (map (body_of L) (successor st)) x"
    "apply_settlement (rabbitmq_delivery L opts) st v so = (Inl r, so') \<Longrightarrow>
      accepted_copies so' x \<le> accepted_copies so x + count_list (map (body_of L) (successor st)) x"
    for r
    by (auto simp: rabbitmq_settle s' total_call_back dest: settle_work [where k = x])
qed

text \<open>C34: enqueueing through RabbitMQ: when it returns an id, the broker has acked exactly one more message
  of work than before, its body is the bytes of the one envelope with that id, and of no other body has
  it acked any; when it fails, the broker is responsible for nothing it was not before.\<close>

theorem enqueue_is_confirmed_by_the_broker:
  "(case enqueue_with (rabbitmq_backend L opts) Q fresh now J job eo (Some s) of
      (Inr i, Some t) \<Rightarrow> (\<exists>v. to_value J job = Inr v \<and> i = fresh \<and>
        (\<lambda>x. accepted_copies (Some t) x) = (\<lambda>x. accepted_copies (Some s) x
           + (if x = body_of L (enqueued Q fresh now J v eo) then 1 else 0)))
    | (Inl r, Some t) \<Rightarrow> (\<lambda>x. accepted_copies (Some t) x) = (\<lambda>x. accepted_copies (Some s) x)
    | (_, None) \<Rightarrow> True)"
proof -
  obtain r so where e: "enqueue_with (rabbitmq_backend L opts) Q fresh now J job eo (Some s) = (r, so)"
    by (cases "enqueue_with (rabbitmq_backend L opts) Q fresh now J job eo (Some s)")
  show ?thesis
  proof (cases so)
    case None
    with e show ?thesis by (cases r) simp_all
  next
    case (Some t)
    show ?thesis
    proof (cases r)
      case (Inl z)
      have "accepted_copies (Some t) x = accepted_copies (Some s) x" for x
        by (rule rabbitmq.enqueue_err [OF refl refl _ e [unfolded Inl Some]]) simp
      with e Inl Some show ?thesis by (simp add: fun_eq_iff)
    next
      case (Inr i)
      from rabbitmq.enqueue_ok [OF refl refl _ e [unfolded Inr Some]]
      obtain v where "to_value J job = Inr v" "i = fresh" "\<forall>x. accepted_copies (Some t) x = accepted_copies (Some s) x
          + (if x = body_of L (enqueued Q fresh now J v eo) then 1 else 0)" by auto
      with e Inr Some show ?thesis by (simp add: fun_eq_iff)
    qed
  qed
qed

text \<open>C5: the worker over RabbitMQ keeps the at-least-once contract: when a dispatch finishes and its
  settlement was taken, the broker has acked exactly the successor the verdict names beside what it had
  before; when the settlement failed, at most that successor, in which case the delivery is still the
  broker's and the job may run again.\<close>

theorem processing_over_rabbitmq_is_at_least_once:
  assumes "process pf (rabbitmq_delivery L opts) handlers policies h timeout now d p = Done p'"
    and "bk p' = Some t"
  shows "\<exists>st c. verdict_of pf handlers policies timeout now (rd_envelope d) = Verdict st c
    \<and> accepted_copies (Some t) x \<le> accepted_copies (bk p) x + count_list (map (body_of L) (successor st)) x
    \<and> (if failures p' = failures p
       then accepted_copies (Some t) x = accepted_copies (bk p) x + count_list (map (body_of L) (successor st)) x
       else True)"
proof -
  have "d_envelope (rabbitmq_delivery L opts) d = rd_envelope d" by (simp add: rabbitmq_delivery_def)
  with assms(1) have "dispatch pf (rabbitmq_delivery L opts) handlers policies h timeout now d (rd_envelope d) p = Done p'"
    by (simp add: process_def)
  from rabbitmq.dispatch_copies [OF refl TrueI _ this, of x] assms(2) show ?thesis by auto
qed

text \<open>A worker over the example broker: a handler that defers its job.\<close>

definition example_proc :: "(nat, json) rmq option proc" where
  "example_proc = \<lparr>bk = Some example_state, failures = 0, hooked = []\<rparr>"

definition example_delivery :: rmq_delivery where
  "example_delivery = delivery_new (example_mail\<lparr>job_type := ''t''\<rparr>) 7"

lemma example_dispatch:
  "\<exists>p' t. process example_platform (rabbitmq_delivery (example_broker True) example_options) (only deferring)
      (\<lambda>_. None) None None 0 example_delivery example_proc = Done p' \<and> bk p' = Some t \<and> failures p' = 0"
proof -
  let ?D = "rabbitmq_delivery (example_broker True) example_options"
  let ?e = "example_mail\<lparr>job_type := ''t''\<rparr>"
  let ?n = "deferred ?e DEFAULT_MAX_PRIORITY"
  have q: "queue ?n = ''jobs''" by (simp add: deferred_def example_mail_def envelope_raw_def)
  obtain t where t: "rmq_settle (example_broker True) example_options (SDefer ?n (from_secs 30)) example_delivery
      example_state = Some (Inr (), t)"
    using example_hold [OF q example_ttl(1)] unfolding example_delivery_def by blast
  have d: "d_defer ?D example_delivery ?n (from_secs 30) (Some example_state) = (Inr (), Some t)"
    using t rabbitmq_settle [of "example_broker True" example_options "SDefer ?n (from_secs 30)" example_delivery]
    by (simp add: fun_eq_iff total_call_def)
  have "process example_platform ?D (only deferring) (\<lambda>_. None) None None 0 example_delivery example_proc
    = Done (settle (d_defer ?D example_delivery ?n (from_secs 30) (Some example_state)) example_proc)"
    by (simp add: process_def rabbitmq_delivery_def dispatch_def only_def example_delivery_def delivery_new_def
        example_mail_def envelope_raw_def erase_def run_job_def decode_def example_defs await_job_def
        job_declared_policy_def queue_config_new_def top_priority_def example_proc_def)
  then show ?thesis by (simp add: d settle_def example_proc_def)
qed

theorem processing_over_rabbitmq_is_at_least_once_witness:
  "\<exists>p' t st c. process example_platform (rabbitmq_delivery (example_broker True) example_options) (only deferring)
      (\<lambda>_. None) None None 0 example_delivery example_proc = Done p' \<and> bk p' = Some t
    \<and> verdict_of example_platform (only deferring) (\<lambda>_. None) None 0 (rd_envelope example_delivery) = Verdict st c
    \<and> accepted_copies (Some t) JNull = accepted_copies (bk example_proc) JNull
        + count_list (map (body_of (example_broker True)) (successor st)) JNull"
proof -
  obtain p' t where p': "process example_platform (rabbitmq_delivery (example_broker True) example_options)
      (only deferring) (\<lambda>_. None) None None 0 example_delivery example_proc = Done p'" "bk p' = Some t" "failures p' = 0"
    using example_dispatch by blast
  moreover have "failures example_proc = 0" by (simp add: example_proc_def)
  ultimately show ?thesis
    using processing_over_rabbitmq_is_at_least_once [OF p'(1,2), of JNull] by auto
qed

end
