(* ===== verification/Duration_Literal.thy ===== *)
theory Duration_Literal
  imports Durations
begin

text \<open>
  \<open>crates/macros/src/duration.rs\<close>: duration literals of the derive macros, resolved to whole
  milliseconds. Strings are lists of UTF-8 bytes; \<open>str::trim\<close> strips the characters with the Unicode
  property \<open>White_Space\<close>, listed by their encodings. Positions in the source of a literal are left out of
  errors.
\<close>

section \<open>Trimming\<close>

definition byte :: "nat \<Rightarrow> char" where
  "byte n = char_of n"

definition white_space :: "string list" where
  "white_space = map (map byte)
     ([[32], [9], [10], [11], [12], [13], [0xC2, 0x85], [0xC2, 0xA0], [0xE1, 0x9A, 0x80],
       [0xE2, 0x80, 0xA8], [0xE2, 0x80, 0xA9], [0xE2, 0x80, 0xAF], [0xE2, 0x81, 0x9F], [0xE3, 0x80, 0x80]]
      @ map (\<lambda>n. [0xE2, 0x80, n]) [0x80, 0x81, 0x82, 0x83, 0x84, 0x85, 0x86, 0x87, 0x88, 0x89, 0x8A])"

definition starts_with :: "string \<Rightarrow> string \<Rightarrow> bool" where
  "starts_with p s \<longleftrightarrow> take (length p) s = p"

definition ends_with :: "string \<Rightarrow> string \<Rightarrow> bool" where
  "ends_with p s \<longleftrightarrow> starts_with (rev p) (rev s)"

lemma white_space_nonempty: "w \<in> set white_space \<Longrightarrow> w \<noteq> []"
  by (auto simp: white_space_def)

function trim_start :: "string \<Rightarrow> string" where
  "trim_start s = (case find (\<lambda>w. starts_with w s) white_space of
       None \<Rightarrow> s
     | Some w \<Rightarrow> trim_start (drop (length w) s))"
  by pat_completeness auto
termination
proof (relation "measure length")
  fix s w
  assume "find (\<lambda>w. starts_with w s) white_space = Some w"
  then have "w \<in> set white_space" "starts_with w s" by (auto simp: find_Some_iff)
  then have "w \<noteq> []" "length w \<le> length s"
    using white_space_nonempty by (auto simp: starts_with_def) (metis length_take min.absorb_iff2 min.commute)
  then show "(drop (length w) s, s) \<in> measure length" by (cases w) auto
qed simp

function trim_end :: "string \<Rightarrow> string" where
  "trim_end s = (case find (\<lambda>w. ends_with w s) white_space of
       None \<Rightarrow> s
     | Some w \<Rightarrow> trim_end (take (length s - length w) s))"
  by pat_completeness auto
termination
proof (relation "measure length")
  fix s w
  assume "find (\<lambda>w. ends_with w s) white_space = Some w"
  then have "w \<in> set white_space" "ends_with w s" by (auto simp: find_Some_iff)
  then have "w \<noteq> []" "length w \<le> length s"
    using white_space_nonempty by (auto simp: starts_with_def ends_with_def)
      (metis length_rev length_take min.absorb_iff2 min.commute)
  then show "(take (length s - length w) s, s) \<in> measure length" by (cases w) auto
qed simp

declare trim_start.simps [simp del] trim_end.simps [simp del]

definition trim :: "string \<Rightarrow> string" where
  "trim s = trim_end (trim_start s)"

section \<open>Parsing\<close>

definition MILLIS_PER_SECOND :: u64 where "MILLIS_PER_SECOND = 1000"
definition MILLIS_PER_MINUTE :: u64 where "MILLIS_PER_MINUTE = 60 * MILLIS_PER_SECOND"
definition MILLIS_PER_HOUR :: u64 where "MILLIS_PER_HOUR = 60 * MILLIS_PER_MINUTE"
definition MILLIS_PER_DAY :: u64 where "MILLIS_PER_DAY = 24 * MILLIS_PER_HOUR"

definition dquote :: string where
  "dquote = [CHR 0x22]"

definition invalid_duration :: "string \<Rightarrow> string" where
  "invalid_duration input = ''invalid duration `'' @ input @ ''`: expected an integer with an optional unit ''
     @ ''(`ms`, `s`, `m`, `h`, `d`), for example '' @ dquote @ ''500ms'' @ dquote @ '', '' @ dquote @ ''30s'' @ dquote
     @ '' or '' @ dquote @ ''2m'' @ dquote"

definition out_of_range :: "string \<Rightarrow> string" where
  "out_of_range input = ''duration `'' @ input @ ''` does not fit in a `u64` number of milliseconds''"

definition zero_duration :: "string \<Rightarrow> string" where
  "zero_duration k = ''`'' @ k @ ''` must be greater than zero: ''
     @ (if k = ''message_ttl'' then ''a zero TTL discards every message the moment it is published''
        else ''express '' @ dquote @ ''no backoff'' @ dquote @ '' as `backoff = '' @ dquote @ ''none'' @ dquote
          @ ''` instead'')"

definition unit_factor :: "string \<Rightarrow> u64 option" where
  "unit_factor u = (if u = '''' \<or> u = ''s'' then Some MILLIS_PER_SECOND
     else if u = ''ms'' then Some 1
     else if u = ''m'' then Some MILLIS_PER_MINUTE
     else if u = ''h'' then Some MILLIS_PER_HOUR
     else if u = ''d'' then Some MILLIS_PER_DAY else None)"

text \<open>\<open>str::parse\<close> of a string of digits, exactly and as a \<open>u64\<close>; \<open>checked_mul\<close>.\<close>

definition digits_value :: "string \<Rightarrow> nat" where
  "digits_value ds = foldl (\<lambda>v c. 10 * v + (of_char c - 48)) 0 ds"

definition parse_u64 :: "string \<Rightarrow> u64 option" where
  "parse_u64 ds = (if digits_value ds < 2 ^ 64 then Some (of_nat (digits_value ds)) else None)"

definition checked_mul :: "u64 \<Rightarrow> u64 \<Rightarrow> u64 option" where
  "checked_mul a b = (if unat a * unat b < 2 ^ 64 then Some (a * b) else None)"

definition parse_millis :: "string \<Rightarrow> string + u64" where
  "parse_millis input =
     (let trimmed = trim input;
          digits = takeWhile ascii_digit trimmed;
          rest = dropWhile ascii_digit trimmed
      in if digits = [] then Inl (invalid_duration input)
         else case unit_factor (trim_start rest) of
             None \<Rightarrow> Inl (invalid_duration input)
           | Some factor \<Rightarrow> (case parse_u64 digits of
                 None \<Rightarrow> Inl (out_of_range input)
               | Some v \<Rightarrow> (case checked_mul v factor of
                     None \<Rightarrow> Inl (out_of_range input)
                   | Some ms \<Rightarrow> Inr ms)))"

definition parse_lit :: "string \<Rightarrow> string \<Rightarrow> string + u64" where
  "parse_lit lit k = (case parse_millis lit of
       Inl e \<Rightarrow> Inl e
     | Inr millis \<Rightarrow> (if millis = 0 then Inl (zero_duration k) else Inr millis))"

text \<open>What the generated expression \<open>Duration::from_millis(N)\<close> evaluates to.\<close>

definition duration_tokens :: "u64 \<Rightarrow> duration" where
  "duration_tokens millis = from_millis (unat millis)"

section \<open>Lemmas\<close>

lemma blank_first: "white_space = [CHR '' ''] # tl white_space"
proof -
  have "byte 32 = CHR '' ''" by code_simp
  then show ?thesis by (simp add: white_space_def)
qed

lemma trim_start_blank [simp]: "trim_start (CHR '' '' # s) = trim_start s"
proof -
  have "find (\<lambda>w. starts_with w (CHR '' '' # s)) white_space = Some [CHR '' '']"
    by (subst blank_first) (simp add: starts_with_def)
  then show ?thesis by (subst trim_start.simps) simp
qed

lemma trim_start_blanks [simp]: "trim_start (replicate n (CHR '' '') @ s) = trim_start s"
  by (induction n) auto

lemma trim_end_blank [simp]: "trim_end (s @ [CHR '' '']) = trim_end s"
proof -
  have "find (\<lambda>w. ends_with w (s @ [CHR '' ''])) white_space = Some [CHR '' '']"
    by (subst blank_first) (simp add: starts_with_def ends_with_def)
  then show ?thesis by (subst trim_end.simps) simp
qed

lemma trim_end_blanks [simp]: "trim_end (s @ replicate n (CHR '' '')) = trim_end s"
proof (induction n)
  case (Suc n)
  have "s @ replicate (Suc n) (CHR '' '') = (s @ replicate n (CHR '' '')) @ [CHR '' '']"
    by (simp add: replicate_append_same)
  with Suc trim_end_blank [of "s @ replicate n (CHR '' '')"] show ?case by simp
qed simp

text \<open>No white space starts or ends with a printable ASCII byte.\<close>

definition solid :: "char \<Rightarrow> bool" where
  "solid c \<longleftrightarrow> 32 < (of_char c :: nat) \<and> (of_char c :: nat) < 128"

lemma solid_white_space: "w \<in> set white_space \<Longrightarrow> \<not> solid (List.hd w) \<and> \<not> solid (List.last w)"
  by (auto simp: white_space_def solid_def byte_def of_char_of)

lemma trim_start_solid: "solid c \<Longrightarrow> trim_start (c # s) = c # s"
proof -
  assume c: "solid c"
  have "\<not> starts_with w (c # s)" if "w \<in> set white_space" for w
    using solid_white_space [OF that] white_space_nonempty [OF that] c by (cases w) (auto simp: starts_with_def)
  then have "find (\<lambda>w. starts_with w (c # s)) white_space = None" by (simp add: find_None_iff)
  then show ?thesis by (subst trim_start.simps) simp
qed

lemma trim_end_solid: "solid c \<Longrightarrow> trim_end (s @ [c]) = s @ [c]"
proof -
  assume c: "solid c"
  have "\<not> ends_with w (s @ [c])" if "w \<in> set white_space" for w
    using solid_white_space [OF that] white_space_nonempty [OF that] c
    by (cases w rule: rev_cases) (auto simp: starts_with_def ends_with_def)
  then have "find (\<lambda>w. ends_with w (s @ [c])) white_space = None" by (simp add: find_None_iff)
  then show ?thesis by (subst trim_end.simps) simp
qed

lemma digit_solid: "ascii_digit c \<Longrightarrow> solid c"
  by (auto simp: ascii_digit_def solid_def)

lemma digits_value_append: "digits_value (ds @ [c]) = 10 * digits_value ds + (of_char c - 48)"
  by (simp add: digits_value_def)

lemma digits_value_show_nat [simp]: "digits_value (show_nat n) = n"
proof (induction n rule: less_induct)
  case (less n)
  have d: "(of_char (digit_char k) :: nat) - 48 = k" if "k < 10" for k
    using that by (simp add: digit_char_def of_char_of)
  show ?case
  proof (cases "n < 10")
    case True
    then show ?thesis by (simp add: show_nat.simps [of n] digits_value_def d)
  next
    case False
    with less.IH [of "n div 10"] show ?thesis
      by (simp add: show_nat.simps [of n] digits_value_append d)
  qed
qed

lemma unat_u64: "n < 2 ^ 64 \<Longrightarrow> unat (of_nat n :: u64) = n"
  by (simp add: unsigned_of_nat take_bit_nat_eq_self)

lemma digits_split:
  assumes "\<And>c. c \<in> set ds \<Longrightarrow> ascii_digit c" "rest = [] \<or> \<not> ascii_digit (List.hd rest)"
  shows "takeWhile ascii_digit (ds @ rest) = ds \<and> dropWhile ascii_digit (ds @ rest) = rest"
  using assms by (cases rest) (auto simp: takeWhile_append dropWhile_append)

text \<open>The units and their letters.\<close>

lemma unit_cases: "unit_factor u = Some f \<Longrightarrow> u \<in> {'''', ''s'', ''ms'', ''m'', ''h'', ''d''}"
  by (auto simp: unit_factor_def split: if_splits)

lemma unit_letter: "unit_factor u = Some f \<Longrightarrow> c \<in> set u \<Longrightarrow> solid c \<and> \<not> ascii_digit c"
  by (auto dest!: unit_cases simp: solid_def ascii_digit_def)

lemma trim_literal:
  assumes "s \<noteq> []" "solid (List.hd s)" "solid (List.last s)"
  shows "trim (replicate i (CHR '' '') @ s @ replicate k (CHR '' '')) = s"
proof -
  obtain c s' where s: "s = c # s'" using assms(1) by (cases s) auto
  have "trim_start (s @ replicate k (CHR '' '')) = s @ replicate k (CHR '' '')"
    using trim_start_solid assms(2) by (simp add: s)
  moreover have "trim_end s = s" using trim_end_solid [OF assms(3), of "butlast s"] assms(1) by simp
  ultimately show ?thesis by (simp add: trim_def)
qed

lemma unit_read:
  assumes "unit_factor u = Some f"
  shows "parse_millis (replicate i (CHR '' '') @ show_nat n @ replicate j (CHR '' '') @ u @ replicate k (CHR '' ''))
    = (if n * unat f < 2 ^ 64 \<and> n < 2 ^ 64 then Inr (of_nat (n * unat f))
       else Inl (out_of_range (replicate i (CHR '' '') @ show_nat n @ replicate j (CHR '' '') @ u
         @ replicate k (CHR '' ''))))"
proof -
  let ?in = "replicate i (CHR '' '') @ show_nat n @ replicate j (CHR '' '') @ u @ replicate k (CHR '' '')"
  define gap where "gap = (if u = [] then [] else replicate j (CHR '' ''))"
  have digits: "\<And>c. c \<in> set (show_nat n) \<Longrightarrow> ascii_digit c" by (rule show_nat_digits)
  have "List.hd (show_nat n) \<in> set (show_nat n)" "List.last (show_nat n) \<in> set (show_nat n)" by simp_all
  then have ends: "solid (List.hd (show_nat n @ gap @ u))" "solid (List.last (show_nat n @ gap @ u))"
    using digits digit_solid unit_letter [OF assms, of "List.last u"]
    by (auto simp: gap_def hd_append last_append)
  have trimmed: "trim ?in = show_nat n @ gap @ u"
  proof (cases "u = []")
    case True
    then have "?in = replicate i (CHR '' '') @ show_nat n @ replicate (j + k) (CHR '' '')"
      by (simp add: replicate_add)
    with trim_literal [of "show_nat n @ gap @ u" i "j + k"] ends True show ?thesis by (simp add: gap_def)
  next
    case False
    with trim_literal [of "show_nat n @ gap @ u" i k] ends show ?thesis by (simp add: gap_def)
  qed
  have "gap @ u = [] \<or> \<not> ascii_digit (List.hd (gap @ u))"
    using unit_letter [OF assms, of "List.hd u"]
    by (cases j; cases u) (auto simp: gap_def ascii_digit_def)
  from digits_split [OF digits this] have
    split: "takeWhile ascii_digit (trim ?in) = show_nat n" "dropWhile ascii_digit (trim ?in) = gap @ u"
    using trimmed by simp_all
  have "trim_start u = u"
  proof (cases u)
    case Nil
    have "find (\<lambda>w. starts_with w []) white_space = None"
      using white_space_nonempty by (auto simp: find_None_iff starts_with_def)
    with Nil show ?thesis by (subst trim_start.simps) simp
  next
    case (Cons c u')
    with unit_letter [OF assms, of c] trim_start_solid show ?thesis by simp
  qed
  then have unit: "trim_start (gap @ u) = u" by (cases "u = []") (simp_all add: gap_def)
  have f: "0 < unat f" using assms
    by (auto simp: unit_factor_def MILLIS_PER_SECOND_def MILLIS_PER_MINUTE_def MILLIS_PER_HOUR_def
        MILLIS_PER_DAY_def split: if_splits)
  have read: "parse_u64 (show_nat n) = (if n < 2 ^ 64 then Some (of_nat n) else None)"
    by (simp add: parse_u64_def)
  have mul: "checked_mul (of_nat n) f = (if n * unat f < 2 ^ 64 then Some (of_nat (n * unat f)) else None)"
    if "n < 2 ^ 64"
    using that by (simp add: checked_mul_def unat_u64)
  show ?thesis
    unfolding parse_millis_def Let_def split unit assms option.case read
    using mul by (cases "n < 2 ^ 64") (simp_all add: show_nat_nonempty)
qed

text \<open>The units of the grammar and the milliseconds they stand for; no unit means seconds.\<close>

abbreviation unit_table :: "(string \<times> nat) list" where
  "unit_table \<equiv> [(''ms'', 1), (''s'', 1000), ('''', 1000), (''m'', 60000), (''h'', 3600000), (''d'', 86400000)]"

lemma unit_factor_units:
  "unit_factor u = Some g \<Longrightarrow> (u, unat g) \<in> set unit_table"
  "(u, f) \<in> set unit_table \<Longrightarrow> unit_factor u = Some (of_nat f)"
  by (auto simp: unit_factor_def MILLIS_PER_SECOND_def MILLIS_PER_MINUTE_def MILLIS_PER_HOUR_def
      MILLIS_PER_DAY_def split: if_splits)

lemma parse_millis_shape:
  assumes "parse_millis input = Inr ms"
  shows "takeWhile ascii_digit (trim input) \<noteq> []
    \<and> (\<exists>f. (trim_start (dropWhile ascii_digit (trim input)), f) \<in> set unit_table
        \<and> unat ms = digits_value (takeWhile ascii_digit (trim input)) * f)"
proof -
  obtain g v where g: "takeWhile ascii_digit (trim input) \<noteq> []"
    "unit_factor (trim_start (dropWhile ascii_digit (trim input))) = Some g"
    "parse_u64 (takeWhile ascii_digit (trim input)) = Some v" "checked_mul v g = Some ms"
    using assms by (auto simp: parse_millis_def Let_def split: if_splits option.splits)
  then have "unat v = digits_value (takeWhile ascii_digit (trim input))"
    by (auto simp: parse_u64_def unat_u64 split: if_splits)
  moreover have "unat ms = unat v * unat g"
    using g(4) by (auto simp: checked_mul_def unat_word_ariths split: if_splits)
  ultimately show ?thesis
    using g(1) unit_factor_units(1) [OF g(2)] by (intro conjI exI [of _ "unat g"]) simp_all
qed

text \<open>C39: the duration literals: a number in decimal with one of the units, with blanks around it and between
  the two, is read as exactly that many milliseconds when it fits a \<open>u64\<close> and is refused as out of range
  otherwise, never wrapped. And nothing else is accepted: what parses is, once trimmed, at least one digit and
  then, after white space, one of these units, and its value is that of the digits times the unit.\<close>

theorem duration_literal_read_exactly:
  assumes "(u, f) \<in> set [(''ms'', 1), (''s'', 1000), ('''', 1000), (''m'', 60000), (''h'', 3600000), (''d'', 86400000)]"
  shows "parse_millis (replicate i (CHR '' '') @ show_nat n @ replicate j (CHR '' '') @ u @ replicate k (CHR '' ''))
      = (if n * f < 2 ^ 64 then Inr (of_nat (n * f))
         else Inl (out_of_range (replicate i (CHR '' '') @ show_nat n @ replicate j (CHR '' '') @ u
           @ replicate k (CHR '' ''))))
    \<and> (parse_millis input = Inr ms \<longrightarrow> takeWhile ascii_digit (trim input) \<noteq> []
      \<and> (\<exists>f. (trim_start (dropWhile ascii_digit (trim input)), f) \<in> set unit_table
          \<and> unat ms = digits_value (takeWhile ascii_digit (trim input)) * f))"
proof -
  have f: "0 < f" "f < 2 ^ 64" using assms by auto
  then have g: "unat (of_nat f :: u64) = f" by (simp add: unat_u64)
  have "unit_factor u = Some (of_nat f)" by (rule unit_factor_units(2)) (use assms in simp)
  note unit_read [OF this, of i n j k, unfolded g]
  moreover have "n * f < 2 ^ 64 \<Longrightarrow> n < 2 ^ 64"
  proof -
    have "n * 1 \<le> n * f" using f(1) by (intro mult_le_mono2) simp
    then show "n * f < 2 ^ 64 \<Longrightarrow> n < 2 ^ 64" by linarith
  qed
  ultimately show ?thesis using parse_millis_shape [of input ms] by auto
qed

theorem duration_literal_read_exactly_witness:
  "parse_millis '' 2 m '' = Inr 120000
   \<and> parse_millis ''213503982335d'' = Inl (out_of_range ''213503982335d'')
   \<and> (\<exists>f. (trim_start (dropWhile ascii_digit (trim '' 2 m '')), f) \<in> set unit_table
        \<and> 120000 = digits_value (takeWhile ascii_digit (trim '' 2 m '')) * f)"
proof -
  have "digit_char 0 = CHR ''0''" "digit_char 1 = CHR ''1''" "digit_char 2 = CHR ''2''" "digit_char 3 = CHR ''3''"
    "digit_char 5 = CHR ''5''" "digit_char 8 = CHR ''8''" "digit_char 9 = CHR ''9''" by code_simp+
  then have n: "show_nat 2 = ''2''" "show_nat 213503982335 = ''213503982335''"
    by (simp_all add: show_nat.simps)
  have r: "replicate 1 (CHR '' '') = '' ''" "replicate 0 (CHR '' '') = ''''" by (simp_all add: numeral_eq_Suc)
  have two: "parse_millis '' 2 m '' = Inr 120000"
    using duration_literal_read_exactly [of "''m''" 60000 1 2 1 1] by (simp add: n r)
  have "unat (120000 :: u64) = 120000" by simp
  with two duration_literal_read_exactly [of "''m''" 60000 1 2 1 1 "'' 2 m ''" 120000]
  have "\<exists>f. (trim_start (dropWhile ascii_digit (trim '' 2 m '')), f) \<in> set unit_table
      \<and> 120000 = digits_value (takeWhile ascii_digit (trim '' 2 m '')) * f" by auto
  with two duration_literal_read_exactly [of "''d''" 86400000 0 213503982335 0 0]
  show ?thesis by (simp add: n r)
qed

end
