(* ===== verification/Macro_Attrs.thy ===== *)
theory Macro_Attrs
  imports Duration_Literal Retry
begin

text \<open>
  \<open>crates/macros/src/attrs.rs\<close>: the grammar the two derive macros share. What the \<open>syn\<close> crate has parsed is
  the input: an item of an attribute list is its key and what follows it. A leading minus sign belongs to
  the number (so \<open>-0\<close> is \<open>0\<close> here, where an unsigned key of the source refuses it). Spans only place the errors
  and are left out; an error \<open>syn\<close> itself raises is \<open>SynError\<close>.
\<close>

section \<open>What syn delivers\<close>

datatype lit =
    LStr string
  | LBool bool
  | LInt int
  | LFloat rat
  | LOther

record path =
  leading_colon :: bool
  segments :: "string list"

datatype meta_value =
    VLit lit
  | VPath path
  | VExpr
  | VList "(string \<times> meta_value) list"
  | VMissing

type_synonym meta = "string \<times> meta_value"

datatype macro_error = Message string | SynError

text \<open>\<open>meta.value()?.parse::<Lit>()\<close>.\<close>

definition value_lit :: "meta_value \<Rightarrow> macro_error + lit" where
  "value_lit v = (case v of VLit l \<Rightarrow> Inr l | _ \<Rightarrow> Inl SynError)"

section \<open>Keys and literals\<close>

definition set_once :: "'a option \<Rightarrow> string \<Rightarrow> 'a \<Rightarrow> macro_error + 'a option" where
  "set_once slot k v = (if slot \<noteq> None then Inl (Message (''duplicate key `'' @ k @ ''`'')) else Inr (Some v))"

definition reject_blank :: "string \<Rightarrow> string \<Rightarrow> macro_error + unit" where
  "reject_blank lit k =
     (if lit = [] then Inl (Message (''`'' @ k @ ''` must not be empty''))
      else if trim lit = [] then Inl (Message (''`'' @ k @ ''` must not be only whitespace''))
      else Inr ())"

definition lit_str :: "meta \<Rightarrow> macro_error + string" where
  "lit_str m = bind_res (value_lit (snd m)) (\<lambda>l. case l of
       LStr s \<Rightarrow> Inr s
     | _ \<Rightarrow> Inl (Message (''`'' @ fst m @ ''` must be a string literal'')))"

definition lit_bool :: "meta \<Rightarrow> macro_error + bool" where
  "lit_bool m = bind_res (value_lit (snd m)) (\<lambda>l. case l of
       LBool b \<Rightarrow> Inr b
     | _ \<Rightarrow> Inl (Message (''`'' @ fst m @ ''` must be `true` or `false`'')))"

definition lit_int :: "meta \<Rightarrow> string \<Rightarrow> macro_error + 'w::len word" where
  "lit_int m rng = bind_res (value_lit (snd m)) (\<lambda>l. case l of
       LInt n \<Rightarrow> (if 0 \<le> n \<and> n < 2 ^ LENGTH('w) then Inr (of_int n)
         else Inl (Message (''`'' @ fst m @ ''` must be an integer '' @ rng)))
     | _ \<Rightarrow> Inl (Message (''`'' @ fst m @ ''` must be an integer '' @ rng)))"

definition float_error :: "string \<Rightarrow> macro_error" where
  "float_error k = Message (''`'' @ k @ ''` must be a floating point literal'')"

definition lit_f64 :: "meta \<Rightarrow> macro_error + f64" where
  "lit_f64 m = (case snd m of
       VLit (LFloat x) \<Rightarrow> Inr (round_f64 x)
     | VLit (LInt n) \<Rightarrow> Inr (round_f64 (of_int n))
     | VLit l \<Rightarrow> Inl (float_error (fst m))
     | VPath p \<Rightarrow> Inl (float_error (fst m))
     | VExpr \<Rightarrow> Inl (float_error (fst m))
     | VList ms \<Rightarrow> Inl SynError
     | VMissing \<Rightarrow> Inl SynError)"

definition MAX_MESSAGE_TTL_MS :: u64 where "MAX_MESSAGE_TTL_MS = 2 ^ 32 - 1"

definition MESSAGE_TTL_RANGE :: string where
  "MESSAGE_TTL_RANGE = ''between '' @ dquote @ ''1ms'' @ dquote @ '' and '' @ dquote @ ''4294967295ms'' @ dquote
     @ '' (~49.7 days)''"

definition PREFETCH_RANGE :: string where "PREFETCH_RANGE = ''between 1 and 65535''"
definition MAX_PRIORITY_RANGE :: string where "MAX_PRIORITY_RANGE = ''in 0..=255''"
definition MAX_ATTEMPTS_RANGE :: string where "MAX_ATTEMPTS_RANGE = ''between 1 and 4294967295''"

section \<open>The path to the core crate\<close>

text \<open>The parser of paths is \<open>syn\<close>'s and is an argument.\<close>

type_synonym path_parser = "string \<Rightarrow> path option"

definition parse_crate_path :: "path_parser \<Rightarrow> string \<Rightarrow> macro_error + path" where
  "parse_crate_path parse lit = (case parse lit of
       None \<Rightarrow> Inl (Message (''`'' @ lit @ ''` is not a valid module path''))
     | Some p \<Rightarrow>
         (let relative = (case segments p of [] \<Rightarrow> False | s # _ \<Rightarrow> s \<in> {''crate'', ''self'', ''super''})
          in Inr (if \<not> leading_colon p \<and> \<not> relative then p\<lparr>leading_colon := True\<rparr> else p)))"

definition FACADE_PACKAGE :: string where "FACADE_PACKAGE = ''queuey''"
definition CORE_PACKAGE :: string where "CORE_PACKAGE = ''queuey-core''"

datatype lookup = Itself | Named string | Absent | NoManifest

fun choose_crate_path :: "lookup \<Rightarrow> lookup \<Rightarrow> string option" where
  "choose_crate_path Itself core = Some (''::'' @ FACADE_PACKAGE @ ''::__core'')"
| "choose_crate_path facade Itself = Some ''crate''"
| "choose_crate_path facade (Named n) = Some (''::'' @ n)"
| "choose_crate_path (Named n) core = Some (''::'' @ n @ ''::__core'')"
| "choose_crate_path NoManifest core = Some ''::queuey_core''"
| "choose_crate_path facade NoManifest = Some ''::queuey_core''"
| "choose_crate_path Absent Absent = None"

text \<open>The manifest is the environment's: what the two packages look up to.\<close>

record macro_env =
  me_facade :: lookup
  me_core :: lookup
  me_parse_path :: path_parser

definition default_crate_path :: "macro_env \<Rightarrow> string \<Rightarrow> macro_error + path" where
  "default_crate_path env attr = (case choose_crate_path (me_facade env) (me_core env) of
       None \<Rightarrow> Inl (Message (''cannot find `'' @ FACADE_PACKAGE @ ''` or `'' @ CORE_PACKAGE
         @ ''` in the dependencies of this crate; add one of them, or name the core crate explicitly with `#[''
         @ attr @ ''(crate = '' @ dquote @ ''...'' @ dquote @ '')]`''))
     | Some chosen \<Rightarrow> (case me_parse_path env chosen of
           None \<Rightarrow> Inl (Message (''`'' @ chosen @ ''` is not a usable path to `'' @ CORE_PACKAGE
             @ ''`; name it explicitly with `#['' @ attr @ ''(crate = '' @ dquote @ ''...'' @ dquote @ '')]`''))
         | Some p \<Rightarrow> Inr p))"

section \<open>The retry list\<close>

definition DEFAULT_MAX_ATTEMPTS :: u32 where "DEFAULT_MAX_ATTEMPTS = 3"
definition DEFAULT_EXP_BASE_MS :: u64 where "DEFAULT_EXP_BASE_MS = 1000"
definition DEFAULT_EXP_FACTOR :: f64 where "DEFAULT_EXP_FACTOR = Fin 2"
definition DEFAULT_EXP_MAX_MS :: u64 where "DEFAULT_EXP_MAX_MS = 300000"
definition DEFAULT_EXP_JITTER :: bool where "DEFAULT_EXP_JITTER = True"

datatype backoff_spec =
    SpecNone
  | SpecFixed u64
  | SpecExponential u64 f64 u64 bool

record retry_spec =
  rs_max_attempts :: u32
  rs_backoff :: backoff_spec

text \<open>\<open>RetrySpec::to_tokens\<close>: the policy the generated expression evaluates to.\<close>

definition retry_tokens :: "retry_spec \<Rightarrow> retry_policy" where
  "retry_tokens spec = policy_new (rs_max_attempts spec) (case rs_backoff spec of
       SpecNone \<Rightarrow> BackoffNone
     | SpecFixed ms \<Rightarrow> Fixed (duration_tokens ms)
     | SpecExponential b f m j \<Rightarrow> exponential_with (duration_tokens b) f (duration_tokens m) j)"

record retry_raw =
  raw_max_attempts :: "u32 option"
  raw_backoff :: "string option"
  raw_delay :: "u64 option"
  raw_base :: "u64 option"
  raw_factor :: "f64 option"
  raw_max :: "u64 option"
  raw_jitter :: "bool option"

definition raw_default :: retry_raw where
  "raw_default = \<lparr>raw_max_attempts = None, raw_backoff = None, raw_delay = None, raw_base = None,
     raw_factor = None, raw_max = None, raw_jitter = None\<rparr>"

definition parse_duration_lit :: "meta \<Rightarrow> string \<Rightarrow> macro_error + u64" where
  "parse_duration_lit m k = bind_res (lit_str m) (\<lambda>s. case parse_lit s k of
       Inl e \<Rightarrow> Inl (Message e) | Inr ms \<Rightarrow> Inr ms)"

definition retry_item :: "meta \<Rightarrow> retry_raw \<Rightarrow> macro_error + retry_raw" where
  "retry_item m raw =
     (if fst m = ''max_attempts'' then bind_res (lit_int m MAX_ATTEMPTS_RANGE) (\<lambda>v.
        bind_res (set_once (raw_max_attempts raw) (fst m) v) (\<lambda>x. Inr (raw\<lparr>raw_max_attempts := x\<rparr>)))
      else if fst m = ''backoff'' then bind_res (lit_str m) (\<lambda>v.
        bind_res (set_once (raw_backoff raw) (fst m) v) (\<lambda>x. Inr (raw\<lparr>raw_backoff := x\<rparr>)))
      else if fst m = ''delay'' then bind_res (parse_duration_lit m ''delay'') (\<lambda>v.
        bind_res (set_once (raw_delay raw) (fst m) v) (\<lambda>x. Inr (raw\<lparr>raw_delay := x\<rparr>)))
      else if fst m = ''base'' then bind_res (parse_duration_lit m ''base'') (\<lambda>v.
        bind_res (set_once (raw_base raw) (fst m) v) (\<lambda>x. Inr (raw\<lparr>raw_base := x\<rparr>)))
      else if fst m = ''factor'' then bind_res (lit_f64 m) (\<lambda>v.
        bind_res (set_once (raw_factor raw) (fst m) v) (\<lambda>x. Inr (raw\<lparr>raw_factor := x\<rparr>)))
      else if fst m = ''max'' then bind_res (parse_duration_lit m ''max'') (\<lambda>v.
        bind_res (set_once (raw_max raw) (fst m) v) (\<lambda>x. Inr (raw\<lparr>raw_max := x\<rparr>)))
      else if fst m = ''jitter'' then bind_res (lit_bool m) (\<lambda>v.
        bind_res (set_once (raw_jitter raw) (fst m) v) (\<lambda>x. Inr (raw\<lparr>raw_jitter := x\<rparr>)))
      else Inl (Message (''unknown key `'' @ fst m @ ''` in `retry(...)`, expected one of `max_attempts`, ''
        @ ''`backoff`, `delay`, `base`, `factor`, `max`, `jitter`'')))"

fun fold_items :: "('m \<Rightarrow> 'a \<Rightarrow> macro_error + 'a) \<Rightarrow> 'm list \<Rightarrow> 'a \<Rightarrow> macro_error + 'a" where
  "fold_items step [] x = Inr x"
| "fold_items step (m # ms) x = bind_res (step m x) (fold_items step ms)"

definition reject :: "'a option \<Rightarrow> string \<Rightarrow> string \<Rightarrow> macro_error + unit" where
  "reject slot k required_kind = (if slot \<noteq> None
     then Inl (Message (''`'' @ k @ ''` is only valid with `backoff = '' @ dquote @ required_kind @ dquote @ ''`''))
     else Inr ())"

definition finish_max_attempts :: "retry_raw \<Rightarrow> macro_error + u32" where
  "finish_max_attempts raw = (case raw_max_attempts raw of
       Some n \<Rightarrow> (if n = 0 then Inl (Message ''`max_attempts` must be >= 1; 1 means no retries'') else Inr n)
     | None \<Rightarrow> Inr DEFAULT_MAX_ATTEMPTS)"

definition finish_fixed :: "retry_raw \<Rightarrow> macro_error + backoff_spec" where
  "finish_fixed raw =
     bind_res (reject (raw_base raw) ''base'' ''exponential'') (\<lambda>_.
     bind_res (reject (raw_factor raw) ''factor'' ''exponential'') (\<lambda>_.
     bind_res (reject (raw_max raw) ''max'' ''exponential'') (\<lambda>_.
     bind_res (reject (raw_jitter raw) ''jitter'' ''exponential'') (\<lambda>_.
     case raw_delay raw of
       None \<Rightarrow> Inl (Message (''`backoff = '' @ dquote @ ''fixed'' @ dquote @ ''` requires `delay = '' @ dquote
         @ ''...'' @ dquote @ ''`''))
     | Some ms \<Rightarrow> Inr (SpecFixed ms)))))"

definition finish_factor :: "retry_raw \<Rightarrow> macro_error + f64" where
  "finish_factor raw = (case raw_factor raw of
       Some f \<Rightarrow> (if fle f (Fin 0) \<or> \<not> is_finite f
         then Inl (Message ''`factor` must be a finite number greater than 0'') else Inr f)
     | None \<Rightarrow> Inr DEFAULT_EXP_FACTOR)"

definition map_or :: "'a \<Rightarrow> 'a option \<Rightarrow> 'a" where
  "map_or d x = (case x of None \<Rightarrow> d | Some v \<Rightarrow> v)"

definition finish_exponential :: "retry_raw \<Rightarrow> macro_error + backoff_spec" where
  "finish_exponential raw =
     bind_res (reject (raw_delay raw) ''delay'' ''fixed'') (\<lambda>_.
     bind_res (finish_factor raw) (\<lambda>f.
       let b = map_or DEFAULT_EXP_BASE_MS (raw_base raw);
           m = map_or DEFAULT_EXP_MAX_MS (raw_max raw)
       in if m < b then Inl (Message ''`base` must be <= `max`'')
          else Inr (SpecExponential b f m (map_or DEFAULT_EXP_JITTER (raw_jitter raw)))))"

definition finish_none :: "retry_raw \<Rightarrow> macro_error + backoff_spec" where
  "finish_none raw =
     bind_res (reject (raw_delay raw) ''delay'' ''fixed'') (\<lambda>_.
     bind_res (reject (raw_base raw) ''base'' ''exponential'') (\<lambda>_.
     bind_res (reject (raw_factor raw) ''factor'' ''exponential'') (\<lambda>_.
     bind_res (reject (raw_max raw) ''max'' ''exponential'') (\<lambda>_.
     bind_res (reject (raw_jitter raw) ''jitter'' ''exponential'') (\<lambda>_. Inr SpecNone)))))"

definition finish_backoff :: "retry_raw \<Rightarrow> macro_error + backoff_spec" where
  "finish_backoff raw =
     (let kind = map_or ''exponential'' (raw_backoff raw)
      in if kind = ''none'' then finish_none raw
         else if kind = ''fixed'' then finish_fixed raw
         else if kind = ''exponential'' then finish_exponential raw
         else Inl (Message (''unknown backoff `'' @ kind @ ''`, expected '' @ dquote @ ''none'' @ dquote @ '', ''
           @ dquote @ ''fixed'' @ dquote @ '' or '' @ dquote @ ''exponential'' @ dquote)))"

definition finish :: "retry_raw \<Rightarrow> macro_error + retry_spec" where
  "finish raw = bind_res (finish_max_attempts raw) (\<lambda>n. bind_res (finish_backoff raw) (\<lambda>b.
     Inr \<lparr>rs_max_attempts = n, rs_backoff = b\<rparr>))"

definition parse_retry :: "meta \<Rightarrow> macro_error + retry_spec" where
  "parse_retry m = (case snd m of
       VList ms \<Rightarrow> bind_res (fold_items retry_item ms raw_default) finish
     | _ \<Rightarrow> Inl SynError)"

section \<open>What an accepted list guarantees\<close>

text \<open>A retry policy that makes sense: at least one attempt, delays that are positive, a base no longer
  than the cap and a factor that is a positive number.\<close>

definition sensible_backoff :: "backoff \<Rightarrow> bool" where
  "sensible_backoff b = (case b of
       BackoffNone \<Rightarrow> True
     | Fixed d \<Rightarrow> 0 < d
     | Exponential b f m j \<Rightarrow> 0 < b \<and> b \<le> m \<and> is_finite f \<and> flt (Fin 0) f)"

definition sensible_policy :: "retry_policy \<Rightarrow> bool" where
  "sensible_policy p \<longleftrightarrow> 0 < max_attempts p \<and> sensible_backoff (backoff p)"

text \<open>What parsing keeps of the raw keys.\<close>

definition positive_durations :: "retry_raw \<Rightarrow> bool" where
  "positive_durations raw \<longleftrightarrow> (\<forall>ms. raw_delay raw = Some ms \<or> raw_base raw = Some ms \<or> raw_max raw = Some ms \<longrightarrow> 0 < ms)"

lemma set_once_Some: "set_once slot k v = Inr x \<longleftrightarrow> slot = None \<and> x = Some v"
  by (auto simp: set_once_def)

lemma parse_duration_lit_pos: "parse_duration_lit m k = Inr ms \<Longrightarrow> 0 < ms"
  by (auto simp: parse_duration_lit_def parse_lit_def bind_res_Inr_iff word_gt_0 split: sum.splits if_splits)

lemma retry_item_positive:
  "retry_item m raw = Inr raw' \<Longrightarrow> positive_durations raw \<Longrightarrow> positive_durations raw'"
  unfolding retry_item_def positive_durations_def
  by (auto simp: bind_res_Inr_iff set_once_Some dest: parse_duration_lit_pos split: if_splits)

lemma fold_items_induct:
  "fold_items step ms x = Inr y \<Longrightarrow> P x \<Longrightarrow> (\<And>m a b. m \<in> set ms \<Longrightarrow> step m a = Inr b \<Longrightarrow> P a \<Longrightarrow> P b) \<Longrightarrow> P y"
  by (induction ms arbitrary: x) (auto simp: bind_res_Inr_iff)

lemma reject_None [simp]: "reject None k kind = Inr ()"
  by (simp add: reject_def)

lemma reject_ok [simp]: "reject slot k kind = Inr u \<longleftrightarrow> slot = None"
  by (auto simp: reject_def)

lemma millis_tokens: "duration_tokens a \<le> duration_tokens b \<longleftrightarrow> a \<le> b" "0 < duration_tokens a \<longleftrightarrow> 0 < a"
  by (simp_all add: duration_tokens_def from_millis_def nanos_per_milli_def word_le_nat_alt word_less_nat_alt)

lemma fle_flt_zero: "is_finite f \<Longrightarrow> \<not> fle f (Fin 0) \<longleftrightarrow> flt (Fin 0) f"
  by (cases f) (auto simp: is_finite_def)

lemma finish_sensible:
  assumes "finish raw = Inr spec" "positive_durations raw"
  shows "sensible_policy (retry_tokens spec)"
proof -
  from assms(1) obtain n b where n: "finish_max_attempts raw = Inr n" and b: "finish_backoff raw = Inr b"
    and spec: "spec = \<lparr>rs_max_attempts = n, rs_backoff = b\<rparr>"
    by (auto simp: finish_def bind_res_Inr_iff)
  from n have "0 < n"
    by (auto simp: finish_max_attempts_def DEFAULT_MAX_ATTEMPTS_def word_gt_0 split: option.splits if_splits)
  moreover have "sensible_backoff (backoff (retry_tokens spec))"
  proof (cases b)
    case (SpecFixed ms)
    with b assms(2) have "0 < ms"
      by (auto simp: finish_backoff_def Let_def finish_none_def finish_fixed_def finish_exponential_def
          bind_res_Inr_iff positive_durations_def split: if_splits option.splits)
    with SpecFixed spec show ?thesis
      by (simp add: retry_tokens_def policy_new_def sensible_backoff_def millis_tokens)
  next
    case (SpecExponential bs f m j)
    with b have e: "finish_exponential raw = Inr b"
      by (auto simp: finish_backoff_def Let_def finish_none_def finish_fixed_def bind_res_Inr_iff
          split: if_splits option.splits)
    with SpecExponential have le: "bs \<le> m" and bs: "bs = map_or DEFAULT_EXP_BASE_MS (raw_base raw)"
      and f: "finish_factor raw = Inr f"
      by (auto simp: finish_exponential_def bind_res_Inr_iff Let_def split: if_splits)
    have "0 < bs" using assms(2)
      by (auto simp: bs map_or_def positive_durations_def DEFAULT_EXP_BASE_MS_def split: option.split)
    moreover have "is_finite f \<and> flt (Fin 0) f"
      using f fle_flt_zero
      by (auto simp: finish_factor_def DEFAULT_EXP_FACTOR_def is_finite_def split: option.splits if_splits)
    ultimately show ?thesis
      using SpecExponential spec le
      by (simp add: retry_tokens_def policy_new_def exponential_with_def sensible_backoff_def millis_tokens)
  qed (use spec in \<open>simp add: retry_tokens_def policy_new_def sensible_backoff_def\<close>)
  ultimately show ?thesis
    by (simp add: sensible_policy_def spec retry_tokens_def policy_new_def)
qed

lemma parse_retry_sensible: "parse_retry m = Inr spec \<Longrightarrow> sensible_policy (retry_tokens spec)"
proof -
  assume "parse_retry m = Inr spec"
  then obtain ms raw where raw: "fold_items retry_item ms raw_default = Inr raw" "finish raw = Inr spec"
    by (auto simp: parse_retry_def bind_res_Inr_iff split: meta_value.splits)
  have "positive_durations raw_default" by (simp add: positive_durations_def raw_default_def)
  with fold_items_induct [OF raw(1), of positive_durations] retry_item_positive
  have "positive_durations raw" by blast
  with finish_sensible [OF raw(2)] show ?thesis by blast
qed

section \<open>Keys are written once\<close>

text \<open>The contract of the handlers of keys: an accepted key was not written before and is recorded, and no
  other is. A list that is accepted then has no key twice.\<close>

locale keyed_items =
  fixes step :: "meta \<Rightarrow> 'a \<Rightarrow> macro_error + 'a" and written :: "'a \<Rightarrow> string set"
  assumes step_records: "step m x = Inr y \<Longrightarrow> fst m \<notin> written x \<and> written y = insert (fst m) (written x)"
begin

lemma fold_records: "fold_items step ms x = Inr y \<Longrightarrow>
    distinct (map fst ms) \<and> fst ` set ms \<inter> written x = {} \<and> written y = written x \<union> fst ` set ms"
proof (induction ms arbitrary: x)
  case (Cons m ms)
  then obtain z where z: "step m x = Inr z" "fold_items step ms z = Inr y" by (auto simp: bind_res_Inr_iff)
  from Cons.IH [OF z(2)] step_records [OF z(1)] show ?case by auto
qed simp

lemma repeated_key: "\<not> distinct (map fst ms) \<Longrightarrow> \<exists>e. fold_items step ms x = Inl e"
  using fold_records by (cases "fold_items step ms x") auto

end

lemma record_key: "bind_res r (\<lambda>v. bind_res (set_once slot k v) (\<lambda>x. Inr (upd x))) = Inr y
    \<longleftrightarrow> (\<exists>v. r = Inr v \<and> slot = None \<and> y = upd (Some v))"
  by (auto simp: bind_res_Inr_iff set_once_Some)

definition retry_written :: "retry_raw \<Rightarrow> string set" where
  "retry_written raw = {k. if k = ''max_attempts'' then raw_max_attempts raw \<noteq> None
     else if k = ''backoff'' then raw_backoff raw \<noteq> None
     else if k = ''delay'' then raw_delay raw \<noteq> None
     else if k = ''base'' then raw_base raw \<noteq> None
     else if k = ''factor'' then raw_factor raw \<noteq> None
     else if k = ''max'' then raw_max raw \<noteq> None
     else k = ''jitter'' \<and> raw_jitter raw \<noteq> None}"

lemma retry_item_cases: "retry_item m raw = Inr raw' \<Longrightarrow>
    (\<exists>v. fst m = ''max_attempts'' \<and> raw_max_attempts raw = None \<and> raw' = raw\<lparr>raw_max_attempts := Some v\<rparr>)
  \<or> (\<exists>v. fst m = ''backoff'' \<and> raw_backoff raw = None \<and> raw' = raw\<lparr>raw_backoff := Some v\<rparr>)
  \<or> (\<exists>v. fst m = ''delay'' \<and> raw_delay raw = None \<and> raw' = raw\<lparr>raw_delay := Some v\<rparr>)
  \<or> (\<exists>v. fst m = ''base'' \<and> raw_base raw = None \<and> raw' = raw\<lparr>raw_base := Some v\<rparr>)
  \<or> (\<exists>v. fst m = ''factor'' \<and> raw_factor raw = None \<and> raw' = raw\<lparr>raw_factor := Some v\<rparr>)
  \<or> (\<exists>v. fst m = ''max'' \<and> raw_max raw = None \<and> raw' = raw\<lparr>raw_max := Some v\<rparr>)
  \<or> (\<exists>v. fst m = ''jitter'' \<and> raw_jitter raw = None \<and> raw' = raw\<lparr>raw_jitter := Some v\<rparr>)"
  unfolding retry_item_def by (simp add: record_key split: if_split_asm) auto

interpretation retry_keys: keyed_items retry_item retry_written
proof
  fix m raw raw'
  assume "retry_item m raw = Inr raw'"
  from retry_item_cases [OF this]
  show "fst m \<notin> retry_written raw \<and> retry_written raw' = insert (fst m) (retry_written raw)"
    by (elim disjE exE conjE) (simp_all add: retry_written_def set_eq_iff)
qed

lemma parse_retry_keys: "parse_retry (k, VList ms) = Inr spec \<Longrightarrow> distinct (map fst ms)
    \<and> fst ` set ms \<subseteq> {''max_attempts'', ''backoff'', ''delay'', ''base'', ''factor'', ''max'', ''jitter''}"
proof -
  assume "parse_retry (k, VList ms) = Inr spec"
  then obtain raw where raw: "fold_items retry_item ms raw_default = Inr raw"
    by (auto simp: parse_retry_def bind_res_Inr_iff)
  from retry_keys.fold_records [OF raw] have "distinct (map fst ms)" "fst ` set ms \<subseteq> retry_written raw" by auto
  moreover have "retry_written raw \<subseteq> {''max_attempts'', ''backoff'', ''delay'', ''base'', ''factor'', ''max'', ''jitter''}"
    by (auto simp: retry_written_def split: if_splits)
  ultimately show ?thesis by blast
qed

text \<open>What an accepted list means: the policy it generates, read off the keys that were written, with the
  defaults of the grammar.\<close>

lemma empty_retry_list: "parse_retry (k, VList []) = Inr \<lparr>rs_max_attempts = 3, rs_backoff = SpecExponential 1000 (Fin 2) 300000 True\<rparr>"
  by (simp add: parse_retry_def finish_def finish_max_attempts_def finish_backoff_def finish_exponential_def
      finish_factor_def map_or_def raw_default_def DEFAULT_MAX_ATTEMPTS_def DEFAULT_EXP_BASE_MS_def
      DEFAULT_EXP_FACTOR_def DEFAULT_EXP_MAX_MS_def DEFAULT_EXP_JITTER_def)

text \<open>C21: a retry list the macros accept generates a policy that makes sense (at least one attempt, positive
  delays, a base no longer than its cap, a finite positive factor), in which each key was written at
  most once and is a key of the grammar; and the empty list generates the documented default, which is
  the core crate's exponential policy of three attempts.\<close>

theorem retry_list_is_sensible:
  "(parse_retry (k, VList ms) = Inr spec \<longrightarrow> sensible_policy (retry_tokens spec) \<and> distinct (map fst ms)
      \<and> fst ` set ms \<subseteq> {''max_attempts'', ''backoff'', ''delay'', ''base'', ''factor'', ''max'', ''jitter''})
   \<and> (\<exists>d. parse_retry (k, VList []) = Inr d \<and> retry_tokens d = policy_exponential 3)"
  using parse_retry_keys [of k ms spec] parse_retry_sensible [of "(k, VList ms)" spec]
  by (auto simp: empty_retry_list retry_tokens_def policy_exponential_def policy_new_def exponential_def
      exponential_with_def duration_tokens_def from_millis_def from_secs_def nanos_per_milli_def nanos_per_sec_def)

theorem retry_list_is_sensible_witness:
  "sensible_policy (retry_tokens \<lparr>rs_max_attempts = 5, rs_backoff = SpecNone\<rparr>)"
proof -
  have "parse_retry (''retry'', VList [(''max_attempts'', VLit (LInt 5)), (''backoff'', VLit (LStr ''none''))])
      = Inr \<lparr>rs_max_attempts = 5, rs_backoff = SpecNone\<rparr>"
    by (simp add: parse_retry_def retry_item_def lit_int_def lit_str_def value_lit_def set_once_def raw_default_def
        finish_def finish_max_attempts_def finish_backoff_def finish_none_def map_or_def)
  with retry_list_is_sensible show ?thesis by blast
qed

end
