(* ===== verification/Queues_Derive.thy ===== *)
theory Queues_Derive
  imports Macro_Attrs Topology
begin

text \<open>
  \<open>crates/macros/src/queues.rs\<close>: \<open>#[derive(Queues)]\<close>, from the item \<open>syn\<close> has parsed to the queue set the
  generated implementation is. A value of the enum is the identifier of its variant. Identifiers are ASCII
  (\<open>snake_case\<close> classifies and lowers letters of that range). The implementation is lawful: the locale
  \<open>queue_set_laws\<close> is interpreted on it.
\<close>

section \<open>The item\<close>

datatype attr_body = AttrPath | AttrList "meta list" | AttrValue

record attribute =
  at_name :: string
  at_body :: attr_body

record variant =
  v_ident :: string
  v_unit :: bool
  v_attrs :: "attribute list"

text \<open>\<open>di_variants\<close> is \<open>None\<close> for a struct or a union.\<close>

record derive_input =
  di_ident :: string
  di_variants :: "variant list option"
  di_generic :: bool
  di_attrs :: "attribute list"

section \<open>Attributes\<close>

record container_attr =
  ca_prefix :: "string option"
  ca_core :: "path option"

definition container_default :: container_attr where
  "container_default = \<lparr>ca_prefix = None, ca_core = None\<rparr>"

definition queues_core_path :: "macro_env \<Rightarrow> container_attr \<Rightarrow> macro_error + path" where
  "queues_core_path env c = (case ca_core c of Some p \<Rightarrow> Inr p | None \<Rightarrow> default_crate_path env ''queues'')"

definition qualify :: "container_attr \<Rightarrow> string \<Rightarrow> string" where
  "qualify c n = (case ca_prefix c of Some p \<Rightarrow> p @ ''.'' @ n | None \<Rightarrow> n)"

definition PREFIX_SEPARATOR :: char where "PREFIX_SEPARATOR = CHR ''.''"

record queue_attr =
  qa_name :: "string option"
  qa_prefetch :: "u16 option"
  qa_durable :: "bool option"
  qa_message_ttl :: "u64 option"
  qa_max_priority :: "u8 option"
  qa_retry :: "retry_spec option"

definition queue_attr_default :: queue_attr where
  "queue_attr_default = \<lparr>qa_name = None, qa_prefetch = None, qa_durable = None, qa_message_ttl = None,
     qa_max_priority = None, qa_retry = None\<rparr>"

definition reject_trailing_separator :: "string \<Rightarrow> macro_error + unit" where
  "reject_trailing_separator lit = (if lit \<noteq> [] \<and> List.last lit = PREFIX_SEPARATOR
     then Inl (Message (''`prefix` must not end with `'' @ [PREFIX_SEPARATOR]
       @ ''`: the separator before the queue name is added for you, so `prefix = '' @ dquote @ ''myapp'' @ dquote
       @ ''` already yields `myapp.emails`''))
     else Inr ())"

definition reject_misplaced :: "attribute list \<Rightarrow> string \<Rightarrow> string \<Rightarrow> string \<Rightarrow> string \<Rightarrow> macro_error + unit" where
  "reject_misplaced attrs wrong right wrong_place right_place =
     (if find (\<lambda>a. at_name a = wrong) attrs \<noteq> None
      then Inl (Message (''`#['' @ wrong @ ''(...)]` belongs on '' @ wrong_place @ ''; '' @ right_place
        @ '' takes `#['' @ right @ ''(...)]`''))
      else Inr ())"

definition container_item :: "macro_env \<Rightarrow> meta \<Rightarrow> container_attr \<Rightarrow> macro_error + container_attr" where
  "container_item env m c =
     (if fst m = ''prefix'' then
        bind_res (lit_str m) (\<lambda>lit. bind_res (reject_blank lit ''prefix'') (\<lambda>_.
        bind_res (reject_trailing_separator lit) (\<lambda>_.
        bind_res (set_once (ca_prefix c) (fst m) lit) (\<lambda>x. Inr (c\<lparr>ca_prefix := x\<rparr>)))))
      else if fst m = ''crate'' then
        bind_res (lit_str m) (\<lambda>lit. bind_res (parse_crate_path (me_parse_path env) lit) (\<lambda>p.
        bind_res (set_once (ca_core c) (fst m) p) (\<lambda>x. Inr (c\<lparr>ca_core := x\<rparr>))))
      else Inl (Message (''unknown key `'' @ fst m @ ''` in `#[queues(...)]`, expected `prefix` or `crate`'')))"

definition attr_items :: "(meta \<Rightarrow> 'a \<Rightarrow> macro_error + 'a) \<Rightarrow> attribute \<Rightarrow> 'a \<Rightarrow> macro_error + 'a" where
  "attr_items step a x = (case at_body a of
       AttrPath \<Rightarrow> Inr x
     | AttrList ms \<Rightarrow> fold_items step ms x
     | AttrValue \<Rightarrow> Inl SynError)"

definition parse_container_attr :: "macro_env \<Rightarrow> attribute list \<Rightarrow> macro_error + container_attr" where
  "parse_container_attr env attrs =
     bind_res (reject_misplaced attrs ''queue'' ''queues'' ''a variant'' ''the enum'') (\<lambda>_.
     fold_items (attr_items (container_item env)) (filter (\<lambda>a. at_name a = ''queues'') attrs) container_default)"

definition queue_item :: "meta \<Rightarrow> queue_attr \<Rightarrow> macro_error + queue_attr" where
  "queue_item m q =
     (if fst m = ''name'' then
        bind_res (lit_str m) (\<lambda>lit. bind_res (reject_blank lit ''name'') (\<lambda>_.
        bind_res (set_once (qa_name q) (fst m) lit) (\<lambda>x. Inr (q\<lparr>qa_name := x\<rparr>))))
      else if fst m = ''prefetch'' then
        bind_res (lit_int m PREFETCH_RANGE) (\<lambda>v.
        if v = 0 then Inl (Message (''`prefetch = 0` means unlimited in AMQP; omit the attribute or use a ''
          @ ''positive value''))
        else bind_res (set_once (qa_prefetch q) (fst m) v) (\<lambda>x. Inr (q\<lparr>qa_prefetch := x\<rparr>)))
      else if fst m = ''durable'' then
        bind_res (lit_bool m) (\<lambda>v. bind_res (set_once (qa_durable q) (fst m) v) (\<lambda>x. Inr (q\<lparr>qa_durable := x\<rparr>)))
      else if fst m = ''message_ttl'' then
        bind_res (parse_duration_lit m ''message_ttl'') (\<lambda>millis.
        if MAX_MESSAGE_TTL_MS < millis then Inl (Message (''`message_ttl` must be '' @ MESSAGE_TTL_RANGE
          @ '': a broker stores it as an unsigned 32-bit millisecond count, so a longer TTL cannot be ''
          @ ''expressed and would be silently clamped''))
        else bind_res (set_once (qa_message_ttl q) (fst m) millis) (\<lambda>x. Inr (q\<lparr>qa_message_ttl := x\<rparr>)))
      else if fst m = ''max_priority'' then
        bind_res (lit_int m MAX_PRIORITY_RANGE) (\<lambda>v.
        bind_res (set_once (qa_max_priority q) (fst m) v) (\<lambda>x. Inr (q\<lparr>qa_max_priority := x\<rparr>)))
      else if fst m = ''retry'' then
        bind_res (parse_retry m) (\<lambda>spec.
        bind_res (set_once (qa_retry q) (fst m) spec) (\<lambda>x. Inr (q\<lparr>qa_retry := x\<rparr>)))
      else Inl (Message (''unknown key `'' @ fst m @ ''` in `#[queue(...)]`, expected one of `name`, `prefetch`, ''
        @ ''`durable`, `message_ttl`, `max_priority`, `retry`'')))"

definition parse_queue_attr :: "attribute list \<Rightarrow> macro_error + queue_attr" where
  "parse_queue_attr attrs =
     bind_res (reject_misplaced attrs ''queues'' ''queue'' ''the enum'' ''a variant'') (\<lambda>_.
     fold_items (attr_items queue_item) (filter (\<lambda>a. at_name a = ''queue'') attrs) queue_attr_default)"

section \<open>Names\<close>

definition is_uppercase :: "char \<Rightarrow> bool" where
  "is_uppercase c \<longleftrightarrow> 65 \<le> (of_char c :: nat) \<and> (of_char c :: nat) \<le> 90"

definition is_lowercase :: "char \<Rightarrow> bool" where
  "is_lowercase c \<longleftrightarrow> 97 \<le> (of_char c :: nat) \<and> (of_char c :: nat) \<le> 122"

definition to_lowercase :: "char \<Rightarrow> char" where
  "to_lowercase c = (if is_uppercase c then char_of ((of_char c :: nat) + 32) else c)"

definition underscore :: char where "underscore = CHR 0x5F"

text \<open>Whether a word starts at an upper-case letter with \<open>prev\<close> before it and \<open>cs\<close> after it.\<close>

definition word_boundary :: "char option \<Rightarrow> string \<Rightarrow> bool" where
  "word_boundary prev cs = (case prev of
       None \<Rightarrow> False
     | Some p \<Rightarrow> (if p = underscore then False
         else if is_lowercase p \<or> ascii_digit p then True
         else (case cs of [] \<Rightarrow> False | n # _ \<Rightarrow> is_lowercase n)))"

definition ends_in_underscore :: "string \<Rightarrow> bool" where
  "ends_in_underscore out \<longleftrightarrow> out \<noteq> [] \<and> List.last out = underscore"

fun snake_loop :: "char option \<Rightarrow> string \<Rightarrow> string \<Rightarrow> string" where
  "snake_loop prev out [] = out"
| "snake_loop prev out (c # cs) =
     (if c = underscore
      then snake_loop (Some c) (if \<not> ends_in_underscore out \<and> out \<noteq> [] then out @ [underscore] else out) cs
      else snake_loop (Some c)
        ((if is_uppercase c \<and> word_boundary prev cs \<and> \<not> ends_in_underscore out then out @ [underscore] else out)
          @ [to_lowercase c]) cs)"

definition snake_case :: "string \<Rightarrow> string" where
  "snake_case s = snake_loop None [] s"

section \<open>The derive\<close>

record resolved_queue =
  rq_ident :: string
  rq_name :: string
  rq_attr :: queue_attr

definition resolve_variant :: "container_attr \<Rightarrow> variant \<Rightarrow> macro_error + resolved_queue" where
  "resolve_variant container v =
     (if \<not> v_unit v then Inl (Message ''queue variants must not have fields'')
      else bind_res (parse_queue_attr (v_attrs v)) (\<lambda>attr.
        let bare = (case qa_name attr of Some n \<Rightarrow> n | None \<Rightarrow> snake_case (v_ident v))
        in if bare = [] then Inl (Message (''queue name is empty; give the variant a `#[queue(name = '' @ dquote
             @ ''...'' @ dquote @ '')]`''))
           else Inr \<lparr>rq_ident = v_ident v, rq_name = qualify container bare, rq_attr = attr\<rparr>))"

fun resolve_all :: "container_attr \<Rightarrow> variant list \<Rightarrow> macro_error + resolved_queue list" where
  "resolve_all container [] = Inr []"
| "resolve_all container (v # vs) = bind_res (resolve_variant container v) (\<lambda>r.
     bind_res (resolve_all container vs) (\<lambda>rs. Inr (r # rs)))"

fun check_unique :: "string set \<Rightarrow> resolved_queue list \<Rightarrow> macro_error + unit" where
  "check_unique seen [] = Inr ()"
| "check_unique seen (q # qs) = (if rq_name q \<in> seen
     then Inl (Message (''duplicate queue name `'' @ rq_name q @ ''`''))
     else check_unique (insert (rq_name q) seen) qs)"

definition config_expr :: "resolved_queue \<Rightarrow> queue_config" where
  "config_expr q =
     (let c = queue_config_new (rq_name q);
          c = (case qa_prefetch (rq_attr q) of Some n \<Rightarrow> set_prefetch n c | None \<Rightarrow> c);
          c = (case qa_durable (rq_attr q) of Some b \<Rightarrow> set_durable b c | None \<Rightarrow> c);
          c = (case qa_message_ttl (rq_attr q) of Some ms \<Rightarrow> set_message_ttl (duration_tokens ms) c | None \<Rightarrow> c);
          c = (case qa_max_priority (rq_attr q) of Some n \<Rightarrow> set_max_priority n c | None \<Rightarrow> c)
      in case qa_retry (rq_attr q) of Some spec \<Rightarrow> set_retry (retry_tokens spec) c | None \<Rightarrow> c)"

text \<open>The generated implementation: a \<open>match\<close> on the variant; no value of the enum is none of them.\<close>

definition generated_set :: "resolved_queue list \<Rightarrow> string queue_set" where
  "generated_set rs = \<lparr>qs_all = map rq_ident rs,
     qs_name = (\<lambda>i. case find (\<lambda>r. rq_ident r = i) rs of Some r \<Rightarrow> rq_name r | None \<Rightarrow> []),
     qs_config = (\<lambda>i. case find (\<lambda>r. rq_ident r = i) rs of Some r \<Rightarrow> config_expr r | None \<Rightarrow> queue_config_new [])\<rparr>"

definition derive_queues :: "macro_env \<Rightarrow> derive_input \<Rightarrow> macro_error + string queue_set" where
  "derive_queues env input = (case di_variants input of
       None \<Rightarrow> Inl (Message ''#[derive(Queues)] can only be applied to enums'')
     | Some vs \<Rightarrow>
         (if di_generic input then Inl (Message ''generic queue enums are not supported'')
          else if vs = [] then Inl (Message ''#[derive(Queues)] requires at least one variant'')
          else bind_res (parse_container_attr env (di_attrs input)) (\<lambda>container.
               bind_res (queues_core_path env container) (\<lambda>core.
               bind_res (resolve_all container vs) (\<lambda>resolved.
               bind_res (check_unique {} resolved) (\<lambda>_. Inr (generated_set resolved)))))))"

section \<open>Keys are written once\<close>

text \<open>Over all attributes of one name on an item: the lists of a bare attribute are empty.\<close>

definition attr_keys :: "attribute \<Rightarrow> string list" where
  "attr_keys a = (case at_body a of AttrList ms \<Rightarrow> map fst ms | AttrPath \<Rightarrow> [] | AttrValue \<Rightarrow> [])"

definition written_keys :: "string \<Rightarrow> attribute list \<Rightarrow> string list" where
  "written_keys n attrs = concat (map attr_keys (filter (\<lambda>a. at_name a = n) attrs))"

context keyed_items
begin

lemma attr_records: "attr_items step a x = Inr y \<Longrightarrow>
    distinct (attr_keys a) \<and> set (attr_keys a) \<inter> written x = {} \<and> written y = written x \<union> set (attr_keys a)"
  using fold_records by (auto simp: attr_items_def attr_keys_def split: attr_body.splits)

lemma attrs_record: "fold_items (attr_items step) as x = Inr y \<Longrightarrow>
    distinct (concat (map attr_keys as)) \<and> set (concat (map attr_keys as)) \<inter> written x = {}
      \<and> written y = written x \<union> set (concat (map attr_keys as))"
proof (induction as arbitrary: x)
  case (Cons a as)
  then obtain z where z: "attr_items step a x = Inr z" "fold_items (attr_items step) as z = Inr y"
    by (auto simp: bind_res_Inr_iff)
  from Cons.IH [OF z(2)] attr_records [OF z(1)] show ?case by auto
qed simp

end

definition container_written :: "container_attr \<Rightarrow> string set" where
  "container_written c = {k. if k = ''prefix'' then ca_prefix c \<noteq> None else k = ''crate'' \<and> ca_core c \<noteq> None}"

lemma container_item_cases: "container_item env m c = Inr c' \<Longrightarrow>
    (\<exists>v. fst m = ''prefix'' \<and> ca_prefix c = None \<and> c' = c\<lparr>ca_prefix := Some v\<rparr>)
  \<or> (\<exists>v. fst m = ''crate'' \<and> ca_core c = None \<and> c' = c\<lparr>ca_core := Some v\<rparr>)"
  unfolding container_item_def by (simp add: bind_res_Inr_iff set_once_Some split: if_split_asm) auto

interpretation container_keys: keyed_items "container_item env" container_written for env
proof
  fix m c c'
  assume "container_item env m c = Inr c'"
  from container_item_cases [OF this]
  show "fst m \<notin> container_written c \<and> container_written c' = insert (fst m) (container_written c)"
    by (elim disjE exE conjE) (simp_all add: container_written_def set_eq_iff)
qed

definition queue_written :: "queue_attr \<Rightarrow> string set" where
  "queue_written q = {k. if k = ''name'' then qa_name q \<noteq> None
     else if k = ''prefetch'' then qa_prefetch q \<noteq> None
     else if k = ''durable'' then qa_durable q \<noteq> None
     else if k = ''message_ttl'' then qa_message_ttl q \<noteq> None
     else if k = ''max_priority'' then qa_max_priority q \<noteq> None
     else k = ''retry'' \<and> qa_retry q \<noteq> None}"

lemma queue_item_cases: "queue_item m q = Inr q' \<Longrightarrow>
    (\<exists>v. fst m = ''name'' \<and> qa_name q = None \<and> v \<noteq> [] \<and> q' = q\<lparr>qa_name := Some v\<rparr>)
  \<or> (\<exists>v. fst m = ''prefetch'' \<and> qa_prefetch q = None \<and> v \<noteq> 0 \<and> q' = q\<lparr>qa_prefetch := Some v\<rparr>)
  \<or> (\<exists>v. fst m = ''durable'' \<and> qa_durable q = None \<and> q' = q\<lparr>qa_durable := Some v\<rparr>)
  \<or> (\<exists>v. fst m = ''message_ttl'' \<and> qa_message_ttl q = None \<and> 0 < v \<and> v \<le> MAX_MESSAGE_TTL_MS \<and> q' = q\<lparr>qa_message_ttl := Some v\<rparr>)
  \<or> (\<exists>v. fst m = ''max_priority'' \<and> qa_max_priority q = None \<and> q' = q\<lparr>qa_max_priority := Some v\<rparr>)
  \<or> (\<exists>v. fst m = ''retry'' \<and> qa_retry q = None \<and> sensible_policy (retry_tokens v) \<and> q' = q\<lparr>qa_retry := Some v\<rparr>)"
  unfolding queue_item_def
  by (simp add: bind_res_Inr_iff set_once_Some reject_blank_def split: if_split_asm)
    (auto dest: parse_retry_sensible parse_duration_lit_pos)

interpretation queue_keys: keyed_items queue_item queue_written
proof
  fix m q q'
  assume "queue_item m q = Inr q'"
  from queue_item_cases [OF this]
  show "fst m \<notin> queue_written q \<and> queue_written q' = insert (fst m) (queue_written q)"
    by (elim disjE exE conjE) (simp_all add: queue_written_def set_eq_iff)
qed

lemma container_attr_keys: "parse_container_attr env attrs = Inr c \<Longrightarrow>
    distinct (written_keys ''queues'' attrs) \<and> set (written_keys ''queues'' attrs) \<subseteq> {''prefix'', ''crate''}
      \<and> (\<forall>a\<in>set attrs. at_name a \<noteq> ''queue'')"
proof -
  assume "parse_container_attr env attrs = Inr c"
  then have f: "fold_items (attr_items (container_item env)) (filter (\<lambda>a. at_name a = ''queues'') attrs) container_default = Inr c"
    and n: "\<forall>a\<in>set attrs. at_name a \<noteq> ''queue''"
    by (auto simp: parse_container_attr_def reject_misplaced_def bind_res_Inr_iff find_None_iff split: if_splits)
  have "container_written c \<subseteq> {''prefix'', ''crate''}" by (auto simp: container_written_def split: if_splits)
  with container_keys.attrs_record [OF f] n show ?thesis unfolding written_keys_def by auto
qed

lemma queue_attr_keys: "parse_queue_attr attrs = Inr q \<Longrightarrow>
    distinct (written_keys ''queue'' attrs)
      \<and> set (written_keys ''queue'' attrs) \<subseteq> {''name'', ''prefetch'', ''durable'', ''message_ttl'', ''max_priority'', ''retry''}
      \<and> (\<forall>a\<in>set attrs. at_name a \<noteq> ''queues'')"
proof -
  assume "parse_queue_attr attrs = Inr q"
  then have f: "fold_items (attr_items queue_item) (filter (\<lambda>a. at_name a = ''queue'') attrs) queue_attr_default = Inr q"
    and n: "\<forall>a\<in>set attrs. at_name a \<noteq> ''queues''"
    by (auto simp: parse_queue_attr_def reject_misplaced_def bind_res_Inr_iff find_None_iff split: if_splits)
  have "queue_written q \<subseteq> {''name'', ''prefetch'', ''durable'', ''message_ttl'', ''max_priority'', ''retry''}"
    by (auto simp: queue_written_def split: if_splits)
  with queue_keys.attrs_record [OF f] n show ?thesis unfolding written_keys_def by auto
qed

section \<open>Snake case\<close>

text \<open>A tidy name: lower-case, not starting with an underscore, no two of them in a row.\<close>

fun no_double :: "string \<Rightarrow> bool" where
  "no_double [] \<longleftrightarrow> True"
| "no_double [c] \<longleftrightarrow> True"
| "no_double (c # d # s) \<longleftrightarrow> \<not> (c = underscore \<and> d = underscore) \<and> no_double (d # s)"

definition tidy :: "string \<Rightarrow> bool" where
  "tidy s \<longleftrightarrow> (\<forall>c\<in>set s. \<not> is_uppercase c) \<and> (s \<noteq> [] \<longrightarrow> List.hd s \<noteq> underscore) \<and> no_double s"

lemma not_upper [simp]: "\<not> is_uppercase underscore" "\<not> is_uppercase (to_lowercase c)"
proof -
  show "\<not> is_uppercase underscore" by (simp add: is_uppercase_def underscore_def)
  show "\<not> is_uppercase (to_lowercase c)"
  proof (cases "is_uppercase c")
    case True
    then have "(of_char c :: nat) + 32 < 256" "97 \<le> (of_char c :: nat) + 32" by (auto simp: is_uppercase_def)
    then have "(of_char (to_lowercase c) :: nat) = of_char c + 32"
      using True by (simp add: to_lowercase_def of_char_of)
    with True show ?thesis by (simp add: is_uppercase_def)
  qed (simp add: to_lowercase_def)
qed

lemma lower_underscore: "to_lowercase c = underscore \<longleftrightarrow> c = underscore"
proof (cases "is_uppercase c")
  case True
  then have "(of_char c :: nat) + 32 < 256" "97 \<le> (of_char c :: nat) + 32" by (auto simp: is_uppercase_def)
  then have "(of_char (to_lowercase c) :: nat) = of_char c + 32"
    using True by (simp add: to_lowercase_def of_char_of)
  with True have "to_lowercase c \<noteq> underscore" "c \<noteq> underscore"
    by (auto simp: is_uppercase_def underscore_def)
  then show ?thesis by simp
qed (simp add: to_lowercase_def)

lemma no_double_snoc: "no_double (s @ [c]) \<longleftrightarrow> no_double s \<and> \<not> (c = underscore \<and> ends_in_underscore s)"
  by (induction s rule: no_double.induct) (auto simp: ends_in_underscore_def)

lemma tidy_snoc: "tidy (s @ [c]) \<longleftrightarrow>
    tidy s \<and> \<not> is_uppercase c \<and> \<not> (c = underscore \<and> (s = [] \<or> ends_in_underscore s))"
  by (cases s) (auto simp: tidy_def no_double_snoc [simplified] simp flip: append_Cons)

text \<open>What the loop keeps: the output is tidy, and there is some after a letter.\<close>

lemma snake_loop_tidy:
  "tidy out \<Longrightarrow> (\<And>p. prev = Some p \<Longrightarrow> p \<noteq> underscore \<Longrightarrow> out \<noteq> []) \<Longrightarrow> tidy (snake_loop prev out s)"
proof (induction prev out s rule: snake_loop.induct)
  case (2 prev out c cs)
  let ?o = "if is_uppercase c \<and> word_boundary prev cs \<and> \<not> ends_in_underscore out then out @ [underscore] else out"
  show ?case
  proof (cases "c = underscore")
    case True
    with 2 show ?thesis by (auto simp: tidy_snoc)
  next
    case False
    have "word_boundary prev cs \<Longrightarrow> out \<noteq> []"
      using 2(4) by (auto simp: word_boundary_def split: option.splits if_splits)
    with 2(3) have "tidy ?o" by (auto simp: tidy_snoc)
    with False have "tidy (?o @ [to_lowercase c])" by (simp only: tidy_snoc not_upper lower_underscore) simp
    with 2(2) False show ?thesis by (simp del: append_assoc)
  qed
qed simp

lemma snake_loop_letters:
  "filter (\<lambda>c. c \<noteq> underscore) (snake_loop prev out s)
     = filter (\<lambda>c. c \<noteq> underscore) out @ map to_lowercase (filter (\<lambda>c. c \<noteq> underscore) s)"
  by (induction prev out s rule: snake_loop.induct) (auto simp: lower_underscore)

lemma snake_loop_tidy_id: "tidy (out @ s) \<Longrightarrow> snake_loop prev out s = out @ s"
proof (induction s arbitrary: prev out)
  case (Cons c cs)
  have "tidy ((out @ [c]) @ cs)" using Cons.prems by simp
  from Cons.IH [OF this] have ih: "snake_loop p (out @ [c]) cs = out @ c # cs" for p by simp
  have t: "tidy (out @ [c])"
  proof -
    have "tidy (xs @ ys) \<Longrightarrow> tidy xs" for xs ys
      by (induction ys rule: rev_induct) (auto simp: tidy_snoc simp flip: append_assoc)
    from this [of "out @ [c]" cs] Cons.prems show ?thesis by simp
  qed
  show ?case
  proof (cases "c = underscore")
    case True
    with t ih show ?thesis by (auto simp: tidy_snoc)
  next
    case False
    with t ih show ?thesis by (simp add: tidy_snoc to_lowercase_def)
  qed
qed simp

text \<open>C40: the default queue name of a variant: snake case keeps the letters and digits of the identifier in
  their order, lowered, and adds or drops underscores only; the result is lower-case, does not start
  with an underscore and has no two in a row, and is its own snake case.\<close>

theorem snake_case_tidies:
  "filter (\<lambda>c. c \<noteq> underscore) (snake_case s) = map to_lowercase (filter (\<lambda>c. c \<noteq> underscore) s)
   \<and> tidy (snake_case s) \<and> snake_case (snake_case s) = snake_case s"
proof -
  have t: "tidy (snake_case s)"
    unfolding snake_case_def by (rule snake_loop_tidy) (simp_all add: tidy_def)
  then have "snake_case (snake_case s) = snake_case s"
    using snake_loop_tidy_id [of "[]" "snake_case s" None] by (simp add: snake_case_def [of "snake_case s"])
  with t snake_loop_letters [of None "[]" s] show ?thesis by (simp add: snake_case_def)
qed

lemma snake_case_examples:
  "snake_case ''SendEmails'' = ''send_emails''" "snake_case ''HTTPCalls'' = ''http_calls''"
  "snake_case ''Level2Cache'' = ''level2_cache''"
  by code_simp+

section \<open>The generated queue set\<close>

lemma resolve_all_idents: "resolve_all container vs = Inr rs \<Longrightarrow> map rq_ident rs = map v_ident vs"
  by (induction vs arbitrary: rs) (auto simp: bind_res_Inr_iff resolve_variant_def Let_def split: if_splits)

lemma check_unique_ok: "check_unique seen qs = Inr u \<Longrightarrow>
    distinct (map rq_name qs) \<and> set (map rq_name qs) \<inter> seen = {}"
  by (induction qs arbitrary: seen) (auto split: if_splits)

lemma derive_queues_ok:
  assumes "derive_queues env input = Inr Q"
  obtains vs container rs where "di_variants input = Some vs" "vs \<noteq> []" "resolve_all container vs = Inr rs"
    "distinct (map rq_name rs)" "Q = generated_set rs"
  using assms check_unique_ok
  by (auto simp: derive_queues_def bind_res_Inr_iff split: option.splits if_splits)

text \<open>Looking a variant up finds it, when their identifiers differ, as those of an enum do.\<close>

lemma find_ident:
  assumes "distinct (map rq_ident rs)" "r \<in> set rs"
  shows "find (\<lambda>q. rq_ident q = rq_ident r) rs = Some r"
  using assms by (induction rs) (auto simp: image_iff)

lemma generated_set_member:
  assumes "distinct (map rq_ident rs)" "r \<in> set rs"
  shows "qs_name (generated_set rs) (rq_ident r) = rq_name r"
    "qs_config (generated_set rs) (rq_ident r) = config_expr r"
  using find_ident [OF assms] by (simp_all add: generated_set_def)

lemma config_expr_name [simp]: "qc_name (config_expr q) = rq_name q"
  by (simp add: config_expr_def Let_def queue_config_new_def builder_defs split: option.split)

text \<open>What the compiler accepts: two variants with one identifier it rejects, whatever the macro does.\<close>

definition compiled_set :: "macro_env \<Rightarrow> derive_input \<Rightarrow> string queue_set" where
  "compiled_set env input = (case (derive_queues env input, di_variants input) of
       (Inr Q, Some vs) \<Rightarrow> (if distinct (map v_ident vs) then Q else generated_set [])
     | _ \<Rightarrow> generated_set [])"

lemma compiled_set_cases:
  obtains "compiled_set env input = generated_set []"
  | rs where "derive_queues env input = Inr (generated_set rs)" "compiled_set env input = generated_set rs"
    "distinct (map rq_ident rs)" "distinct (map rq_name rs)"
proof (cases "derive_queues env input")
  case (Inr Q)
  from derive_queues_ok [OF Inr] obtain vs container rs where v: "di_variants input = Some vs"
    "resolve_all container vs = Inr rs" "distinct (map rq_name rs)" "Q = generated_set rs" by blast
  show thesis
  proof (cases "distinct (map v_ident vs)")
    case True
    with v Inr resolve_all_idents [OF v(2)] show thesis by (intro that(2) [of rs]) (simp_all add: compiled_set_def)
  next
    case False
    with v Inr show thesis by (intro that(1)) (simp add: compiled_set_def)
  qed
qed (use that(1) in \<open>simp add: compiled_set_def\<close>)

interpretation derived: queue_set_laws "qs_all (compiled_set env input)" "qs_name (compiled_set env input)"
  "qs_config (compiled_set env input)" for env input
proof unfold_locales
  show "distinct (map (qs_name (compiled_set env input)) (qs_all (compiled_set env input)))"
  proof (cases rule: compiled_set_cases [of env input])
    case (2 rs)
    have "qs_all (generated_set rs) = map rq_ident rs" by (simp add: generated_set_def)
    then have names: "map (qs_name (generated_set rs)) (qs_all (generated_set rs)) = map rq_name rs"
      using generated_set_member(1) [OF 2(3)] by simp
    show ?thesis unfolding 2(2) names by (rule 2(4))
  qed (simp add: generated_set_def)
  fix i
  assume i: "i \<in> set (qs_all (compiled_set env input))"
  show "qc_name (qs_config (compiled_set env input) i) = qs_name (compiled_set env input) i"
  proof (cases rule: compiled_set_cases [of env input])
    case 1
    with i show ?thesis by (simp add: generated_set_def)
  next
    case (2 rs)
    with i obtain r where "r \<in> set rs" "i = rq_ident r" by (auto simp: generated_set_def)
    with 2 generated_set_member [OF 2(3)] show ?thesis by simp
  qed
qed

text \<open>C20: a queue set the derive generates is lawful: its queues are the variants in their order, their names
  differ, each configuration carries its queue's name, and looking a queue's name up gives it back.\<close>

theorem derived_queue_set_is_lawful:
  assumes "derive_queues env input = Inr Q" "di_variants input = Some vs" "distinct (map v_ident vs)"
  shows "qs_all Q = map v_ident vs \<and> distinct (map (qs_name Q) (qs_all Q))
    \<and> (\<forall>q\<in>set (qs_all Q). qc_name (qs_config Q q) = qs_name Q q \<and> from_name Q (qs_name Q q) = Some q)"
proof -
  have Q: "compiled_set env input = Q" using assms by (simp add: compiled_set_def)
  from derive_queues_ok [OF assms(1)] assms(2) obtain container rs where
    "resolve_all container vs = Inr rs" "Q = generated_set rs" by (metis option.inject)
  then have all: "qs_all Q = map v_ident vs"
    using resolve_all_idents by (simp add: generated_set_def)
  have "qc_name (qs_config Q q) = qs_name Q q" "from_name Q (qs_name Q q) = Some q" if "q \<in> set (qs_all Q)" for q
    using that derived.config_name [of q env input] derived.find_by_name [of q env input]
    by (simp_all add: Q from_name_def)
  with all derived.names_distinct [of env input] Q show ?thesis by simp
qed

section \<open>The generated configurations\<close>

text \<open>What parsing the attributes of a variant guarantees of the values it keeps.\<close>

definition queue_attr_ok :: "queue_attr \<Rightarrow> bool" where
  "queue_attr_ok q \<longleftrightarrow> qa_name q \<noteq> Some [] \<and> qa_prefetch q \<noteq> Some 0
     \<and> (case qa_message_ttl q of None \<Rightarrow> True | Some ms \<Rightarrow> 0 < ms \<and> ms \<le> MAX_MESSAGE_TTL_MS)
     \<and> (case qa_retry q of None \<Rightarrow> True | Some spec \<Rightarrow> sensible_policy (retry_tokens spec))"

lemma queue_item_ok: "queue_item m q = Inr q' \<Longrightarrow> queue_attr_ok q \<Longrightarrow> queue_attr_ok q'"
  by (elim queue_item_cases [THEN disjE] disjE exE conjE) (simp_all add: queue_attr_ok_def)

lemma attr_items_ok: "attr_items queue_item a q = Inr q' \<Longrightarrow> queue_attr_ok q \<Longrightarrow> queue_attr_ok q'"
  unfolding attr_items_def
  by (auto split: attr_body.splits intro: fold_items_induct [where P = queue_attr_ok] queue_item_ok)

lemma parse_queue_attr_ok: "parse_queue_attr attrs = Inr q \<Longrightarrow> queue_attr_ok q"
proof -
  assume "parse_queue_attr attrs = Inr q"
  then have "fold_items (attr_items queue_item) (filter (\<lambda>a. at_name a = ''queue'') attrs) queue_attr_default = Inr q"
    by (auto simp: parse_queue_attr_def bind_res_Inr_iff)
  moreover have "queue_attr_ok queue_attr_default" by (simp add: queue_attr_ok_def queue_attr_default_def)
  ultimately show "queue_attr_ok q" by (rule fold_items_induct) (rule attr_items_ok)
qed

lemma resolve_variant_ok: "resolve_variant container v = Inr r \<Longrightarrow> queue_attr_ok (rq_attr r) \<and> rq_name r \<noteq> []"
  by (auto simp: bind_res_Inr_iff resolve_variant_def Let_def qualify_def intro: parse_queue_attr_ok
      split: if_splits option.splits)

lemma resolve_all_ok: "resolve_all container vs = Inr rs \<Longrightarrow> r \<in> set rs \<Longrightarrow> queue_attr_ok (rq_attr r) \<and> rq_name r \<noteq> []"
proof (induction vs arbitrary: rs)
  case (Cons v vs)
  then show ?case using resolve_variant_ok [of container v] by (auto simp: bind_res_Inr_iff)
qed simp

lemma ttl_exact: "0 < ms \<Longrightarrow> ms \<le> MAX_MESSAGE_TTL_MS \<Longrightarrow> ttl_millis (duration_tokens ms) = int (unat ms)"
proof -
  assume "0 < ms" "ms \<le> MAX_MESSAGE_TTL_MS"
  then have b: "0 < unat ms" "unat ms \<le> 2 ^ 32 - 1"
    by (simp_all add: word_less_nat_alt word_le_nat_alt MAX_MESSAGE_TTL_MS_def)
  have "div_ceil (unat ms * 1000000) 1000000 = unat ms" by (simp add: div_ceil_def)
  with b show ?thesis
    by (simp add: ttl_millis_def duration_tokens_def from_millis_def nanos_per_milli_def clamp_def MAX_TTL_MS_def
        i64_try_from_def Let_def)
qed

lemma default_config: "0 < prefetch (queue_config_new n)" "sensible_policy (qc_retry (queue_config_new n))"
  by (simp_all add: queue_config_new_def default_policy_def sensible_policy_def sensible_backoff_def)

lemma derived_config:
  assumes "derive_queues env input = Inr Q" "di_variants input = Some vs" "distinct (map v_ident vs)"
    "q \<in> set (qs_all Q)"
  obtains r where "qs_config Q q = config_expr r" "queue_attr_ok (rq_attr r)" "rq_name r \<noteq> []"
proof -
  from derive_queues_ok [OF assms(1)] assms(2) obtain container rs where
    rs: "resolve_all container vs = Inr rs" "Q = generated_set rs" by (metis option.inject)
  with assms(3) have d: "distinct (map rq_ident rs)" using resolve_all_idents by simp
  from assms(4) rs(2) obtain r where r: "r \<in> set rs" "q = rq_ident r" by (auto simp: generated_set_def)
  then have "qs_config Q q = config_expr r" using generated_set_member(2) [OF d] rs(2) by simp
  with that resolve_all_ok [OF rs(1) r(1)] show thesis by blast
qed

lemma config_expr_fields:
  assumes "queue_attr_ok (rq_attr r)"
  shows "0 < prefetch (config_expr r)" "sensible_policy (qc_retry (config_expr r))"
    "message_ttl (config_expr r) = map_option duration_tokens (qa_message_ttl (rq_attr r))"
  using assms default_config [of "rq_name r"]
  by (auto simp: config_expr_def Let_def builder_defs queue_attr_ok_def word_gt_0 queue_config_new_def
      split: option.split)

text \<open>C22: every configuration a derived queue set returns can be declared as it stands: its name is not empty,
  its prefetch is positive (zero would mean no limit), its retry policy makes sense, and its message time
  to live reaches the broker exactly, neither rounded nor cut off.\<close>

theorem derived_configuration_in_range:
  assumes "derive_queues env input = Inr Q" "di_variants input = Some vs" "distinct (map v_ident vs)"
    "q \<in> set (qs_all Q)"
  shows "qc_name (qs_config Q q) \<noteq> [] \<and> 0 < prefetch (qs_config Q q) \<and> sensible_policy (qc_retry (qs_config Q q))
    \<and> (case message_ttl (qs_config Q q) of None \<Rightarrow> True
       | Some t \<Rightarrow> 0 < t \<and> t = from_millis (nat (ttl_millis t))
           \<and> queue_args (qs_config Q q) ARG_MESSAGE_TTL = Some (LongLongInt (ttl_millis t)))"
proof -
  from derived_config [OF assms] obtain r where c: "qs_config Q q = config_expr r"
    and ok: "queue_attr_ok (rq_attr r)" "rq_name r \<noteq> []" by blast
  note fields = config_expr_fields [OF ok(1)]
  have args: "message_ttl cfg = Some t \<Longrightarrow> queue_args cfg ARG_MESSAGE_TTL = Some (LongLongInt (ttl_millis t))" for cfg t
    by (simp add: queue_args_def Let_def ARG_MESSAGE_TTL_def ARG_MAX_PRIORITY_def split: option.split)
  have "case message_ttl (config_expr r) of None \<Rightarrow> True
       | Some t \<Rightarrow> 0 < t \<and> t = from_millis (nat (ttl_millis t))
           \<and> queue_args (config_expr r) ARG_MESSAGE_TTL = Some (LongLongInt (ttl_millis t))"
  proof (cases "qa_message_ttl (rq_attr r)")
    case (Some ms)
    with ok(1) have "0 < ms" "ms \<le> MAX_MESSAGE_TTL_MS" by (simp_all add: queue_attr_ok_def)
    with ttl_exact have "ttl_millis (duration_tokens ms) = int (unat ms)" by blast
    moreover have "0 < duration_tokens ms" using \<open>0 < ms\<close> by (simp add: millis_tokens)
    ultimately show ?thesis using Some fields(3) args [of "config_expr r" "duration_tokens ms"]
      by (simp add: duration_tokens_def)
  qed (simp add: fields(3))
  with fields(1,2) ok(2) show ?thesis unfolding c by simp
qed

section \<open>An example\<close>

definition example_env :: macro_env where
  "example_env = \<lparr>me_facade = Absent, me_core = Named ''queuey_core'',
     me_parse_path = (\<lambda>s. Some \<lparr>leading_colon = True, segments = [''queuey_core'']\<rparr>)\<rparr>"

definition example_enum :: derive_input where
  "example_enum = \<lparr>di_ident = ''AppQueues'', di_variants = Some
     [\<lparr>v_ident = ''Emails'', v_unit = True, v_attrs = [\<lparr>at_name = ''queue'', at_body = AttrList
        [(''prefetch'', VLit (LInt 5)), (''message_ttl'', VLit (LStr ''2m''))]\<rparr>]\<rparr>,
      \<lparr>v_ident = ''HTTPCalls'', v_unit = True, v_attrs = []\<rparr>],
     di_generic = False, di_attrs = [\<lparr>at_name = ''queues'', at_body = AttrList [(''prefix'', VLit (LStr ''app''))]\<rparr>]\<rparr>"

definition example_resolved :: "resolved_queue list" where
  "example_resolved =
    [\<lparr>rq_ident = ''Emails'', rq_name = ''app.emails'',
       rq_attr = queue_attr_default\<lparr>qa_prefetch := Some 5, qa_message_ttl := Some 120000\<rparr>\<rparr>,
     \<lparr>rq_ident = ''HTTPCalls'', rq_name = ''app.http_calls'', rq_attr = queue_attr_default\<rparr>]"

lemma example_attr:
  "parse_queue_attr [\<lparr>at_name = ''queue'', at_body = AttrList
     [(''prefetch'', VLit (LInt 5)), (''message_ttl'', VLit (LStr ''2m''))]\<rparr>]
   = Inr (queue_attr_default\<lparr>qa_prefetch := Some 5, qa_message_ttl := Some 120000\<rparr>)"
proof -
  have t: "trim ''2m'' = ''2m''" using trim_literal [of "''2m''" 0 0] by (simp add: solid_def)
  have m: "trim_start ''m'' = ''m''" by (rule trim_start_solid) (simp add: solid_def)
  have d: "takeWhile ascii_digit ''2m'' = ''2''" "dropWhile ascii_digit ''2m'' = ''m''" "digits_value ''2'' = 2"
    by (simp_all add: ascii_digit_def digits_value_def)
  have f: "unit_factor ''m'' = Some 60000"
    by (simp add: unit_factor_def MILLIS_PER_MINUTE_def MILLIS_PER_SECOND_def)
  have "parse_lit ''2m'' ''message_ttl'' = Inr 120000"
    unfolding parse_lit_def parse_millis_def Let_def t m d f by (simp add: parse_u64_def d checked_mul_def)
  then show ?thesis
    by (simp add: parse_queue_attr_def reject_misplaced_def attr_items_def queue_item_def queue_attr_default_def
        lit_int_def value_lit_def set_once_def parse_duration_lit_def lit_str_def MAX_MESSAGE_TTL_MS_def)
qed

lemma example_derive: "derive_queues example_env example_enum = Inr (generated_set example_resolved)"
proof -
  have "trim ''app'' = ''app''" using trim_literal [of "''app''" 0 0] by (simp add: solid_def)
  then have c: "parse_container_attr example_env (di_attrs example_enum) = Inr \<lparr>ca_prefix = Some ''app'', ca_core = None\<rparr>"
    by (simp add: parse_container_attr_def example_enum_def reject_misplaced_def attr_items_def container_item_def
        lit_str_def value_lit_def reject_blank_def reject_trailing_separator_def PREFIX_SEPARATOR_def set_once_def
        container_default_def)
  have p: "queues_core_path example_env \<lparr>ca_prefix = Some ''app'', ca_core = None\<rparr>
      = Inr \<lparr>leading_colon = True, segments = [''queuey_core'']\<rparr>"
    by code_simp
  have n: "snake_case ''Emails'' = ''emails''" "snake_case ''HTTPCalls'' = ''http_calls''" by code_simp+
  have e: "parse_queue_attr [] = Inr queue_attr_default"
    by (simp add: parse_queue_attr_def reject_misplaced_def)
  have r: "resolve_all \<lparr>ca_prefix = Some ''app'', ca_core = None\<rparr> (the (di_variants example_enum)) = Inr example_resolved"
    using n e example_attr
    by (simp add: example_enum_def example_resolved_def resolve_variant_def qualify_def queue_attr_default_def Let_def)
  have u: "check_unique {} example_resolved = Inr ()" by (simp add: example_resolved_def)
  show ?thesis using c p r u by (simp add: derive_queues_def example_enum_def)
qed

theorem derived_queue_set_is_lawful_witness:
  "from_name (generated_set example_resolved) ''app.http_calls'' = Some ''HTTPCalls''"
proof -
  have "qs_name (generated_set example_resolved) ''HTTPCalls'' = ''app.http_calls''"
    by (simp add: generated_set_def example_resolved_def)
  moreover have "''HTTPCalls'' \<in> set (qs_all (generated_set example_resolved))"
    by (simp add: generated_set_def example_resolved_def)
  ultimately show ?thesis
    using derived_queue_set_is_lawful [OF example_derive, of "the (di_variants example_enum)"]
    by (force simp: example_enum_def)
qed

theorem derived_configuration_in_range_witness:
  "queue_args (qs_config (generated_set example_resolved) ''Emails'') ARG_MESSAGE_TTL
     = Some (LongLongInt (ttl_millis (duration_tokens 120000)))"
proof -
  have "message_ttl (qs_config (generated_set example_resolved) ''Emails'') = Some (duration_tokens 120000)"
    by (simp add: generated_set_def example_resolved_def config_expr_def queue_attr_default_def Let_def builder_defs)
  moreover have "''Emails'' \<in> set (qs_all (generated_set example_resolved))"
    by (simp add: generated_set_def example_resolved_def)
  ultimately show ?thesis
    using derived_configuration_in_range [OF example_derive, of "the (di_variants example_enum)" "''Emails''"]
    by (simp add: example_enum_def)
qed

end
