(* ===== verification/Job_Derive.thy ===== *)
theory Job_Derive
  imports Queues_Derive Worker_Build
begin

text \<open>
  \<open>crates/macros/src/job.rs\<close>: \<open>#[derive(Job)]\<close>, from the item \<open>syn\<close> has parsed to the parts of the
  generated implementation. Compiling it is the step from the implementation to the \<open>job\<close> of the core
  crate: the module path and the serialisation of the payload are the crate's and are arguments, and a
  path to a variant stands for its last segment. The last section puts both derives under a worker.
\<close>

section \<open>Attributes\<close>

record job_attr =
  ja_queue :: "path option"
  ja_name :: "string option"
  ja_retry :: "retry_spec option"
  ja_core :: "path option"

definition job_attr_default :: job_attr where
  "job_attr_default = \<lparr>ja_queue = None, ja_name = None, ja_retry = None, ja_core = None\<rparr>"

definition job_core_path :: "macro_env \<Rightarrow> job_attr \<Rightarrow> macro_error + path" where
  "job_core_path env a = (case ja_core a of Some p \<Rightarrow> Inr p | None \<Rightarrow> default_crate_path env ''job'')"

text \<open>\<open>meta.value()?.parse::<Path>()\<close>.\<close>

definition value_path :: "meta_value \<Rightarrow> macro_error + path" where
  "value_path v = (case v of VPath p \<Rightarrow> Inr p | _ \<Rightarrow> Inl SynError)"

definition job_item :: "macro_env \<Rightarrow> meta \<Rightarrow> job_attr \<Rightarrow> macro_error + job_attr" where
  "job_item env m a =
     (if fst m = ''queue'' then
        bind_res (value_path (snd m)) (\<lambda>p. bind_res (set_once (ja_queue a) (fst m) p) (\<lambda>x. Inr (a\<lparr>ja_queue := x\<rparr>)))
      else if fst m = ''name'' then
        bind_res (lit_str m) (\<lambda>lit. bind_res (reject_blank lit ''name'') (\<lambda>_.
        bind_res (set_once (ja_name a) (fst m) lit) (\<lambda>x. Inr (a\<lparr>ja_name := x\<rparr>))))
      else if fst m = ''retry'' then
        bind_res (parse_retry m) (\<lambda>spec.
        bind_res (set_once (ja_retry a) (fst m) spec) (\<lambda>x. Inr (a\<lparr>ja_retry := x\<rparr>)))
      else if fst m = ''crate'' then
        bind_res (lit_str m) (\<lambda>lit. bind_res (parse_crate_path (me_parse_path env) lit) (\<lambda>p.
        bind_res (set_once (ja_core a) (fst m) p) (\<lambda>x. Inr (a\<lparr>ja_core := x\<rparr>))))
      else Inl (Message (''unknown key `'' @ fst m @ ''` in `#[job(...)]`, expected one of `queue`, `name`, ''
        @ ''`retry`, `crate`'')))"

definition parse_job_attr :: "macro_env \<Rightarrow> attribute list \<Rightarrow> macro_error + job_attr" where
  "parse_job_attr env attrs =
     fold_items (attr_items (job_item env)) (filter (\<lambda>a. at_name a = ''job'') attrs) job_attr_default"

definition queue_set_of :: "path \<Rightarrow> macro_error + path" where
  "queue_set_of p = (if length (segments p) < 2
     then Inl (Message ''`queue` must be a path to an enum variant such as `AppQueues::Emails`'')
     else Inr (p\<lparr>segments := butlast (segments p)\<rparr>))"

section \<open>The derive\<close>

text \<open>\<open>NameOf\<close> is the \<open>concat!\<close> of the module path and the name of the type.\<close>

datatype name_expr = NameLit string | NameOf string

record job_impl =
  ji_queue_set :: path
  ji_name :: name_expr
  ji_queue :: path
  ji_retry :: "retry_policy option"

definition derive_job :: "macro_env \<Rightarrow> derive_input \<Rightarrow> macro_error + job_impl" where
  "derive_job env input =
     (if di_generic input then Inl (Message ''generic job types are not supported'')
      else bind_res (parse_job_attr env (di_attrs input)) (\<lambda>attr.
           bind_res (job_core_path env attr) (\<lambda>core.
           case ja_queue attr of
             None \<Rightarrow> Inl (Message ''#[derive(Job)] requires `#[job(queue = MyQueues::Variant)]`'')
           | Some p \<Rightarrow> bind_res (queue_set_of p) (\<lambda>set.
               Inr \<lparr>ji_queue_set = set,
                 ji_name = (case ja_name attr of Some n \<Rightarrow> NameLit n | None \<Rightarrow> NameOf (di_ident input)),
                 ji_queue = p, ji_retry = map_option retry_tokens (ja_retry attr)\<rparr>))))"

text \<open>What the compiler makes of the implementation.\<close>

fun name_value :: "string \<Rightarrow> name_expr \<Rightarrow> string" where
  "name_value module_path (NameLit n) = n"
| "name_value module_path (NameOf i) = module_path @ ''::'' @ i"

definition compiled_job ::
  "string \<Rightarrow> ('j \<Rightarrow> string + json) \<Rightarrow> (json \<Rightarrow> string + 'j) \<Rightarrow> job_impl \<Rightarrow> ('j, string) job" where
  "compiled_job module_path tv fv impl = \<lparr>NAME = name_value module_path (ji_name impl),
     QUEUE = List.last (segments (ji_queue impl)), job_retry_policy = ji_retry impl,
     to_value = tv, from_value = fv\<rparr>"

section \<open>What the derive guarantees\<close>

definition job_written :: "job_attr \<Rightarrow> string set" where
  "job_written a = {k. if k = ''queue'' then ja_queue a \<noteq> None
     else if k = ''name'' then ja_name a \<noteq> None
     else if k = ''retry'' then ja_retry a \<noteq> None
     else k = ''crate'' \<and> ja_core a \<noteq> None}"

lemma job_item_cases: "job_item env m a = Inr a' \<Longrightarrow>
    (\<exists>v. fst m = ''queue'' \<and> ja_queue a = None \<and> a' = a\<lparr>ja_queue := Some v\<rparr>)
  \<or> (\<exists>v. fst m = ''name'' \<and> ja_name a = None \<and> trim v \<noteq> [] \<and> a' = a\<lparr>ja_name := Some v\<rparr>)
  \<or> (\<exists>v. fst m = ''retry'' \<and> ja_retry a = None \<and> sensible_policy (retry_tokens v) \<and> a' = a\<lparr>ja_retry := Some v\<rparr>)
  \<or> (\<exists>v. fst m = ''crate'' \<and> ja_core a = None \<and> a' = a\<lparr>ja_core := Some v\<rparr>)"
  unfolding job_item_def
  by (simp add: bind_res_Inr_iff set_once_Some reject_blank_def split: if_split_asm) (auto dest: parse_retry_sensible)

interpretation job_keys: keyed_items "job_item env" job_written for env
proof
  fix m a a'
  assume "job_item env m a = Inr a'"
  from job_item_cases [OF this]
  show "fst m \<notin> job_written a \<and> job_written a' = insert (fst m) (job_written a)"
    by (elim disjE exE conjE) (simp_all add: job_written_def set_eq_iff)
qed

definition job_attr_ok :: "job_attr \<Rightarrow> bool" where
  "job_attr_ok a \<longleftrightarrow> (case ja_name a of None \<Rightarrow> True | Some n \<Rightarrow> trim n \<noteq> [])
     \<and> (case ja_retry a of None \<Rightarrow> True | Some spec \<Rightarrow> sensible_policy (retry_tokens spec))"

lemma job_attrs_ok:
  assumes "attr_items (job_item env) x a = Inr a'" "job_attr_ok a"
  shows "job_attr_ok a'"
proof -
  have item: "job_attr_ok b \<Longrightarrow> job_item env m b = Inr b' \<Longrightarrow> job_attr_ok b'" for m b b'
    using job_item_cases [of env m b b'] by (auto simp: job_attr_ok_def)
  show ?thesis
  proof (cases "at_body x")
    case (AttrList ms)
    with assms(1) have "fold_items (job_item env) ms a = Inr a'" by (simp add: attr_items_def)
    then show ?thesis using assms(2) item by (rule fold_items_induct)
  qed (use assms in \<open>simp_all add: attr_items_def\<close>)
qed

lemma parse_job_attr_ok: "parse_job_attr env attrs = Inr a \<Longrightarrow> job_attr_ok a"
proof -
  assume "parse_job_attr env attrs = Inr a"
  then have "fold_items (attr_items (job_item env)) (filter (\<lambda>a. at_name a = ''job'') attrs) job_attr_default = Inr a"
    by (simp add: parse_job_attr_def)
  moreover have "job_attr_ok job_attr_default" by (simp add: job_attr_ok_def job_attr_default_def)
  ultimately show ?thesis by (rule fold_items_induct) (rule job_attrs_ok)
qed

lemma job_attr_keys: "parse_job_attr env attrs = Inr a \<Longrightarrow>
    distinct (written_keys ''job'' attrs) \<and> set (written_keys ''job'' attrs) \<subseteq> {''queue'', ''name'', ''retry'', ''crate''}"
proof -
  assume "parse_job_attr env attrs = Inr a"
  then have f: "fold_items (attr_items (job_item env)) (filter (\<lambda>a. at_name a = ''job'') attrs) job_attr_default = Inr a"
    by (simp add: parse_job_attr_def)
  have "job_written a \<subseteq> {''queue'', ''name'', ''retry'', ''crate''}" by (auto simp: job_written_def split: if_splits)
  with job_keys.attrs_record [OF f] show ?thesis unfolding written_keys_def by auto
qed

lemma derive_job_ok:
  assumes "derive_job env input = Inr impl"
  obtains attr where "parse_job_attr env (di_attrs input) = Inr attr" "ja_queue attr = Some (ji_queue impl)"
    "queue_set_of (ji_queue impl) = Inr (ji_queue_set impl)"
    "ji_name impl = (case ja_name attr of Some n \<Rightarrow> NameLit n | None \<Rightarrow> NameOf (di_ident input))"
    "ji_retry impl = map_option retry_tokens (ja_retry attr)"
  using assms by (auto simp: derive_job_def bind_res_Inr_iff split: option.splits if_splits)

lemma derived_retry_sensible: "derive_job env input = Inr impl \<Longrightarrow> ji_retry impl = Some p \<Longrightarrow> sensible_policy p"
  by (elim derive_job_ok) (auto simp: job_attr_ok_def split: option.splits dest: parse_job_attr_ok)

text \<open>an implementation the job derive generates is well-formed: its queue is a variant of the queue set it
  names, its name is not blank or is the path of the type, and its retry policy, when written, makes
  sense.\<close>

theorem derived_job_is_well_formed:
  assumes "derive_job env input = Inr impl"
  shows "segments (ji_queue_set impl) \<noteq> [] \<and> leading_colon (ji_queue_set impl) = leading_colon (ji_queue impl)
    \<and> segments (ji_queue impl) = segments (ji_queue_set impl) @ [QUEUE (compiled_job module_path tv fv impl)]
    \<and> (NAME (compiled_job module_path tv fv impl) = module_path @ ''::'' @ di_ident input
       \<or> trim (NAME (compiled_job module_path tv fv impl)) \<noteq> [])
    \<and> (case job_retry_policy (compiled_job module_path tv fv impl) of None \<Rightarrow> True | Some p \<Rightarrow> sensible_policy p)"
proof -
  from derive_job_ok [OF assms] obtain attr where a: "parse_job_attr env (di_attrs input) = Inr attr"
    "queue_set_of (ji_queue impl) = Inr (ji_queue_set impl)"
    "ji_name impl = (case ja_name attr of Some n \<Rightarrow> NameLit n | None \<Rightarrow> NameOf (di_ident input))" by metis
  have len: "2 \<le> length (segments (ji_queue impl))" and
    set: "ji_queue_set impl = (ji_queue impl)\<lparr>segments := butlast (segments (ji_queue impl))\<rparr>"
    using a(2) by (auto simp: queue_set_of_def split: if_splits)
  then have "segments (ji_queue impl) = segments (ji_queue_set impl) @ [List.last (segments (ji_queue impl))]"
    by (subst append_butlast_last_id [symmetric]) auto
  moreover have "segments (ji_queue_set impl) \<noteq> []"
    using len set by (cases "segments (ji_queue impl)" rule: rev_cases) auto
  moreover have "ji_name impl = NameOf (di_ident input) \<or> (\<exists>n. ji_name impl = NameLit n \<and> trim n \<noteq> [])"
    using a(3) parse_job_attr_ok [OF a(1)] by (auto simp: job_attr_ok_def split: option.splits)
  ultimately show ?thesis using set derived_retry_sensible [OF assms]
    by (auto simp: compiled_job_def split: option.split)
qed

text \<open>C38: an attribute is accepted only if each of its keys is written once, over all attributes of that name
  on the item, and is a key of the grammar; and an attribute of the other level is rejected: for the
  enum, for a variant, and for a job.\<close>

theorem keys_are_known_and_written_once:
  "(parse_container_attr env attrs = Inr c \<longrightarrow> distinct (written_keys ''queues'' attrs)
      \<and> set (written_keys ''queues'' attrs) \<subseteq> {''prefix'', ''crate''} \<and> (\<forall>a\<in>set attrs. at_name a \<noteq> ''queue''))
   \<and> (parse_queue_attr attrs = Inr q \<longrightarrow> distinct (written_keys ''queue'' attrs)
      \<and> set (written_keys ''queue'' attrs) \<subseteq> {''name'', ''prefetch'', ''durable'', ''message_ttl'', ''max_priority'', ''retry''}
      \<and> (\<forall>a\<in>set attrs. at_name a \<noteq> ''queues''))
   \<and> (parse_job_attr env attrs = Inr j \<longrightarrow> distinct (written_keys ''job'' attrs)
      \<and> set (written_keys ''job'' attrs) \<subseteq> {''queue'', ''name'', ''retry'', ''crate''})"
  using container_attr_keys [of env attrs c] queue_attr_keys [of attrs q] job_attr_keys [of env attrs j] by blast

section \<open>A derived application\<close>


section \<open>Witnesses\<close>

definition example_struct :: derive_input where
  "example_struct = \<lparr>di_ident = ''SendEmail'', di_variants = None, di_generic = False,
     di_attrs = [\<lparr>at_name = ''job'', at_body = AttrList
       [(''queue'', VPath \<lparr>leading_colon = False, segments = [''AppQueues'', ''Emails'']\<rparr>),
        (''retry'', VList [(''max_attempts'', VLit (LInt 5)), (''backoff'', VLit (LStr ''none''))])]\<rparr>]\<rparr>"

definition example_impl :: job_impl where
  "example_impl = \<lparr>ji_queue_set = \<lparr>leading_colon = False, segments = [''AppQueues'']\<rparr>,
     ji_name = NameOf ''SendEmail'', ji_queue = \<lparr>leading_colon = False, segments = [''AppQueues'', ''Emails'']\<rparr>,
     ji_retry = Some (policy_new 5 BackoffNone)\<rparr>"

lemma example_job_derive: "derive_job example_env example_struct = Inr example_impl"
proof -
  have p: "job_core_path example_env (job_attr_default\<lparr>ja_queue := q, ja_retry := r\<rparr>)
      = Inr \<lparr>leading_colon = True, segments = [''queuey_core'']\<rparr>" for q r
    by (simp add: job_core_path_def job_attr_default_def default_crate_path_def example_env_def)
  have "parse_job_attr example_env (di_attrs example_struct) = Inr (job_attr_default\<lparr>
      ja_queue := Some \<lparr>leading_colon = False, segments = [''AppQueues'', ''Emails'']\<rparr>,
      ja_retry := Some \<lparr>rs_max_attempts = 5, rs_backoff = SpecNone\<rparr>\<rparr>)"
    by (simp add: parse_job_attr_def example_struct_def attr_items_def job_item_def value_path_def set_once_def
        job_attr_default_def parse_retry_def retry_item_def lit_int_def lit_str_def value_lit_def raw_default_def
        finish_def finish_max_attempts_def finish_backoff_def finish_none_def map_or_def)
  with p show ?thesis
    by (simp add: derive_job_def example_struct_def job_attr_default_def queue_set_of_def example_impl_def
        retry_tokens_def)
qed

theorem derived_job_is_well_formed_witness:
  "segments (ji_queue example_impl) = segments (ji_queue_set example_impl) @ [''Emails'']"
  using derived_job_is_well_formed [OF example_job_derive, of "''app''" undefined undefined]
  by (simp add: compiled_job_def example_impl_def)

theorem keys_are_known_and_written_once_witness:
  "distinct (written_keys ''job'' (di_attrs example_struct))"
proof -
  obtain a where "parse_job_attr example_env (di_attrs example_struct) = Inr a"
    using example_job_derive by (auto elim: derive_job_ok)
  then show ?thesis using keys_are_known_and_written_once [where env = example_env and attrs = "di_attrs example_struct" and j = a] by blast
qed




end
