(* ===== verification/Rmq_Findings.thy ===== *)
theory Rmq_Findings
  imports Rmq_Properties
begin

text \<open>
  Three behaviours of \<open>crates/rabbitmq\<close> its documentation does not tell, each as a run of the model: a close
  that misses a reconnection under way (\<open>connection.rs\<close>), a stream that goes on after it has given up, and
  a declared queue that is the dead-letter queue of another (\<open>backend.rs\<close>).
\<close>

text \<open>A policy that allows two attempts, at once.\<close>

definition two_attempts :: reconnect_policy where
  "two_attempts a = Some (if at_failures a < 2 then Some 0 else None)"

definition impatient :: rmq_options where
  "impatient = set_reconnect (Some two_attempts) (options_default example_platform)"

lemma impatient_simps [simp]: "reconnect impatient = Some two_attempts"
    "two_attempts (attempt_of 0 None) = Some (Some 0)" "two_attempts (attempt_of 1 (Some e)) = Some (Some 0)"
    "two_attempts (attempt_of 2 (Some e)) = Some None"
  by (simp_all add: impatient_def set_reconnect_def two_attempts_def attempt_of_def attempt_first_def attempt_after_def)

section \<open>A close that misses a reconnection\<close>

text \<open>The first connection is gone, the broker can be dialled, and between the check of \<open>closing\<close> after the
  dial and the installation another task closes the backend.\<close>

definition racy_broker :: "(nat, json) lapin" where
  "racy_broker = (example_broker True)\<lparr>l_conn_up := (\<lambda>c w. (c \<noteq> 0, w)), l_idle := (\<lambda>w. ((), w + 1)),
     l_others := (\<lambda>w. (if w = 17 then [OtherCloses] else [], w))\<rparr>"

theorem close_can_miss_a_reconnection:
  "\<exists>t. ensure_connected racy_broker impatient (example_state\<lparr>configs := []\<rparr>) = Some (Inr 14, t)
     \<and> closing t \<and> current t = 14 \<and> log t = [EDial (Inr 14)]"
proof -
  note defs = racy_broker_def example_broker_def example_state_def ensure_connected_def live_def check_open_def is_closing_def
    pause_def await_def io_defs conn_up_def peek_def reconnect_loop_turn reconnect_once_def dial_def install_def
    install_connection_def redeclare_def
  show ?thesis by (simp add: defs)
qed

section \<open>A stream that goes on\<close>

lemma refused_dials: "\<exists>t. ensure_connected (example_broker False) impatient s
      = Some (Inl (into_core (ReconnectExhausted 2 (Some (OtherLapinError ''refused'')))), t)
    \<and> closing t = closing s \<and> dials (log t) = dials (log s) + 2" if "\<not> closing s"
proof -
  note defs = example_broker_def ensure_connected_def live_def check_open_def is_closing_def
    pause_def await_def io_defs conn_up_def peek_def reconnect_loop_turn reconnect_once_def dial_def
  show ?thesis using that by (simp add: defs)
qed

theorem exhausted_stream_dials_again:
  "\<exists>e t1 t2. stream_next (example_broker False) impatient example_consumer example_state
        = Some (Inr (Some (Inl e, example_consumer)), t1)
    \<and> stream_next (example_broker False) impatient example_consumer t1 = Some (Inr (Some (Inl e, example_consumer)), t2)
    \<and> e = into_core (ReconnectExhausted 2 (Some (OtherLapinError ''refused'')))
    \<and> dials (log t1) = 2 \<and> dials (log t2) = 4"
proof -
  have turn: "\<exists>t. stream_next (example_broker False) impatient example_consumer s
        = Some (Inr (Some (Inl (into_core (ReconnectExhausted 2 (Some (OtherLapinError ''refused'')))), example_consumer)), t)
      \<and> \<not> closing t \<and> dials (log t) = dials (log s) + 2" if "\<not> closing s" for s :: "(nat, json) rmq"
  proof -
    note o = that
    let ?e = "into_core (ReconnectExhausted 2 (Some (OtherLapinError ''refused'')))"
    obtain t where t: "ensure_connected (example_broker False) impatient s = Some (Inl ?e, t)"
      "closing t = closing s" "dials (log t) = dials (log s) + 2"
      using refused_dials [OF o] by blast
    then have r: "recover (example_broker False) impatient example_consumer s = Some (Inl ?e, t)"
      using that by (simp add: recover_def is_closing_def pause_def await_def io_defs close_consumer_channel_def chan_up_def
          example_broker_def recover_loop_def repeat_io.simps [of "recover_once L opts policy cs" for L opts policy cs]
          recover_once_def)
    have "l_next (example_broker False) c w = (None, w)" "l_others (example_broker False) w = ([], w)" for c w
      by (simp_all add: example_broker_def)
    then have "stream_next (example_broker False) impatient example_consumer s
        = Some (Inr (Some (Inl ?e, example_consumer)), t)"
      by (simp add: stream_next_def repeat_io.simps [of "stream_turn L opts" for L opts] stream_turn_def await_def
          io_defs r)
    with t that show ?thesis by simp
  qed
  have s: "\<not> closing example_state" "dials (log example_state) = 0" by (simp_all add: example_state_def)
  from turn [OF s(1)] obtain t1 where t1: "stream_next (example_broker False) impatient example_consumer example_state
        = Some (Inr (Some (Inl (into_core (ReconnectExhausted 2 (Some (OtherLapinError ''refused'')))), example_consumer)), t1)"
      "\<not> closing t1" "dials (log t1) = 2" using s(2) by auto
  from turn [OF t1(2)] t1(3) obtain t2 where "stream_next (example_broker False) impatient example_consumer t1
        = Some (Inr (Some (Inl (into_core (ReconnectExhausted 2 (Some (OtherLapinError ''refused'')))), example_consumer)), t2)"
      "dials (log t2) = 4" by auto
  with t1 show ?thesis by blast
qed

section \<open>Queue sets whose names collide\<close>

text \<open>A queue without priorities, named like the dead-letter queue of \<open>jobs\<close>: the declaration goes through,
  and declares that one queue twice with the same arguments.\<close>

definition jobs_queue :: queue_config where "jobs_queue = queue_config_new ''jobs''"
definition jobs_dead_queue :: queue_config where
  "jobs_dead_queue = set_max_priority 0 (queue_config_new ''jobs.dead'')"

lemma colliding_names: "qc_name jobs_queue = ''jobs''" "qc_name jobs_dead_queue = ''jobs.dead''"
    "durable jobs_queue" "durable jobs_dead_queue" "queue_args jobs_dead_queue = Map.empty"
  by (simp_all add: jobs_queue_def jobs_dead_queue_def queue_config_new_def set_max_priority_def queue_args_def)

lemma colliding_names_ok: "check_deferrable_name ''jobs'' ''.deferred'' = Inr ()"
    "check_deferrable_name ''jobs.dead'' ''.deferred'' = Inr ()"
  by (simp_all add: check_deferrable_name_def deferred_queue_name_def show_nat.simps MAX_SHORT_STRING_LENGTH_def)

theorem queue_sets_can_collide:
  "\<exists>t. rmq_declare (example_broker True) (options_default example_platform) [jobs_queue, jobs_dead_queue] example_state
        = Some (Inr (), t)
     \<and> [(n, dopts, args). EDeclare ch n dopts args r \<leftarrow> log t]
       = [(''jobs'', declare_options True, queue_args jobs_queue), (''jobs.dead'', declare_options True, Map.empty),
          (''jobs.dead'', declare_options True, Map.empty), (''jobs.dead.dead'', declare_options True, Map.empty)]"
proof -
  note defs = rmq_declare_one_def declare_topology_def queue_declare_def remember_def dead_queue_name_def short_string_def
    dead_queue_args_def ensure_connected_def live_def check_open_def is_closing_def pause_def await_def io_defs conn_up_def
    peek_def create_channel_def or_amqp_def close_if_up_def chan_up_def close_chan_def catch_def lift_res_def
    DEFAULT_DEAD_SUFFIX_def DEFAULT_DEFERRED_SUFFIX_def MAX_SHORT_STRING_LENGTH_def options_default_def
    example_broker_def example_state_def
  show ?thesis by (simp add: rmq_declare_def defs colliding_names colliding_names_ok)
qed

end
