(* ===== verification/Retry_Json.thy ===== *)
theory Retry_Json
  imports Envelope
begin

text \<open>
  The JSON form of a retry policy, which the \<open>serde\<close> derives on \<open>RetryPolicy\<close> and \<open>Backoff\<close>
  (\<open>crates/core/src/retry.rs\<close>) fix: a policy is often persisted, so what an older build wrote has to keep
  reading. A struct is an object of its fields (read from an array in declaration order too), an enum is
  externally tagged: a unit variant is its name, any other an object with the one key that is its name.
  The form of a \<open>Duration\<close> is the \<open>serde\<close> crate's and a parameter. JSON has no infinities and no NaN:
  \<open>serde_json\<close> writes them as \<open>null\<close>, which no number is read from.
\<close>

record duration_serde =
  duration_to_json :: "duration \<Rightarrow> json"
  duration_of_json :: "json \<Rightarrow> duration option"

definition duration_serde_ok :: "duration_serde \<Rightarrow> bool" where
  "duration_serde_ok w \<longleftrightarrow> (\<forall>d \<le> duration_max. duration_of_json w (duration_to_json w d) = Some d)"

definition f64_to_json :: "f64 \<Rightarrow> json" where
  "f64_to_json f = (if is_finite f then JFloat f else JNull)"

definition f64_of_json :: "json \<Rightarrow> f64 option" where
  "f64_of_json j = (case j of JFloat f \<Rightarrow> Some f | JInt n \<Rightarrow> Some (round_f64 (of_int n)) | _ \<Rightarrow> None)"

definition read_bool :: "json \<Rightarrow> bool option" where
  "read_bool j = (case j of JBool b \<Rightarrow> Some b | _ \<Rightarrow> None)"

section \<open>Writing\<close>

fun backoff_to_json :: "duration_serde \<Rightarrow> backoff \<Rightarrow> json" where
  "backoff_to_json w BackoffNone = JStr ''None''"
| "backoff_to_json w (Fixed d) = JObj [(''Fixed'', duration_to_json w d)]"
| "backoff_to_json w (Exponential b f m j) = JObj [(''Exponential'', JObj
     [(''base'', duration_to_json w b), (''factor'', f64_to_json f), (''max'', duration_to_json w m),
      (''jitter'', JBool j)])]"

definition policy_to_json :: "duration_serde \<Rightarrow> retry_policy \<Rightarrow> json" where
  "policy_to_json w p = JObj [(''max_attempts'', JInt (uint (max_attempts p))),
     (''backoff'', backoff_to_json w (backoff p))]"

section \<open>Reading\<close>

text \<open>The fields of a struct, from an object or from an array of exactly as many elements.\<close>

definition struct_fields :: "string list \<Rightarrow> json \<Rightarrow> 'b error + (string \<times> json) list" where
  "struct_fields names j = (case j of
       JObj kvs \<Rightarrow> Inr kvs
     | JArr vs \<Rightarrow> (if length vs = length names then Inr (zip names vs) else Inl (Serde ''invalid length''))
     | _ \<Rightarrow> Inl (Serde ''invalid type''))"

definition exponential_of_json :: "duration_serde \<Rightarrow> json \<Rightarrow> 'b error + backoff" where
  "exponential_of_json w j = bind_res (struct_fields [''base'', ''factor'', ''max'', ''jitter''] j) (\<lambda>kvs.
     bind_res (required (field ''base'' kvs) (duration_of_json w)) (\<lambda>b.
     bind_res (required (field ''factor'' kvs) f64_of_json) (\<lambda>f.
     bind_res (required (field ''max'' kvs) (duration_of_json w)) (\<lambda>m.
     bind_res (required (field ''jitter'' kvs) read_bool) (\<lambda>jit.
       Inr (Exponential b f m jit))))))"

definition backoff_of_json :: "duration_serde \<Rightarrow> json \<Rightarrow> 'b error + backoff" where
  "backoff_of_json w j = (case j of
       JStr v \<Rightarrow> (if v = ''None'' then Inr BackoffNone else Inl (Serde ''invalid type or unknown variant''))
     | JObj [(v, content)] \<Rightarrow>
         (if v = ''None'' then (if content = JNull then Inr BackoffNone else Inl (Serde ''invalid type''))
          else if v = ''Fixed'' then (case duration_of_json w content of
              Some d \<Rightarrow> Inr (Fixed d) | None \<Rightarrow> Inl (Serde ''invalid type or value''))
          else if v = ''Exponential'' then exponential_of_json w content
          else Inl (Serde ''unknown variant''))
     | _ \<Rightarrow> Inl (Serde ''expected value''))"

definition policy_of_json :: "duration_serde \<Rightarrow> json \<Rightarrow> 'b error + retry_policy" where
  "policy_of_json w j = bind_res (struct_fields [''max_attempts'', ''backoff''] j) (\<lambda>kvs.
     bind_res (required (field ''max_attempts'' kvs) read_uint) (\<lambda>n.
     bind_res (field ''backoff'' kvs) (\<lambda>v. case v of
         None \<Rightarrow> Inl (Serde ''missing field'')
       | Some b \<Rightarrow> bind_res (backoff_of_json w b) (\<lambda>b. Inr \<lparr>max_attempts = n, backoff = b\<rparr>))))"

section \<open>The round trip\<close>

text \<open>The durations of a backoff are ones the type has; its factor is a number.\<close>

fun representable :: "backoff \<Rightarrow> bool" where
  "representable BackoffNone = True"
| "representable (Fixed d) \<longleftrightarrow> d \<le> duration_max"
| "representable (Exponential b f m j) \<longleftrightarrow> b \<le> duration_max \<and> m \<le> duration_max"

fun finite_factor :: "backoff \<Rightarrow> bool" where
  "finite_factor (Exponential b f m j) = is_finite f"
| "finite_factor _ = True"

lemma field_simps [simp]:
  "field k [] = Inr None"
  "field k ((k, v) # kvs) = (if k \<in> fst ` set kvs then Inl (Serde ''duplicate field'') else Inr (Some v))"
  "k' \<noteq> k \<Longrightarrow> field k ((k', v) # kvs) = field k kvs"
proof -
  show "field k ((k, v) # kvs) = (if k \<in> fst ` set kvs then Inl (Serde ''duplicate field'') else Inr (Some v))"
  proof (cases "filter (\<lambda>kv. fst kv = k) kvs")
    case Nil
    then have "k \<notin> fst ` set kvs" by (auto simp: filter_empty_conv)
    with Nil show ?thesis by (simp add: field_def)
  next
    case (Cons x xs)
    then have "x \<in> set (filter (\<lambda>kv. fst kv = k) kvs)" by simp
    then have "k \<in> fst ` set kvs" by auto
    with Cons show ?thesis by (simp add: field_def)
  qed
qed (simp_all add: field_def)

lemma exponential_round_trip:
  assumes "duration_serde_ok w" "b \<le> duration_max" "m \<le> duration_max"
  shows "exponential_of_json w (JObj [(''base'', duration_to_json w b), (''factor'', f64_to_json f),
      (''max'', duration_to_json w m), (''jitter'', JBool j)])
    = (if is_finite f then Inr (Exponential b f m j) else Inl (Serde ''invalid type or value''))"
  using assms by (simp add: exponential_of_json_def struct_fields_def duration_serde_ok_def read_bool_def
      f64_to_json_def f64_of_json_def)

text \<open>C26: a policy that was turned into a \<open>serde_json::Value\<close> reads back from it as the policy it was,
  whatever its attempts, its backoff and its durations, exactly when its factor is a number: a policy
  with an infinite factor or NaN, which \<open>delay_for\<close> tolerates, becomes a document that no longer reads.\<close>

theorem persisted_policy_round_trip:
  assumes "duration_serde_ok w" and "representable (backoff p)"
  shows "policy_of_json w (policy_to_json w p)
    = (if finite_factor (backoff p) then Inr p else Inl (Serde ''invalid type or value''))"
proof (cases "backoff p")
  case (Exponential b f m j)
  with assms show ?thesis
    by (simp add: policy_of_json_def policy_to_json_def struct_fields_def backoff_of_json_def exponential_round_trip)
qed (use assms in \<open>simp_all add: policy_of_json_def policy_to_json_def struct_fields_def backoff_of_json_def
    duration_serde_ok_def\<close>)

text \<open>The form the standard library's \<open>Duration\<close> has in \<open>serde\<close>: seconds and nanoseconds.\<close>

definition secs_and_nanos :: duration_serde where
  "secs_and_nanos = \<lparr>
     duration_to_json = (\<lambda>d. JObj [(''secs'', JInt (int (d div nanos_per_sec))),
       (''nanos'', JInt (int (d mod nanos_per_sec)))]),
     duration_of_json = (\<lambda>j. case j of
         JObj [(s, JInt secs), (n, JInt nanos)] \<Rightarrow>
           (if s = ''secs'' \<and> n = ''nanos'' \<and> 0 \<le> secs \<and> 0 \<le> nanos \<and> nanos < 2 ^ 32
               \<and> nat secs * nanos_per_sec + nat nanos \<le> duration_max
            then Some (nat secs * nanos_per_sec + nat nanos) else None)
       | _ \<Rightarrow> None)\<rparr>"

lemma secs_and_nanos_ok: "duration_serde_ok secs_and_nanos"
proof -
  have "d mod nanos_per_sec < nanos_per_sec" for d by (simp add: nanos_per_sec_def)
  then have "int (d mod nanos_per_sec) < int nanos_per_sec" for d by (simp only: of_nat_less_iff)
  then have small: "int (d mod nanos_per_sec) < 2 ^ 32" for d
    by (rule order_less_trans) (simp add: nanos_per_sec_def)
  show ?thesis using small by (simp add: duration_serde_ok_def secs_and_nanos_def)
qed

theorem persisted_policy_round_trip_witness:
  "policy_of_json secs_and_nanos (policy_to_json secs_and_nanos (policy_exponential 5))
     = (Inr (policy_exponential 5) :: unit error + retry_policy)"
  using persisted_policy_round_trip [OF secs_and_nanos_ok, of "policy_exponential 5", where ?'a = unit]
  by (simp add: policy_exponential_def exponential_def exponential_with_def is_finite_def duration_max_def
      from_secs_def nanos_per_sec_def)

end
