(* ===== verification/Retry_Tests.thy ===== *)
theory Retry_Tests
  imports Retry_Json
begin

text \<open>
  The unit tests of \<open>crates/core/src/retry.rs\<close>, each as the boolean its assertions come to, and the proof
  that it holds of the model. What the tests take from the platform is the argument \<open>p\<close>: the proofs ask
  of \<open>powf\<close> that it is exact where the result is a power of two, and of the random numbers that they
  lie in their range. A loop of draws is a list of platforms, one for each draw. The text of a JSON
  document is compared as the value it is read as.
\<close>

definition exact_pow :: "platform \<Rightarrow> bool" where
  "exact_pow p \<longleftrightarrow> pow_ok p
     \<and> (\<forall>k < 1024. powf p (Fin 2) (Fin (of_nat k)) = Fin (2 ^ k))
     \<and> powf p (Fin 2) (Fin 4294967294) = PInf
     \<and> powf p (Fin (1 / 2)) (Fin 1) = Fin (1 / 2)
     \<and> powf p (Fin (1 / 2)) (Fin 4294967294) = Fin 0"

abbreviation u32_MAX :: u32 where "u32_MAX \<equiv> 4294967295"

abbreviation MS :: "nat \<Rightarrow> duration" where "MS \<equiv> from_millis"

section \<open>The curves\<close>

definition none_is_zero :: "platform \<Rightarrow> bool" where
  "none_is_zero p \<longleftrightarrow> delay_for p BackoffNone 1 = Some 0 \<and> delay_for p BackoffNone 0 = Some 0
     \<and> delay_for p BackoffNone u32_MAX = Some 0"

definition fixed_is_constant :: "platform \<Rightarrow> bool" where
  "fixed_is_constant p \<longleftrightarrow> (let b = Fixed (MS 250) in
     list_all (\<lambda>attempt. delay_for p b attempt = Some (MS 250)) [0, 1, 2, 7, u32_MAX])"

definition exponential_first_attempt_is_base :: "platform \<Rightarrow> bool" where
  "exponential_first_attempt_is_base p \<longleftrightarrow>
     (let b = Exponential (MS 500) (Fin 3) (from_secs 600) False in delay_for p b 1 = Some (MS 500))"

definition exponential_grows_by_factor :: "platform \<Rightarrow> bool" where
  "exponential_grows_by_factor p \<longleftrightarrow>
     (let b = Exponential (from_secs 1) (Fin 2) (from_secs 600) False
      in delay_for p b 1 = Some (from_secs 1) \<and> delay_for p b 2 = Some (from_secs 2)
       \<and> delay_for p b 3 = Some (from_secs 4) \<and> delay_for p b 4 = Some (from_secs 8))"

definition exponential_respects_cap :: "platform \<Rightarrow> bool" where
  "exponential_respects_cap p \<longleftrightarrow>
     (let m = from_secs 10; b = Exponential (from_secs 1) (Fin 2) m False
      in delay_for p b 5 = Some (from_secs 10) \<and> delay_for p b 50 = Some m \<and> delay_for p b u32_MAX = Some m)"

definition exponential_attempt_zero_is_base :: "platform \<Rightarrow> bool" where
  "exponential_attempt_zero_is_base p \<longleftrightarrow>
     (let b = Exponential (MS 120) (Fin 2) (from_secs 60) False in delay_for p b 0 = Some (MS 120))"

definition exponential_handles_degenerate_factors :: "platform \<Rightarrow> bool" where
  "exponential_handles_degenerate_factors p \<longleftrightarrow> (let m = from_secs 60 in
     list_all (\<lambda>f. let b = Exponential (MS 100) f m False in
         list_all (\<lambda>attempt. case delay_for p b attempt of None \<Rightarrow> False | Some d \<Rightarrow> d \<le> m) [0, 1, 2, 1000, u32_MAX]
       \<and> delay_for p b 3 = Some (MS 100))
       [NaN, PInf, NInf, Fin 0, Fin (- 2)])"

definition exponential_shrinking_factor_never_underflows :: "platform \<Rightarrow> bool" where
  "exponential_shrinking_factor_never_underflows p \<longleftrightarrow>
     (let b = Exponential (from_secs 1) (Fin (1 / 2)) (from_secs 60) False
      in delay_for p b 2 = Some (MS 500) \<and> delay_for p b u32_MAX = Some 0)"

definition exponential_zero_base_or_max_is_zero :: "platform \<Rightarrow> bool" where
  "exponential_zero_base_or_max_is_zero p \<longleftrightarrow>
     (let a = Exponential 0 (Fin 2) (from_secs 60) True; b = Exponential (from_secs 1) (Fin 2) 0 False
      in list_all (\<lambda>attempt. delay_for p a attempt = Some 0 \<and> delay_for p b attempt = Some 0) [0, 1, 9, u32_MAX])"

text \<open>The two thousand draws of each delay; the last assertion is about the luck of the draws.\<close>

definition jitter_stays_within_bounds :: "platform list \<Rightarrow> bool" where
  "jitter_stays_within_bounds ps \<longleftrightarrow>
     (let m = from_secs 30; b = Exponential (from_secs 1) (Fin 2) m True
      in list_all (\<lambda>p. (case delay_for p b 3 of None \<Rightarrow> False | Some d \<Rightarrow> d \<le> from_secs 4)
           \<and> (case delay_for p b 99 of None \<Rightarrow> False | Some capped \<Rightarrow> capped \<le> m)) ps
       \<and> list_ex (\<lambda>p. case delay_for p b 3 of None \<Rightarrow> False | Some d \<Rightarrow> d < from_secs 4) ps)"

definition jitter_is_not_constant :: "platform \<Rightarrow> platform list \<Rightarrow> bool" where
  "jitter_is_not_constant p ps \<longleftrightarrow> (let b = Exponential (from_secs 10) (Fin 2) (from_secs 600) True;
       first = delay_for p b 4
     in list_ex (\<lambda>q. delay_for q b 4 \<noteq> first) ps)"

definition huge_attempts_do_not_panic_with_jitter :: "platform \<Rightarrow> bool" where
  "huge_attempts_do_not_panic_with_jitter p \<longleftrightarrow> list_all (\<lambda>attempt. case delay_for p exponential attempt of
       None \<Rightarrow> False | Some d \<Rightarrow> d \<le> from_secs 300) [0, 1, u32_MAX div 2, u32_MAX]"

section \<open>Decisions\<close>

definition retry_decision_retry :: "duration \<Rightarrow> retry_decision" where
  "retry_decision_retry d = Retry d"

definition decide_single_attempt_gives_up_immediately :: "platform \<Rightarrow> bool" where
  "decide_single_attempt_gives_up_immediately pl \<longleftrightarrow>
     (let p = policy_new 1 (Fixed (from_secs 1)) in decide pl p 1 = Some GiveUp)"

definition decide_boundaries_for_three_attempts :: "platform \<Rightarrow> bool" where
  "decide_boundaries_for_three_attempts pl \<longleftrightarrow> (let p = policy_new 3 (Fixed (from_secs 2)) in
     decide pl p 1 = Some (Retry (from_secs 2)) \<and> decide pl p 2 = Some (Retry (from_secs 2))
     \<and> decide pl p 3 = Some GiveUp \<and> decide pl p 4 = Some GiveUp \<and> decide pl p u32_MAX = Some GiveUp)"

definition default_policy_has_no_retries :: "platform \<Rightarrow> bool" where
  "default_policy_has_no_retries pl \<longleftrightarrow> (let p = default_policy in
     max_attempts p = 1 \<and> backoff p = BackoffNone \<and> decide pl p 1 = Some GiveUp)"

definition the_constructor_and_the_struct_literal_agree :: bool where
  "the_constructor_and_the_struct_literal_agree \<longleftrightarrow>
     exponential_with (MS 250) (Fin (3 / 2)) (from_secs 60) False = Exponential (MS 250) (Fin (3 / 2)) (from_secs 60) False
     \<and> exponential = exponential_with (from_secs 1) (Fin 2) (from_secs 300) True"

definition retry_decision_constructor_matches_what_decide_returns :: "platform \<Rightarrow> bool" where
  "retry_decision_constructor_matches_what_decide_returns pl \<longleftrightarrow>
     (let p = policy_fixed 3 (from_secs 2) in decide pl p 1 = Some (retry_decision_retry (from_secs 2)))"

definition decide_uses_the_failed_attempt_for_the_delay :: "platform \<Rightarrow> bool" where
  "decide_uses_the_failed_attempt_for_the_delay pl \<longleftrightarrow>
     (let p = policy_new 5 (Exponential (from_secs 1) (Fin 2) (from_secs 600) False)
      in decide pl p 1 = Some (Retry (from_secs 1)) \<and> decide pl p 3 = Some (Retry (from_secs 4)))"

definition todays_policy_json_round_trips_byte_for_byte :: "duration_serde \<Rightarrow> bool" where
  "todays_policy_json_round_trips_byte_for_byte w \<longleftrightarrow>
     (let JSON = JObj [(''max_attempts'', JInt 5), (''backoff'', JObj [(''Exponential'', JObj
            [(''base'', duration_to_json w (from_secs 1)), (''factor'', JFloat (Fin 2)),
             (''max'', duration_to_json w (from_secs 300)), (''jitter'', JBool True)])])];
          policy = policy_exponential 5
      in policy_to_json w policy = JSON \<and> policy_of_json w JSON = (Inr policy :: unit error + retry_policy)
       \<and> list_all (\<lambda>b. let policy = policy_new 2 b; text = policy_to_json w policy
           in policy_of_json w text = (Inr policy :: unit error + retry_policy)) [BackoffNone, Fixed (MS 500)]
       \<and> backoff_to_json w BackoffNone = JStr ''None''
       \<and> backoff_to_json w (Fixed (MS 500)) = JObj [(''Fixed'', duration_to_json w (MS 500))])"

section \<open>They hold\<close>

lemmas duration_units = from_secs_def from_millis_def nanos_per_sec_def nanos_per_milli_def

lemma u32_MAX_bounds: "1 \<le> u32_MAX" "(3::u32) \<le> u32_MAX" "unat u32_MAX = 4294967295"
  by (simp_all add: word_le_nat_alt)

lemma delay_for_doubling:
  assumes "exact_pow p" "1 \<le> n" "unat n \<le> 53" "m < 2 ^ 22 * nanos_per_sec"
  shows "delay_for p (Exponential (from_secs 1) (Fin 2) m False) n = Some (min (from_secs (2 ^ (unat n - 1))) m)"
proof -
  have "(2::nat) ^ (unat n - 1) < 2 ^ 53" using assms(2,3) by (intro power_strict_increasing) (auto simp: word_le_nat_alt)
  then show ?thesis using doubling_delay [of p n 1 m] assms
    by (simp add: exact_pow_def from_secs_def mult.commute)
qed

lemma exponent_max: "round_f64 (of_nat (unat (max u32_MAX 1 - 1))) = Fin 4294967294"
proof -
  have "max u32_MAX 1 = u32_MAX" by (simp add: max_def word_le_nat_alt)
  then show ?thesis using round_f64_of_nat [of 4294967294] by simp
qed

lemma secs_one: "as_secs_f64 (from_secs 1) = Fin 1"
proof -
  have "round_f64 1 = Fin 1" "round_f64 0 = Fin 0" using round_f64_of_nat [of 1] by (simp_all add: round_f64_def)
  then show ?thesis by (simp add: as_secs_f64_def from_secs_def nanos_per_sec_def)
qed

lemma delay_for_within:
  "rng_ok p \<Longrightarrow> (case delay_for p (Exponential b f m j) n of None \<Rightarrow> False | Some d \<Rightarrow> d \<le> m)"
  using delay_for_at_most [of p b f m j n] by auto

lemma huge_doubling:
  assumes "exact_pow p" "0 < m"
  shows "delay_for p (Exponential (from_secs 1) (Fin 2) m False) u32_MAX = Some m"
proof -
  have "delay_for p (Exponential (from_secs 1) (Fin 2) m False) u32_MAX = exponential_delay p (from_secs 1) (Fin 2) m u32_MAX"
    by (simp add: delay_for_def split: option.split)
  also have "\<dots> = Some m"
    using assms unfolding exponential_delay_def Let_def exponent_max secs_one
    by (simp add: exact_pow_def is_finite_def from_secs_def nanos_per_sec_def signed_inf_def)
  finally show ?thesis .
qed

lemma constant_curves_pass: "none_is_zero p" "fixed_is_constant p"
  by (simp_all add: none_is_zero_def fixed_is_constant_def delay_for_def)

lemma base_delays_pass:
  assumes "exact_pow p"
  shows "exponential_first_attempt_is_base p" "exponential_attempt_zero_is_base p"
proof -
  have "pow_ok p" using assms by (simp add: exact_pow_def)
  then show "exponential_first_attempt_is_base p" "exponential_attempt_zero_is_base p"
    by (simp_all add: exponential_first_attempt_is_base_def exponential_attempt_zero_is_base_def
        backoff_base_delay_exact duration_units)
qed

lemma doubling_curves_pass:
  assumes "exact_pow p"
  shows "exponential_grows_by_factor p" "exponential_respects_cap p"
proof -
  note d = delay_for_doubling [OF assms]
  show "exponential_grows_by_factor p"
    using d [of 1 "from_secs 600"] d [of 2 "from_secs 600"] d [of 3 "from_secs 600"] d [of 4 "from_secs 600"]
    by (simp add: exponential_grows_by_factor_def from_secs_def nanos_per_sec_def)
  show "exponential_respects_cap p"
    using d [of 5 "from_secs 10"] d [of 50 "from_secs 10"] huge_doubling [OF assms, of "from_secs 10"]
    by (simp add: exponential_respects_cap_def from_secs_def nanos_per_sec_def)
qed

lemma degenerate_factors_pass:
  assumes "pow_ok p" "rng_ok p"
  shows "exponential_handles_degenerate_factors p"
proof -
  have "delay_for p (Exponential (MS 100) f (from_secs 60) False) 3 = Some (MS 100)"
    if "\<not> (is_finite f \<and> flt (Fin 0) f)" for f
    using backoff_base_delay_exact [OF assms(1), of "MS 100" "from_secs 60" 3 f] that by (simp add: duration_units)
  with delay_for_within [OF assms(2)] show ?thesis
    by (simp add: exponential_handles_degenerate_factors_def is_finite_def)
qed

lemma shrinking_factor_passes:
  assumes "exact_pow p"
  shows "exponential_shrinking_factor_never_underflows p"
proof -
  have half: "fmul (Fin 1) (Fin (1 / 2)) = Fin (1 / 2)" "is_finite (Fin (1 / 2))"
    using round_f64_grid [of 1 "- 1"] by (simp_all add: is_finite_def f64_limit_def)
  have "round_f64 1 = Fin 1" using round_f64_of_nat [of 1] by simp
  with assms half have "fmul (as_secs_f64 (from_secs 1))
      (powf p (if is_finite (Fin (1 / 2)) \<and> flt (Fin 0) (Fin (1 / 2)) then Fin (1 / 2) else Fin 1)
         (round_f64 (of_nat (unat (max 2 1 - 1 :: u32))))) = Fin (1 / 2)"
    unfolding secs_one by (simp add: exact_pow_def max_def word_le_nat_alt)
  then have "exponential_delay p (from_secs 1) (Fin (1 / 2)) (from_secs 60) 2 = Some (min (MS 500) (from_secs 60))"
    by (rule exponential_delay_exact [rotated 3]) (simp_all add: duration_units)
  moreover have "fmul (as_secs_f64 (from_secs 1))
      (powf p (if is_finite (Fin (1 / 2)) \<and> flt (Fin 0) (Fin (1 / 2)) then Fin (1 / 2) else Fin 1)
         (round_f64 (of_nat (unat (max u32_MAX 1 - 1))))) = Fin 0"
    using assms half(2) unfolding exponent_max secs_one by (simp add: exact_pow_def round_f64_def)
  then have "exponential_delay p (from_secs 1) (Fin (1 / 2)) (from_secs 60) u32_MAX = Some (min 0 (from_secs 60))"
    by (rule exponential_delay_exact [rotated 3]) (simp_all add: duration_units)
  ultimately show ?thesis
    by (simp add: exponential_shrinking_factor_never_underflows_def delay_for_def duration_units)
qed

lemma zero_base_or_max_passes: "exponential_zero_base_or_max_is_zero p"
  by (simp add: exponential_zero_base_or_max_is_zero_def delay_for_def exponential_delay_def full_jitter_def
      as_secs_f64_def round_f64_def Let_def)

text \<open>The two luck-of-the-draw assertions hold of draws that are not all the largest, or all the same.\<close>

lemma jitter_passes:
  assumes "\<forall>p\<in>set ps. exact_pow p \<and> rng_ok p"
    and "\<exists>p\<in>set ps. \<exists>d. full_jitter p (from_secs 4) = Some d \<and> d < from_secs 4"
  shows "jitter_stays_within_bounds ps"
proof -
  have four: "exponential_delay p (from_secs 1) (Fin 2) (from_secs 30) 3 = Some (from_secs 4)" if "exact_pow p" for p
    using delay_for_doubling [OF that, of 3 "from_secs 30"]
    by (auto simp: delay_for_def from_secs_def nanos_per_sec_def split: option.splits)
  have jit: "delay_for p (Exponential (from_secs 1) (Fin 2) (from_secs 30) True) 3 = full_jitter p (from_secs 4)"
    if "exact_pow p" for p using four [OF that] by (simp add: delay_for_def)
  have "case delay_for p (Exponential (from_secs 1) (Fin 2) (from_secs 30) True) 3 of None \<Rightarrow> False
      | Some d \<Rightarrow> d \<le> from_secs 4" if "p \<in> set ps" for p
  proof -
    have "exact_pow p" "rng_ok p" using assms(1) that by simp_all
    with jit [of p] full_jitter_total [of p "from_secs 4"] show ?thesis by auto
  qed
  moreover have "\<exists>p\<in>set ps. case delay_for p (Exponential (from_secs 1) (Fin 2) (from_secs 30) True) 3 of
      None \<Rightarrow> False | Some d \<Rightarrow> d < from_secs 4"
  proof -
    from assms(2) obtain p d where "p \<in> set ps" "full_jitter p (from_secs 4) = Some d" "d < from_secs 4" by blast
    with assms(1) jit show ?thesis by (intro bexI [of _ p]) simp_all
  qed
  ultimately show ?thesis
    using assms(1) delay_for_within by (auto simp: jitter_stays_within_bounds_def list_all_iff list_ex_iff Let_def)
qed

lemma jitter_varies:
  "\<exists>q\<in>set ps. delay_for q (Exponential (from_secs 10) (Fin 2) (from_secs 600) True) 4
      \<noteq> delay_for p (Exponential (from_secs 10) (Fin 2) (from_secs 600) True) 4 \<Longrightarrow> jitter_is_not_constant p ps"
  by (auto simp: jitter_is_not_constant_def list_ex_iff Let_def)

lemma huge_attempts_pass: "rng_ok p \<Longrightarrow> huge_attempts_do_not_panic_with_jitter p"
  using delay_for_within [of p] by (simp add: huge_attempts_do_not_panic_with_jitter_def exponential_def exponential_with_def)

lemma decisions_pass:
  "decide_single_attempt_gives_up_immediately p" "decide_boundaries_for_three_attempts p"
  "default_policy_has_no_retries p" "the_constructor_and_the_struct_literal_agree"
  "retry_decision_constructor_matches_what_decide_returns p"
proof -
  have "\<not> u32_MAX \<le> 2" "(3::u32) \<le> u32_MAX" by (simp_all add: word_le_nat_alt)
  moreover have "\<not> (3::u32) \<le> 1" "\<not> (3::u32) \<le> 2" "(3::u32) \<le> 4" by (simp_all add: word_le_nat_alt)
  ultimately show "decide_boundaries_for_three_attempts p"
    "retry_decision_constructor_matches_what_decide_returns p"
    by (simp_all add: decide_boundaries_for_three_attempts_def retry_decision_constructor_matches_what_decide_returns_def
        retry_decision_retry_def decide_def policy_new_def policy_fixed_def delay_for_def)
qed (simp_all add: decide_single_attempt_gives_up_immediately_def default_policy_has_no_retries_def policy_new_def
    default_policy_def decide_def the_constructor_and_the_struct_literal_agree_def exponential_def exponential_with_def)

lemma decide_uses_the_failed_attempt_passes:
  assumes "exact_pow p"
  shows "decide_uses_the_failed_attempt_for_the_delay p"
proof -
  have "\<not> (5::u32) \<le> 1" "\<not> (5::u32) \<le> 3" by (simp_all add: word_le_nat_alt)
  then show ?thesis
    using delay_for_doubling [OF assms, of 1 "from_secs 600"] delay_for_doubling [OF assms, of 3 "from_secs 600"]
    by (simp add: decide_uses_the_failed_attempt_for_the_delay_def decide_def policy_new_def from_secs_def nanos_per_sec_def)
qed

lemma policy_json_passes:
  assumes "duration_serde_ok w"
  shows "todays_policy_json_round_trips_byte_for_byte w"
proof -
  have read: "policy_of_json w (policy_to_json w q) = (Inr q :: unit error + retry_policy)"
    if "q \<in> {policy_exponential 5, policy_new 2 BackoffNone, policy_new 2 (Fixed (MS 500))}" for q
    using persisted_policy_round_trip [OF assms, of q, where ?'a = unit] that
    by (auto simp: policy_exponential_def policy_new_def exponential_def exponential_with_def is_finite_def duration_max_def
        duration_units)
  have doc: "policy_to_json w (policy_exponential 5) = JObj [(''max_attempts'', JInt 5), (''backoff'', JObj [(''Exponential'',
      JObj [(''base'', duration_to_json w (from_secs 1)), (''factor'', JFloat (Fin 2)),
        (''max'', duration_to_json w (from_secs 300)), (''jitter'', JBool True)])])]"
    by (simp add: policy_to_json_def policy_exponential_def exponential_def exponential_with_def f64_to_json_def is_finite_def)
  show ?thesis unfolding todays_policy_json_round_trips_byte_for_byte_def Let_def doc [symmetric]
    using read by simp
qed

end
