(* ===== verification/Test_Support.thy ===== *)
theory Test_Support
  imports Producer Worker_Dispatch
begin

text \<open>
  \<open>crates/core/src/test_support.rs\<close>: the queue set and the jobs the unit tests of the core crate share,
  with the \<open>serde\<close> implementations derived for them: a struct of one field is written as an object and
  read from an object (unknown keys are skipped) or from an array of one element.
\<close>

datatype test_queues = Alpha | Beta | Gamma

definition ALPHA_DELAY :: duration where
  "ALPHA_DELAY = from_secs 1"

fun test_queue_name :: "test_queues \<Rightarrow> string" where
  "test_queue_name Alpha = ''test.alpha''"
| "test_queue_name Beta = ''test.beta''"
| "test_queue_name Gamma = ''test.gamma''"

fun test_queue_config :: "test_queues \<Rightarrow> queue_config" where
  "test_queue_config Alpha =
     set_retry (policy_new 3 (Fixed ALPHA_DELAY)) (set_prefetch 4 (queue_config_new ''test.alpha''))"
| "test_queue_config Beta = set_retry policy_none (set_prefetch 2 (queue_config_new ''test.beta''))"
| "test_queue_config Gamma =
     set_max_priority 0 (set_retry policy_none (set_prefetch 1 (queue_config_new ''test.gamma'')))"

definition TestQueues :: "test_queues queue_set" where
  "TestQueues = \<lparr>qs_all = [Alpha, Beta, Gamma], qs_name = test_queue_name, qs_config = test_queue_config\<rparr>"

lemma TestQueues_simps [simp]:
  "qs_all TestQueues = [Alpha, Beta, Gamma]" "qs_name TestQueues = test_queue_name"
  "qs_config TestQueues = test_queue_config"
  by (simp_all add: TestQueues_def)

interpretation test_queues: queue_set_laws "qs_all TestQueues" "qs_name TestQueues" "qs_config TestQueues"
proof
  show "qc_name (qs_config TestQueues q) = qs_name TestQueues q" if "q \<in> set (qs_all TestQueues)" for q
    by (cases q) (simp_all add: builder_defs queue_config_new_def)
qed simp

section \<open>Structs of one field\<close>

definition one_field_to :: "string \<Rightarrow> ('a \<Rightarrow> json) \<Rightarrow> 'a \<Rightarrow> string + json" where
  "one_field_to k wr x = Inr (JObj [(k, wr x)])"

definition serde_message :: "string error + 'a \<Rightarrow> string + 'a" where
  "serde_message r = (case r of Inl (Serde m) \<Rightarrow> Inl m | Inl _ \<Rightarrow> Inl '''' | Inr x \<Rightarrow> Inr x)"

definition one_field_from :: "string \<Rightarrow> (json \<Rightarrow> 'a option) \<Rightarrow> json \<Rightarrow> string + 'a" where
  "one_field_from k rd j = (case j of
       JObj kvs \<Rightarrow> serde_message (required (field k kvs) rd)
     | JArr [v] \<Rightarrow> serde_message (required (Inr (Some v)) rd)
     | JArr _ \<Rightarrow> Inl ''invalid length''
     | _ \<Rightarrow> Inl ''invalid type'')"

lemma one_field_round_trip: "rd (wr x) = Some x \<Longrightarrow>
    (case one_field_to k wr x of Inl e \<Rightarrow> Inl e | Inr v \<Rightarrow> one_field_from k rd v) = Inr x"
  by (simp add: one_field_to_def one_field_from_def field_def serde_message_def)

section \<open>Jobs\<close>

record greet = greet_name :: string
record ping = seq :: u32
record stubborn = stubborn_id :: u32
record nudge = nudge_id :: u32
record orphan = orphan_id :: u32

definition greet_new :: "string \<Rightarrow> greet" where
  "greet_new n = \<lparr>greet_name = n\<rparr>"

definition Greet :: "(greet, test_queues) job" where
  "Greet = \<lparr>NAME = ''test::Greet'', QUEUE = Alpha, job_retry_policy = None,
     to_value = one_field_to ''name'' (\<lambda>g. JStr (greet_name g)),
     from_value = one_field_from ''name'' (\<lambda>j. map_option greet_new (read_str j))\<rparr>"

definition Ping :: "(ping, test_queues) job" where
  "Ping = \<lparr>NAME = ''test::Ping'', QUEUE = Beta, job_retry_policy = None,
     to_value = one_field_to ''seq'' (\<lambda>g. JInt (uint (seq g))),
     from_value = one_field_from ''seq'' (\<lambda>j. map_option (\<lambda>n. \<lparr>seq = n\<rparr>) (read_uint j))\<rparr>"

definition Stubborn :: "(stubborn, test_queues) job" where
  "Stubborn = \<lparr>NAME = ''test::Stubborn'', QUEUE = Beta,
     job_retry_policy = Some (policy_fixed 2 (from_secs 5)),
     to_value = one_field_to ''id'' (\<lambda>g. JInt (uint (stubborn_id g))),
     from_value = one_field_from ''id'' (\<lambda>j. map_option (\<lambda>n. \<lparr>stubborn_id = n\<rparr>) (read_uint j))\<rparr>"

definition Nudge :: "(nudge, test_queues) job" where
  "Nudge = \<lparr>NAME = ''test::Nudge'', QUEUE = Gamma, job_retry_policy = None,
     to_value = one_field_to ''id'' (\<lambda>g. JInt (uint (nudge_id g))),
     from_value = one_field_from ''id'' (\<lambda>j. map_option (\<lambda>n. \<lparr>nudge_id = n\<rparr>) (read_uint j))\<rparr>"

definition Orphan :: "(orphan, test_queues) job" where
  "Orphan = \<lparr>NAME = ''test::Orphan'', QUEUE = Alpha, job_retry_policy = None,
     to_value = one_field_to ''id'' (\<lambda>g. JInt (uint (orphan_id g))),
     from_value = one_field_from ''id'' (\<lambda>j. map_option (\<lambda>n. \<lparr>orphan_id = n\<rparr>) (read_uint j))\<rparr>"

lemma test_job_simps [simp]:
  "NAME Greet = ''test::Greet''" "QUEUE Greet = Alpha" "job_retry_policy Greet = None"
  "NAME Ping = ''test::Ping''" "QUEUE Ping = Beta" "job_retry_policy Ping = None"
  "NAME Stubborn = ''test::Stubborn''" "QUEUE Stubborn = Beta"
  "job_retry_policy Stubborn = Some (policy_fixed 2 (from_secs 5))"
  "NAME Nudge = ''test::Nudge''" "QUEUE Nudge = Gamma" "job_retry_policy Nudge = None"
  "NAME Orphan = ''test::Orphan''" "QUEUE Orphan = Alpha" "job_retry_policy Orphan = None"
  by (simp_all add: Greet_def Ping_def Stubborn_def Nudge_def Orphan_def)

text \<open>Whatever a test writes, it reads back.\<close>

lemma greet_new_name [simp]: "greet_name (greet_new n) = n"
  by (simp add: greet_new_def)

lemma test_jobs_round_trip [simp]:
  "to_value Greet g = Inr (JObj [(''name'', JStr (greet_name g))])"
  "from_value Greet (JObj [(''name'', JStr n)]) = Inr (greet_new n)"
  "to_value Ping p = Inr (JObj [(''seq'', JInt (uint (seq p)))])"
  "from_value Ping (JObj [(''seq'', JInt (uint k))]) = Inr \<lparr>seq = k\<rparr>"
  "to_value Nudge q = Inr (JObj [(''id'', JInt (uint (nudge_id q)))])"
  "from_value Nudge (JObj [(''id'', JInt (uint k))]) = Inr \<lparr>nudge_id = k\<rparr>"
  "to_value Stubborn t = Inr (JObj [(''id'', JInt (uint (stubborn_id t)))])"
  "from_value Stubborn (JObj [(''id'', JInt (uint k))]) = Inr \<lparr>stubborn_id = k\<rparr>"
  "to_value Orphan r = Inr (JObj [(''id'', JInt (uint (orphan_id r)))])"
  by (simp_all add: Greet_def Ping_def Nudge_def Stubborn_def Orphan_def one_field_to_def one_field_from_def field_def
      serde_message_def)

section \<open>Durations in debug form\<close>

text \<open>\<open>{:?}\<close> of a \<open>Duration\<close>: the largest unit that is not zero, and a fraction without trailing zeros.\<close>

definition padded :: "nat \<Rightarrow> nat \<Rightarrow> string" where
  "padded w n = replicate (w - length (show_nat n)) CHR ''0'' @ show_nat n"

definition decimal :: "nat \<Rightarrow> nat \<Rightarrow> nat \<Rightarrow> string" where
  "decimal w i f = show_nat i @ (if f = 0 then ''''
     else ''.'' @ rev (dropWhile (\<lambda>c. c = CHR ''0'') (rev (padded w f))))"

definition debug_duration :: "duration \<Rightarrow> string" where
  "debug_duration d = (let s = d div nanos_per_sec; n = d mod nanos_per_sec in
     if 0 < s then decimal 9 s n @ ''s''
     else if nanos_per_milli \<le> n then decimal 6 (n div nanos_per_milli) (n mod nanos_per_milli) @ ''ms''
     else if 1000 \<le> n then decimal 3 (n div 1000) (n mod 1000) @ [CHR 0xC2, CHR 0xB5, CHR ''s'']
     else show_nat n @ ''ns'')"

lemma digit_chars [simp]:
  "digit_char 0 = CHR ''0''"
  "digit_char 1 = CHR ''1''"
  "digit_char 2 = CHR ''2''"
  "digit_char 3 = CHR ''3''"
  "digit_char 4 = CHR ''4''"
  "digit_char 5 = CHR ''5''"
  "digit_char 6 = CHR ''6''"
  "digit_char 7 = CHR ''7''"
  "digit_char 8 = CHR ''8''"
  "digit_char 9 = CHR ''9''"
  "digit_char (Suc 0) = CHR ''1''"
  by code_simp+

lemmas debug_duration_defs = debug_duration_def decimal_def padded_def show_nat.simps
  from_secs_def from_millis_def nanos_per_sec_def nanos_per_milli_def

end
