(* ===== verification/Core_Tests.thy ===== *)
theory Core_Tests
  imports Test_Support Envelope_Properties
begin

text \<open>
  The unit tests of \<open>queue.rs\<close>, \<open>error.rs\<close>, \<open>handler.rs\<close>, \<open>dead_letter.rs\<close> and \<open>envelope.rs\<close> of
  \<open>crates/core\<close>, each as the boolean its assertions come to, and the proof that it holds of the model.
  The ids and times a test draws are arguments (\<open>u\<close>, \<open>now\<close>); JSON text is compared as the value it is
  read as, over any \<open>wire\<close> that keeps its law. An \<open>unwrap\<close> of an error is \<open>False\<close>.
\<close>

section \<open>Queues\<close>

definition max_priority_defaults_to_ten_levels :: bool where
  "max_priority_defaults_to_ten_levels \<longleftrightarrow> DEFAULT_MAX_PRIORITY = 10
     \<and> max_priority (queue_config_new ''q'') = Some DEFAULT_MAX_PRIORITY"

definition max_priority_zero_turns_priorities_off :: bool where
  "max_priority_zero_turns_priorities_off \<longleftrightarrow> max_priority (set_max_priority 0 (queue_config_new ''q'')) = None"

definition max_priority_stores_the_number_of_levels :: bool where
  "max_priority_stores_the_number_of_levels \<longleftrightarrow>
     max_priority (set_max_priority 5 (queue_config_new ''q'')) = Some 5
     \<and> max_priority (set_max_priority 255 (queue_config_new ''q'')) = Some 255
     \<and> set_max_priority 0 (set_max_priority 5 (queue_config_new ''q'')) = set_max_priority 0 (queue_config_new ''q'')"

definition the_other_builders_leave_max_priority_alone :: bool where
  "the_other_builders_leave_max_priority_alone \<longleftrightarrow>
     (let config = set_message_ttl (from_secs 1) (set_durable False (set_prefetch 3 (queue_config_new ''q'')))
      in max_priority config = Some DEFAULT_MAX_PRIORITY)"

lemma queue_tests_pass:
  "max_priority_defaults_to_ten_levels" "max_priority_zero_turns_priorities_off"
  "max_priority_stores_the_number_of_levels" "the_other_builders_leave_max_priority_alone"
  by (simp_all add: max_priority_defaults_to_ten_levels_def max_priority_zero_turns_priorities_off_def
      max_priority_stores_the_number_of_levels_def the_other_builders_leave_max_priority_alone_def queue_config_new_def
      builder_defs DEFAULT_MAX_PRIORITY_def word_less_nat_alt)

section \<open>Errors\<close>

definition deferred_uses_a_generic_reason :: bool where
  "deferred_uses_a_generic_reason \<longleftrightarrow> (let err = job_deferred (from_secs 30) in
     (case err of JobDeferred t reason \<Rightarrow> t = from_secs 30 \<and> reason = ''deferred'' | _ \<Rightarrow> False)
     \<and> show_job_error debug_duration err = ''job deferred for 30s: deferred'')"

definition deferred_msg_keeps_the_message :: bool where
  "deferred_msg_keeps_the_message \<longleftrightarrow> (let err = deferred_msg (from_millis 1500) ''rate limited'' in
     (case err of JobDeferred t reason \<Rightarrow> t = from_millis 1500 \<and> reason = ''rate limited'' | _ \<Rightarrow> False)
     \<and> show_job_error debug_duration err = ''job deferred for 1.5s: rate limited'')"

definition a_deferral_carries_no_source_error :: bool where
  "a_deferral_carries_no_source_error \<longleftrightarrow> job_error_source (job_deferred (from_secs 1)) = None
     \<and> job_error_source (retryable_msg ''boom'') \<noteq> None"

lemma thirty_seconds: "debug_duration (from_secs 30) = ''30s''"
  by (simp add: debug_duration_defs Let_def)

lemma one_and_a_half_seconds: "debug_duration (from_millis 1500) = ''1.5s''"
  by (simp add: debug_duration_defs Let_def)

lemma error_tests_pass:
  "deferred_uses_a_generic_reason" "deferred_msg_keeps_the_message" "a_deferral_carries_no_source_error"
  by (simp_all add: deferred_uses_a_generic_reason_def deferred_msg_keeps_the_message_def job_deferred_def deferred_msg_def
      a_deferral_carries_no_source_error_def retryable_msg_def thirty_seconds one_and_a_half_seconds)

section \<open>Handlers\<close>

definition GiveUpWhenStale :: "greet job_handler" where
  "GiveUpWhenStale = \<lparr>handle = (\<lambda>job ctx. Returns 0 (Inl
       (if 3 \<le> ctx_deferrals ctx then fatal_msg ''deferred too often''
        else if from_secs 60 < ctx_age ctx then fatal_msg ''too old to be worth sending''
        else job_deferred (from_secs 30)))),
     set_retry_policy = default_set_retry_policy\<rparr>"

fun says_deferred :: "(job_error + unit) outcome \<Rightarrow> bool" where
  "says_deferred (Returns t (Inl (JobDeferred d r))) = True"
| "says_deferred _ = False"

fun says_fatal :: "(job_error + unit) outcome \<Rightarrow> bool" where
  "says_fatal (Returns t (Inl (JobFatal e))) = True"
| "says_fatal _ = False"

definition a_handler_is_testable_without_a_backend :: "uuid \<Rightarrow> uuid \<Rightarrow> uuid \<Rightarrow> bool" where
  "a_handler_is_testable_without_a_backend u1 u2 u3 \<longleftrightarrow>
     (let job = greet_new ''world'';
          fresh = context_new u1 TestQueues Greet 1 3;
          deferred_out = with_deferrals 3 (context_new u2 TestQueues Greet 1 3);
          stale = with_age (from_secs 61) (context_new u3 TestQueues Greet 1 3)
      in says_deferred (handle GiveUpWhenStale job fresh) \<and> says_fatal (handle GiveUpWhenStale job deferred_out)
       \<and> says_fatal (handle GiveUpWhenStale job stale))"

definition the_constructor_fills_job_type_and_queue_from_the_job :: "uuid \<Rightarrow> bool" where
  "the_constructor_fills_job_type_and_queue_from_the_job u \<longleftrightarrow>
     (let ctx = context_new u TestQueues Greet 2 5
      in ctx_job_type ctx = NAME Greet \<and> ctx_queue ctx = qs_name TestQueues Alpha \<and> ctx_attempt ctx = 2
       \<and> ctx_max_attempts ctx = 5 \<and> \<not> is_last_attempt ctx \<and> ctx_deferrals ctx = 0 \<and> ctx_priority ctx = 0
       \<and> ctx_age ctx = 0 \<and> ctx_correlation_id ctx = None)"

definition the_builders_set_exactly_what_they_name :: "uuid \<Rightarrow> uuid \<Rightarrow> bool" where
  "the_builders_set_exactly_what_they_name u i \<longleftrightarrow>
     (let ctx = ctx_with_correlation_id ''req-42'' (with_age (from_secs 90) (with_priority 10 (with_deferrals 7
            (with_job_id i (context_new u TestQueues Greet 3 3)))))
      in ctx_job_id ctx = i \<and> ctx_deferrals ctx = 7 \<and> ctx_priority ctx = 10 \<and> ctx_age ctx = from_secs 90
       \<and> ctx_correlation_id ctx = Some ''req-42'' \<and> is_last_attempt ctx)"

lemmas context_defs = context_new_def with_deferrals_def with_age_def with_priority_def with_job_id_def
  ctx_with_correlation_id_def is_last_attempt_def

lemma handler_tests_pass:
  "a_handler_is_testable_without_a_backend u1 u2 u3" "the_constructor_fills_job_type_and_queue_from_the_job u"
  "the_builders_set_exactly_what_they_name u i"
  by (simp_all add: a_handler_is_testable_without_a_backend_def the_constructor_fills_job_type_and_queue_from_the_job_def
      the_builders_set_exactly_what_they_name_def context_defs GiveUpWhenStale_def fatal_msg_def job_deferred_def
      word_le_nat_alt from_secs_def nanos_per_sec_def)

section \<open>Dead letters\<close>

definition only_handler_causes_report_a_job_failure :: bool where
  "only_handler_causes_report_a_job_failure \<longleftrightarrow> reached_handler CauseFatal \<and> reached_handler CauseExhausted
     \<and> \<not> reached_handler CauseNoHandler \<and> \<not> reached_handler CauseDecode"

definition dead_letter_envelope :: "uuid \<Rightarrow> u64 \<Rightarrow> envelope" where
  "dead_letter_envelope u now = envelope_raw u now ''test::Greet'' ''test.alpha'' (JObj [(''name'', JStr ''x'')])"

definition the_constructor_defaults_max_attempts_to_none_and_the_builder_sets_it :: "uuid \<Rightarrow> u64 \<Rightarrow> bool" where
  "the_constructor_defaults_max_attempts_to_none_and_the_builder_sets_it u now \<longleftrightarrow>
     (let dead = dead_letter_new (dead_letter_envelope u now) CauseNoHandler ''no handler'';
          dead' = with_max_attempts (Some 3) (dead_letter_new (dead_letter_envelope u now) CauseExhausted ''boom'')
      in dl_max_attempts dead = None \<and> dl_reason dead = ''no handler'' \<and> dead_attempts dead = 1
       \<and> dl_max_attempts dead' = Some 3)"

text \<open>\<open>FnDeadLetterHook\<close> calls its function; the test's hook pushes onto a shared vector, which is the
  state passed through the calls.\<close>

definition FnDeadLetterHook :: "(dead_letter \<Rightarrow> 's \<Rightarrow> 's) \<Rightarrow> dead_letter \<Rightarrow> 's \<Rightarrow> 's" where
  "FnDeadLetterHook f dl s = f dl s"

definition a_hook_is_testable_without_a_worker :: "uuid \<Rightarrow> u64 \<Rightarrow> bool" where
  "a_hook_is_testable_without_a_worker u now \<longleftrightarrow>
     (let hook = FnDeadLetterHook (\<lambda>dead sink. if reached_handler (dl_cause dead) then sink @ [dl_reason dead] else sink);
          escalated = [];
          escalated = hook (dead_letter_new (dead_letter_envelope u now) CauseDecode ''bad payload'') escalated;
          escalated = hook (with_max_attempts (Some 5)
            (dead_letter_new (dead_letter_envelope u now) CauseFatal ''endpoint gone'')) escalated
      in escalated = [''endpoint gone''])"

lemma dead_letter_tests_pass:
  "only_handler_causes_report_a_job_failure"
  "the_constructor_defaults_max_attempts_to_none_and_the_builder_sets_it u now" "a_hook_is_testable_without_a_worker u now"
  by (simp_all add: only_handler_causes_report_a_job_failure_def reached_handler_def
      the_constructor_defaults_max_attempts_to_none_and_the_builder_sets_it_def a_hook_is_testable_without_a_worker_def
      FnDeadLetterHook_def dead_letter_new_def with_max_attempts_def dead_attempts_def dead_letter_envelope_def
      envelope_raw_def)

section \<open>Envelopes\<close>

text \<open>\<open>Envelope::new(&Greet::new(n)).unwrap()\<close>, with what follows it.\<close>

definition with_greet :: "uuid \<Rightarrow> u64 \<Rightarrow> string \<Rightarrow> (envelope \<Rightarrow> bool) \<Rightarrow> bool" where
  "with_greet u now n k = (case envelope_new u now TestQueues Greet (greet_new n) :: string error + envelope of
       Inl e \<Rightarrow> False | Inr env \<Rightarrow> k env)"

definition unwrap_and :: "string error + 'a \<Rightarrow> ('a \<Rightarrow> bool) \<Rightarrow> bool" where
  "unwrap_and r k = (case r of Inl e \<Rightarrow> False | Inr x \<Rightarrow> k x)"

definition new_fills_in_the_job_metadata :: "uuid \<Rightarrow> u64 \<Rightarrow> bool" where
  "new_fills_in_the_job_metadata u now \<longleftrightarrow> with_greet u now ''ada'' (\<lambda>env.
     job_type env = NAME Greet \<and> queue env = ''test.alpha'' \<and> attempt env = 1 \<and> job_id env \<noteq> 0
     \<and> 0 < enqueued_at_ms env \<and> deferrals env = 0 \<and> priority env = 0
     \<and> payload env = JObj [(''name'', JStr ''ada'')])"

definition a_correlation_id_survives_retries_and_deferrals :: "uuid \<Rightarrow> u64 \<Rightarrow> bool" where
  "a_correlation_id_survives_retries_and_deferrals u now \<longleftrightarrow> with_greet u now ''ada'' (\<lambda>env.
     let env = with_correlation_id ''trace-abc'' env in
     correlation_id env = Some ''trace-abc'' \<and> correlation_id (next_attempt env) = Some ''trace-abc''
     \<and> correlation_id (deferred env 10) = Some ''trace-abc'')"

definition an_unset_correlation_id_stays_out_of_the_json :: "'body wire \<Rightarrow> uuid \<Rightarrow> u64 \<Rightarrow> bool" where
  "an_unset_correlation_id_stays_out_of_the_json w u now \<longleftrightarrow> with_greet u now ''ada'' (\<lambda>env.
     unwrap_and (to_bytes w env) (\<lambda>bytes. case parse_json w bytes of
         Some (JObj kvs) \<Rightarrow> ''correlation_id'' \<notin> fst ` set kvs | _ \<Rightarrow> False))"

definition envelopes_written_before_correlation_ids_still_decode :: "'body wire \<Rightarrow> bool" where
  "envelopes_written_before_correlation_ids_still_decode w \<longleftrightarrow>
     (let body = print_json w (JObj [(''job_id'', JStr ''67e55044-10b1-426f-9247-bb680e5fe0c8''),
            (''job_type'', JStr ''myapp::jobs::SendEmail''), (''queue'', JStr ''myapp.emails''), (''attempt'', JInt 2),
            (''enqueued_at_ms'', JInt 1700000000000), (''deferrals'', JInt 1), (''priority'', JInt 10),
            (''payload'', JObj [(''to'', JStr ''a@b.c'')])])
      in unwrap_and (from_bytes w body) (\<lambda>env. correlation_id env = None \<and> attempt env = 2 \<and> deferrals env = 1))"

definition raw_builds_an_envelope_without_a_job_type_in_scope :: "uuid \<Rightarrow> u64 \<Rightarrow> bool" where
  "raw_builds_an_envelope_without_a_job_type_in_scope u now \<longleftrightarrow>
     (let env = envelope_raw u now ''other::Job'' ''other.queue'' (JObj [(''n'', JInt 1)])
      in job_type env = ''other::Job'' \<and> queue env = ''other.queue'' \<and> attempt env = 1 \<and> correlation_id env = None)"

definition distinct_envelopes_get_distinct_ids :: "uuid \<Rightarrow> uuid \<Rightarrow> u64 \<Rightarrow> u64 \<Rightarrow> bool" where
  "distinct_envelopes_get_distinct_ids u v now1 now2 \<longleftrightarrow>
     with_greet u now1 ''a'' (\<lambda>a. with_greet v now2 ''a'' (\<lambda>b. job_id a \<noteq> job_id b))"

definition bytes_round_trip :: "'body wire \<Rightarrow> uuid \<Rightarrow> u64 \<Rightarrow> bool" where
  "bytes_round_trip w u now \<longleftrightarrow> with_greet u now ''grace'' (\<lambda>env.
     unwrap_and (to_bytes w env) (\<lambda>bytes. unwrap_and (from_bytes w bytes) (\<lambda>back. env = back)))"

text \<open>\<open>not_json\<close> stands for the bytes \<open>not json\<close>.\<close>

definition from_bytes_rejects_garbage :: "'body wire \<Rightarrow> 'body \<Rightarrow> bool" where
  "from_bytes_rejects_garbage w not_json \<longleftrightarrow>
     \<not> is_ok (from_bytes w not_json :: string error + envelope)
     \<and> \<not> is_ok (from_bytes w (print_json w (JObj [(''job_id'', JStr ''nope'')])) :: string error + envelope)"

definition decode_returns_the_original_job :: "uuid \<Rightarrow> u64 \<Rightarrow> bool" where
  "decode_returns_the_original_job u now \<longleftrightarrow> with_greet u now ''linus'' (\<lambda>env.
     unwrap_and (decode Greet env) (\<lambda>job. job = greet_new ''linus''))"

definition decode_with_wrong_shape_errors :: "uuid \<Rightarrow> u64 \<Rightarrow> bool" where
  "decode_with_wrong_shape_errors u now \<longleftrightarrow> with_greet u now ''linus'' (\<lambda>env.
     case decode Ping env :: string error + ping of Inl (Serde e) \<Rightarrow> True | _ \<Rightarrow> False)"

definition decode_after_round_trip_still_works :: "'body wire \<Rightarrow> uuid \<Rightarrow> u64 \<Rightarrow> bool" where
  "decode_after_round_trip_still_works w u now \<longleftrightarrow>
     unwrap_and (envelope_new u now TestQueues Ping \<lparr>seq = 7\<rparr>) (\<lambda>env.
     unwrap_and (to_bytes w env) (\<lambda>bytes. unwrap_and (from_bytes w bytes) (\<lambda>back.
     unwrap_and (decode Ping back) (\<lambda>job. job = \<lparr>seq = 7\<rparr>))))"

definition next_attempt_increments_and_preserves_identity :: "uuid \<Rightarrow> u64 \<Rightarrow> bool" where
  "next_attempt_increments_and_preserves_identity u now \<longleftrightarrow> with_greet u now ''ada'' (\<lambda>env.
     let second = next_attempt env in attempt second = 2 \<and> job_id second = job_id env
     \<and> job_type second = job_type env \<and> queue second = queue env \<and> enqueued_at_ms second = enqueued_at_ms env
     \<and> payload second = payload env \<and> priority second = 0 \<and> attempt env = 1 \<and> attempt (next_attempt second) = 3)"

definition next_attempt_keeps_the_deferral_count_but_drops_the_priority :: "uuid \<Rightarrow> u64 \<Rightarrow> bool" where
  "next_attempt_keeps_the_deferral_count_but_drops_the_priority u now \<longleftrightarrow> with_greet u now ''ada'' (\<lambda>env.
     let env = deferred env 10; retried = next_attempt env in attempt retried = 2 \<and> deferrals retried = 1
     \<and> priority retried = 0 \<and> priority env = 10 \<and> attempt env = 1 \<and> priority (next_attempt retried) = 0)"

definition deferred_increments_deferrals_and_sets_the_priority :: "uuid \<Rightarrow> u64 \<Rightarrow> bool" where
  "deferred_increments_deferrals_and_sets_the_priority u now \<longleftrightarrow> with_greet u now ''ada'' (\<lambda>env.
     let held = deferred env 10 in deferrals held = 1 \<and> priority held = 10 \<and> attempt held = attempt env
     \<and> job_id held = job_id env \<and> job_type held = job_type env \<and> queue held = queue env
     \<and> enqueued_at_ms held = enqueued_at_ms env \<and> payload held = payload env \<and> deferrals env = 0 \<and> priority env = 0)"

definition deferrals_accumulate_and_a_zero_priority_queue_stays_at_zero :: "uuid \<Rightarrow> u64 \<Rightarrow> bool" where
  "deferrals_accumulate_and_a_zero_priority_queue_stays_at_zero u now \<longleftrightarrow> with_greet u now ''ada'' (\<lambda>env.
     let twice = deferred (deferred env 10) 0 in deferrals twice = 2 \<and> priority twice = 0 \<and> attempt twice = 1)"

definition json_without_the_deferral_fields_still_decodes :: "'body wire \<Rightarrow> bool" where
  "json_without_the_deferral_fields_still_decodes w \<longleftrightarrow>
     (let old = JObj [(''job_id'', JStr ''8b1a9953-4c2f-4a5b-9c2e-0d1f2a3b4c5d''), (''job_type'', JStr ''test::Greet''),
            (''queue'', JStr ''test.alpha''), (''attempt'', JInt 2), (''enqueued_at_ms'', JInt 1700000000000),
            (''payload'', JObj [(''name'', JStr ''ada'')])]
      in unwrap_and (from_bytes w (print_json w old)) (\<lambda>env. deferrals env = 0 \<and> priority env = 0 \<and> attempt env = 2
       \<and> unwrap_and (decode Greet env) (\<lambda>job. job = greet_new ''ada'')
       \<and> unwrap_and (to_bytes w env) (\<lambda>bytes. unwrap_and (from_bytes w bytes) (\<lambda>back. back = env))))"

definition now_ms_is_monotonic_enough :: "duration option \<Rightarrow> bool" where
  "now_ms_is_monotonic_enough t \<longleftrightarrow> 1700000000000 \<le> now_ms t"

lemma with_greet_eq [simp]: "with_greet u now n k = k (envelope_raw u now ''test::Greet'' ''test.alpha'' (JObj [(''name'', JStr n)]))"
  by (simp add: with_greet_def envelope_new_def envelope_raw_def greet_new_def)

lemma unwrap_and_simps [simp]: "unwrap_and (Inr x) k = k x" "\<not> unwrap_and (Inl e) k"
  by (simp_all add: unwrap_and_def)

lemma read_back: "wire_ok w \<Longrightarrow> plain (payload env) \<Longrightarrow> json_depth (payload env) < 127 \<Longrightarrow>
    unwrap_and (to_bytes w env) (\<lambda>bytes. unwrap_and (from_bytes w bytes) k) = k env"
  using written_reads_back [of w env, where ?'b = string] by (simp add: to_bytes_def)

lemmas rescheduling_tests =
  a_correlation_id_survives_retries_and_deferrals_def next_attempt_increments_and_preserves_identity_def
  next_attempt_keeps_the_deferral_count_but_drops_the_priority_def
  deferred_increments_deferrals_and_sets_the_priority_def deferrals_accumulate_and_a_zero_priority_queue_stays_at_zero_def
  raw_builds_an_envelope_without_a_job_type_in_scope_def

lemma rescheduling_tests_pass:
  "a_correlation_id_survives_retries_and_deferrals u now" "next_attempt_increments_and_preserves_identity u now"
  "next_attempt_keeps_the_deferral_count_but_drops_the_priority u now"
  "deferred_increments_deferrals_and_sets_the_priority u now"
  "deferrals_accumulate_and_a_zero_priority_queue_stays_at_zero u now"
  "raw_builds_an_envelope_without_a_job_type_in_scope u now"
  by (simp_all add: rescheduling_tests envelope_raw_def with_correlation_id_def next_attempt_def deferred_def Let_def)

text \<open>A drawn id is not the nil one, and no id is drawn twice.\<close>

lemma new_envelope_tests_pass:
  "u \<noteq> 0 \<Longrightarrow> 0 < now \<Longrightarrow> new_fills_in_the_job_metadata u now"
  "u \<noteq> v \<Longrightarrow> distinct_envelopes_get_distinct_ids u v now now2"
  by (simp_all add: new_fills_in_the_job_metadata_def distinct_envelopes_get_distinct_ids_def envelope_raw_def)

lemma byte_tests_pass:
  assumes "wire_ok w"
  shows "an_unset_correlation_id_stays_out_of_the_json w u now" "bytes_round_trip w u now"
    "decode_after_round_trip_still_works w u now"
proof -
  show "an_unset_correlation_id_stays_out_of_the_json w u now"
    using wire_ok_text [OF assms envelope_plain [OF assms]]
    by (simp add: an_unset_correlation_id_stays_out_of_the_json_def to_bytes_def envelope_raw_def)
      (simp add: envelope_fields_def)
  show "bytes_round_trip w u now" by (simp add: bytes_round_trip_def read_back [OF assms] envelope_raw_def)
  have "decode Ping (envelope_raw u now ''test::Ping'' ''test.beta'' (JObj [(''seq'', JInt (uint (7::u32)))]))
      = (Inr \<lparr>seq = 7\<rparr> :: string error + ping)"
    unfolding decode_def envelope_raw_def by (simp only: envelope.simps test_jobs_round_trip sum.case)
  then show "decode_after_round_trip_still_works w u now"
    using uint_plain [of "7 :: u32"]
    by (simp add: decode_after_round_trip_still_works_def read_back [OF assms] envelope_new_def envelope_raw_def)
qed

lemma decode_tests_pass:
  "decode_returns_the_original_job u now" "decode_with_wrong_shape_errors u now"
  by (simp_all add: decode_returns_the_original_job_def decode_with_wrong_shape_errors_def decode_def envelope_raw_def
      Ping_def one_field_from_def field_def required_def serde_message_def)

lemma garbage_passes:
  assumes "wire_ok w" "parse_json w not_json = None" "uuid_of_json w (JStr ''nope'') = None"
  shows "from_bytes_rejects_garbage w not_json"
  using assms by (simp add: from_bytes_rejects_garbage_def from_bytes_def wire_ok_text envelope_of_json_def read_envelope_def
      field_def required_def)

lemma old_bodies_pass:
  assumes "wire_ok w" "uuid_of_json w (JStr ''67e55044-10b1-426f-9247-bb680e5fe0c8'') = Some u1"
    "uuid_of_json w (JStr ''8b1a9953-4c2f-4a5b-9c2e-0d1f2a3b4c5d'') = Some u2"
  shows "envelopes_written_before_correlation_ids_still_decode w" "json_without_the_deferral_fields_still_decodes w"
proof -
  show "envelopes_written_before_correlation_ids_still_decode w"
    using assms by (simp add: envelopes_written_before_correlation_ids_still_decode_def from_bytes_def wire_ok_text
        envelope_of_json_def read_envelope_def field_def read_uint_def)
  let ?old = "JObj [(''job_id'', JStr ''8b1a9953-4c2f-4a5b-9c2e-0d1f2a3b4c5d''), (''job_type'', JStr ''test::Greet''),
    (''queue'', JStr ''test.alpha''), (''attempt'', JInt 2), (''enqueued_at_ms'', JInt 1700000000000),
    (''payload'', JObj [(''name'', JStr ''ada'')])]"
  let ?env = "\<lparr>job_id = u2, job_type = ''test::Greet'', queue = ''test.alpha'', attempt = 2,
    enqueued_at_ms = 1700000000000, deferrals = 0, priority = 0, correlation_id = None,
    payload = JObj [(''name'', JStr ''ada'')]\<rparr>"
  have "from_bytes w (print_json w ?old) = (Inr ?env :: string error + envelope)"
    using assms by (simp add: from_bytes_def wire_ok_text envelope_of_json_def read_envelope_def field_def read_uint_def)
  moreover have "decode Greet ?env = (Inr (greet_new ''ada'') :: string error + greet)" by (simp add: decode_def)
  ultimately show "json_without_the_deferral_fields_still_decodes w"
    unfolding json_without_the_deferral_fields_still_decodes_def Let_def using read_back [OF assms(1), of ?env "\<lambda>b. b = ?env"]
    by simp
qed

lemma clock_passes: "1700000000000 * nanos_per_milli \<le> d \<Longrightarrow> d < 2 ^ 64 * nanos_per_milli \<Longrightarrow>
    now_ms_is_monotonic_enough (Some d)"
proof -
  assume d: "1700000000000 * nanos_per_milli \<le> d" "d < 2 ^ 64 * nanos_per_milli"
  then have "1700000000000 \<le> d div nanos_per_milli" "d div nanos_per_milli < 2 ^ 64"
    by (simp_all add: nanos_per_milli_def div_le_mono less_mult_imp_div_less)
  then show ?thesis
    by (simp add: now_ms_is_monotonic_enough_def now_ms_def word_le_nat_alt unsigned_of_nat take_bit_nat_eq_self)
qed

end
