(* ===== verification/Memory_Tests.thy ===== *)
theory Memory_Tests
  imports Test_Support "HOL-Library.State_Monad" "HOL-Library.List_Lexorder" "HOL-Library.Char_ord"
begin

text \<open>
  The unit tests of \<open>crates/core/src/memory.rs\<close> as programs over the machine of the in-memory backend. A
  test is a computation in the state monad: its state is the machine, whether every assertion so far
  held, and the next id \<open>Uuid::new_v4\<close> draws. The schedule is one the single-threaded runtime of the
  tests may choose: a call runs to its end before it returns (\<open>run_last\<close>), the consumer loops run until
  they block whenever the test waits for a stream (\<open>pump_all\<close>), and a timer that is due fires while the
  test sleeps. An \<open>unwrap\<close> of an error, and waiting for a stream that stays blocked, fail the test.
\<close>

section \<open>The harness\<close>

record test_run =
  tr_mem :: mem
  tr_ok :: bool
  tr_fresh :: uuid

type_synonym 'a test = "(test_run, 'a) state"

definition check :: "bool \<Rightarrow> unit test" where
  "check b = State (\<lambda>s. ((), s\<lparr>tr_ok := tr_ok s \<and> b\<rparr>))"

definition look :: "(mem \<Rightarrow> 'a) \<Rightarrow> 'a test" where
  "look f = State (\<lambda>s. (f (tr_mem s), s))"

fun run_last :: "nat \<Rightarrow> mem \<Rightarrow> mem" where
  "run_last 0 m = m"
| "run_last (Suc n) m = (case run_thread (length (threads m) - 1) m of None \<Rightarrow> m | Some m' \<Rightarrow> run_last n m')"

definition call :: "(mem \<Rightarrow> (string error + unit) \<times> mem) \<Rightarrow> (string error + unit) test" where
  "call f = State (\<lambda>s. case f (tr_mem s) of (r, m) \<Rightarrow> (r, s\<lparr>tr_mem := run_last 3 m\<rparr>))"

definition unwrap :: "(string error + unit) test \<Rightarrow> unit test" where
  "unwrap t = State_Monad.bind t (\<lambda>r. check (is_ok r))"

definition shut_down :: "(string error + unit) test \<Rightarrow> unit test" where
  "shut_down t = State_Monad.bind t (\<lambda>r. check (r = Inl ShutDown))"

fun for_each :: "'a list \<Rightarrow> ('a \<Rightarrow> unit test) \<Rightarrow> unit test" where
  "for_each [] f = State_Monad.return ()"
| "for_each (x # xs) f = State_Monad.bind (f x) (\<lambda>_. for_each xs f)"

fun pump :: "nat \<Rightarrow> nat \<Rightarrow> mem \<Rightarrow> mem" where
  "pump 0 i m = m"
| "pump (Suc n) i m = (case run_loop i m of None \<Rightarrow> m | Some m' \<Rightarrow> pump n i m')"

definition pump_all :: "mem \<Rightarrow> mem" where
  "pump_all m = foldl (\<lambda>m i. pump 20 i m) m [0..<length (cons m)]"

text \<open>\<open>stream.next().await\<close>: the next delivery, or nothing when the loop has ended.\<close>

definition next_item :: "nat \<Rightarrow> (nat \<times> envelope) option test" where
  "next_item i = State (\<lambda>s. let m = pump_all (tr_mem s) in case receive i m of
       Some m' \<Rightarrow> (Some (last (handed m')), s\<lparr>tr_mem := m'\<rparr>)
     | None \<Rightarrow> (None, s\<lparr>tr_mem := m, tr_ok := tr_ok s \<and> pc (cons m ! i) = Ended\<rparr>))"

definition next_delivery :: "nat \<Rightarrow> (nat \<times> envelope) test" where
  "next_delivery i = State_Monad.bind (next_item i) (\<lambda>d. State_Monad.bind (check (d \<noteq> None))
     (\<lambda>_. State_Monad.return (case d of Some x \<Rightarrow> x | None \<Rightarrow> (i, envelope_raw 0 0 [] [] JNull))))"

text \<open>\<open>assert!(poll_immediate(stream.next()).await.is_none())\<close>, after the loops have run.\<close>

definition withheld :: "nat \<Rightarrow> unit test" where
  "withheld i = State (\<lambda>s. let m = pump_all (tr_mem s) in
     ((), s\<lparr>tr_mem := m, tr_ok := tr_ok s \<and> chan (cons m ! i) = [] \<and> pc (cons m ! i) \<noteq> Ended\<rparr>))"

definition consume_queue :: "queue_config \<Rightarrow> nat test" where
  "consume_queue qc = State (\<lambda>s. (length (cons (tr_mem s)), s\<lparr>tr_mem := consume qc (tr_mem s)\<rparr>))"

definition drop_queue_stream :: "nat \<Rightarrow> unit test" where
  "drop_queue_stream i = State (\<lambda>s. case drop_stream i (tr_mem s) of
       None \<Rightarrow> ((), s\<lparr>tr_ok := False\<rparr>) | Some m \<Rightarrow> ((), s\<lparr>tr_mem := m\<rparr>))"

definition yield_now :: "unit test" where
  "yield_now = State (\<lambda>s. ((), s\<lparr>tr_mem := pump_all (tr_mem s)\<rparr>))"

text \<open>The timer that is due first, and what a sleep does.\<close>

definition next_due :: "mem \<Rightarrow> nat option" where
  "next_due m = (case filter (\<lambda>i. fst (timers m ! i) \<le> clock m) [0..<length (timers m)] of
       [] \<Rightarrow> None
     | i # is \<Rightarrow> Some (foldl (\<lambda>b j. if fst (timers m ! j) < fst (timers m ! b) then j else b) i is))"

fun fire_due :: "nat \<Rightarrow> mem \<Rightarrow> mem" where
  "fire_due 0 m = m"
| "fire_due (Suc n) m = (case next_due m of None \<Rightarrow> m
     | Some i \<Rightarrow> (case fire i m of None \<Rightarrow> m | Some m' \<Rightarrow> fire_due n m'))"

definition sleep :: "duration \<Rightarrow> unit test" where
  "sleep d = State (\<lambda>s. ((), s\<lparr>tr_mem := fire_due (length (timers (tr_mem s)))
     ((tr_mem s)\<lparr>clock := clock (tr_mem s) + d\<rparr>)\<rparr>))"

definition new_greet :: "string \<Rightarrow> envelope test" where
  "new_greet n = State (\<lambda>s. case envelope_new (tr_fresh s) 1 TestQueues Greet (greet_new n) :: string error + envelope of
       Inl e \<Rightarrow> (envelope_raw 0 0 [] [] JNull, s\<lparr>tr_ok := False\<rparr>)
     | Inr env \<Rightarrow> (env, s\<lparr>tr_fresh := tr_fresh s + 1\<rparr>))"

definition is_greet :: "envelope \<Rightarrow> string \<Rightarrow> bool" where
  "is_greet e n \<longleftrightarrow> decode Greet e = (Inr (greet_new n) :: string error + greet)"

definition test_ack :: "nat \<times> envelope \<Rightarrow> (string error + unit) test" where
  "test_ack d = call (d_ack memory_delivery d)"

definition test_retry :: "nat \<times> envelope \<Rightarrow> envelope \<Rightarrow> duration \<Rightarrow> (string error + unit) test" where
  "test_retry d e t = call (d_retry memory_delivery d e t)"

definition test_defer :: "nat \<times> envelope \<Rightarrow> envelope \<Rightarrow> duration \<Rightarrow> (string error + unit) test" where
  "test_defer d e t = call (d_defer memory_delivery d e t)"

definition test_dead_letter :: "nat \<times> envelope \<Rightarrow> string \<Rightarrow> (string error + unit) test" where
  "test_dead_letter d r = call (d_dead_letter memory_delivery d r)"

definition passes :: "unit test \<Rightarrow> bool" where
  "passes t \<longleftrightarrow> tr_ok (snd (run_state t \<lparr>tr_mem = mem_new, tr_ok = True, tr_fresh = 1\<rparr>))"

section \<open>Fixtures\<close>

definition alpha :: queue_config where
  "alpha = qs_config TestQueues Alpha"

definition all_configs :: "queue_config list" where
  "all_configs = map (qs_config TestQueues) (qs_all TestQueues)"

definition declared_backend :: "unit test" where
  "declared_backend = unwrap (call (declare_all [alpha]))"

definition test_publish :: "string \<Rightarrow> envelope test" where
  "test_publish n = State_Monad.bind (new_greet n) (\<lambda>env. State_Monad.bind (unwrap (call (publish env None)))
     (\<lambda>_. State_Monad.return env))"

text \<open>The accessors of the backend the tests look at.\<close>

definition queue_names :: "shared \<Rightarrow> string list" where
  "queue_names s = sorted_list_of_set (dom (queues s))"

definition is_closed :: "shared \<Rightarrow> bool" where
  "is_closed s = closed s"

definition consumer_count :: "shared \<Rightarrow> string \<Rightarrow> nat" where
  "consumer_count s n = (case queues s n of None \<Rightarrow> 0 | Some q \<Rightarrow> length (consumers q))"

definition publish_all :: "string list \<Rightarrow> unit test" where
  "publish_all ns = for_each ns (\<lambda>n. do { test_publish n; State_Monad.return () })"

definition publish_with_priority :: "string \<Rightarrow> u8 \<Rightarrow> envelope test" where
  "publish_with_priority n p = do {
     env \<leftarrow> new_greet n;
     let env = env\<lparr>priority := p\<rparr>;
     unwrap (call (publish env None));
     State_Monad.return env }"

definition pending_list :: "mem \<Rightarrow> string \<Rightarrow> envelope list" where
  "pending_list m n = (case queues (sh m) n of None \<Rightarrow> [] | Some q \<Rightarrow> pending q)"

definition expect :: "(mem \<Rightarrow> 'a) \<Rightarrow> 'a \<Rightarrow> unit test" where
  "expect f x = do { y \<leftarrow> look f; check (y = x) }"

definition expect_pending :: "nat \<Rightarrow> unit test" where
  "expect_pending n = expect (\<lambda>m. pending_count (sh m) ''test.alpha'') n"

definition expect_deferred :: "nat \<Rightarrow> unit test" where
  "expect_deferred n = expect (\<lambda>m. deferred_count (sh m) ''test.alpha'') n"

definition expect_acked :: "nat \<Rightarrow> unit test" where
  "expect_acked n = expect (\<lambda>m. length (acked (sh m) ''test.alpha'')) n"

definition ended :: "nat \<Rightarrow> unit test" where
  "ended i = do { d \<leftarrow> next_item i; check (d = None) }"

text \<open>\<open>for _ in 0..n { if done { break; } yield_now().await; }\<close>.\<close>

fun yield_until :: "nat \<Rightarrow> (mem \<Rightarrow> bool) \<Rightarrow> unit test" where
  "yield_until 0 P = State_Monad.return ()"
| "yield_until (Suc n) P = do { b \<leftarrow> look P; if b then State_Monad.return () else do { yield_now; yield_until n P } }"

definition new_ping :: "u32 \<Rightarrow> envelope test" where
  "new_ping k = State (\<lambda>s. case envelope_new (tr_fresh s) 1 TestQueues Ping \<lparr>seq = k\<rparr> :: string error + envelope of
       Inl e \<Rightarrow> (envelope_raw 0 0 [] [] JNull, s\<lparr>tr_ok := False\<rparr>)
     | Inr env \<Rightarrow> (env, s\<lparr>tr_fresh := tr_fresh s + 1\<rparr>))"

section \<open>Declaring\<close>

definition declare_is_idempotent :: "unit test" where
  "declare_is_idempotent = do {
     declared_backend;
     test_publish ''a'';
     unwrap (call (declare_all [alpha, alpha]));
     unwrap (call (declare_all [alpha]));
     expect_pending 1;
     expect (\<lambda>m. queue_names (sh m)) [''test.alpha''];
     expect (\<lambda>m. map_option prefetch (queue_config_of (sh m) ''test.alpha'')) (Some 4) }"

definition declares_every_queue_of_a_queue_set :: "unit test" where
  "declares_every_queue_of_a_queue_set = do {
     unwrap (call (declare_all all_configs));
     expect (\<lambda>m. queue_names (sh m)) [''test.alpha'', ''test.beta'', ''test.gamma''] }"

section \<open>Publishing and consuming\<close>

definition publish_then_consume_is_fifo :: "unit test" where
  "publish_then_consume_is_fifo = do {
     declared_backend;
     publish_all [''a'', ''b'', ''c''];
     expect_pending 3;
     stream \<leftarrow> consume_queue alpha;
     for_each [''a'', ''b'', ''c''] (\<lambda>n. do {
       d \<leftarrow> next_delivery stream;
       check (is_greet (d_envelope memory_delivery d) n);
       check (attempt (d_envelope memory_delivery d) = 1);
       unwrap (test_ack d) });
     expect_pending 0;
     acked \<leftarrow> look (\<lambda>m. acked (sh m) ''test.alpha'');
     check (list_all2 is_greet acked [''a'', ''b'', ''c'']) }"

definition consumer_started_before_publish_receives_messages :: "unit test" where
  "consumer_started_before_publish_receives_messages = do {
     declared_backend;
     stream \<leftarrow> consume_queue alpha;
     yield_now;
     test_publish ''late'';
     d \<leftarrow> next_delivery stream;
     check (is_greet (d_envelope memory_delivery d) ''late'');
     unwrap (test_ack d) }"

definition prefetch_caps_outstanding_deliveries :: "unit test" where
  "prefetch_caps_outstanding_deliveries = do {
     declared_backend;
     let config = set_prefetch 2 (queue_config_new ''test.alpha'');
     publish_all [''a'', ''b'', ''c''];
     stream \<leftarrow> consume_queue config;
     first \<leftarrow> next_delivery stream;
     second \<leftarrow> next_delivery stream;
     check (is_greet (d_envelope memory_delivery first) ''a'');
     check (is_greet (d_envelope memory_delivery second) ''b'');
     withheld stream;
     expect_pending 1;
     unwrap (test_ack first);
     third \<leftarrow> next_delivery stream;
     check (is_greet (d_envelope memory_delivery third) ''c'');
     expect_pending 0;
     unwrap (test_ack second);
     unwrap (test_ack third);
     expect_acked 3 }"

definition zero_prefetch_means_unlimited :: "unit test" where
  "zero_prefetch_means_unlimited = do {
     declared_backend;
     publish_all [''a'', ''b'', ''c''];
     stream \<leftarrow> consume_queue (set_prefetch 0 (queue_config_new ''test.alpha''));
     d1 \<leftarrow> next_delivery stream;
     d2 \<leftarrow> next_delivery stream;
     d3 \<leftarrow> next_delivery stream;
     check (length [d1, d2, d3] = 3) }"

definition multiple_consumers_share_one_queue :: "unit test" where
  "multiple_consumers_share_one_queue = do {
     declared_backend;
     let config = set_prefetch 1 (queue_config_new ''test.alpha'');
     left \<leftarrow> consume_queue config;
     right \<leftarrow> consume_queue config;
     yield_now;
     publish_all [''a'', ''b''];
     one \<leftarrow> next_delivery left;
     two \<leftarrow> next_delivery right;
     let es = [d_envelope memory_delivery one, d_envelope memory_delivery two];
     check (list_ex (\<lambda>e. is_greet e ''a'') es \<and> list_ex (\<lambda>e. is_greet e ''b'') es);
     unwrap (test_ack one);
     unwrap (test_ack two);
     expect_acked 2 }"

definition clones_share_state :: "unit test" where
  "clones_share_state = do {
     declared_backend;
     test_publish ''shared'';
     expect_pending 1;
     expect (\<lambda>m. queue_names (sh m)) [''test.alpha''] }"

definition delivery_is_usable_behind_a_trait_object :: "unit test" where
  "delivery_is_usable_behind_a_trait_object = do {
     declared_backend;
     test_publish ''boxed'';
     stream \<leftarrow> consume_queue alpha;
     d \<leftarrow> next_delivery stream;
     let env = d_envelope memory_delivery d;
     unwrap (test_ack d);
     expect (\<lambda>m. acked (sh m) ''test.alpha'') [env] }"

definition queues_are_independent :: "unit test" where
  "queues_are_independent = do {
     unwrap (call (declare_all all_configs));
     a \<leftarrow> new_greet ''a'';
     unwrap (call (publish a None));
     b \<leftarrow> new_ping 1;
     unwrap (call (publish b None));
     expect_pending 1;
     expect (\<lambda>m. pending_count (sh m) ''test.beta'') 1;
     stream \<leftarrow> consume_queue (qs_config TestQueues Beta);
     d \<leftarrow> next_delivery stream;
     check (job_type (d_envelope memory_delivery d) = NAME Ping);
     unwrap (test_ack d);
     expect_pending 1 }"

section \<open>Delays and retries\<close>

definition delayed_publish_is_invisible_until_the_delay_elapses :: "unit test" where
  "delayed_publish_is_invisible_until_the_delay_elapses = do {
     declared_backend;
     env \<leftarrow> new_greet ''later'';
     unwrap (call (publish env (Some (from_secs 30))));
     sleep (from_secs 29);
     expect_pending 0;
     sleep (from_secs 2);
     expect_pending 1;
     stream \<leftarrow> consume_queue alpha;
     d \<leftarrow> next_delivery stream;
     check (job_id (d_envelope memory_delivery d) = job_id env);
     unwrap (test_ack d) }"

definition retry_redelivers_with_a_higher_attempt_after_the_delay :: "unit test" where
  "retry_redelivers_with_a_higher_attempt_after_the_delay = do {
     declared_backend;
     original \<leftarrow> test_publish ''flaky'';
     stream \<leftarrow> consume_queue alpha;
     d \<leftarrow> next_delivery stream;
     unwrap (test_retry d (next_attempt (d_envelope memory_delivery d)) (from_secs 10));
     expect_acked 1;
     expect_pending 0;
     sleep (from_secs 5);
     withheld stream;
     sleep (from_secs 6);
     redelivered \<leftarrow> next_delivery stream;
     check (attempt (d_envelope memory_delivery redelivered) = 2);
     check (job_id (d_envelope memory_delivery redelivered) = job_id original);
     unwrap (test_ack redelivered);
     expect_acked 2 }"

definition retry_without_delay_is_immediate :: "unit test" where
  "retry_without_delay_is_immediate = do {
     declared_backend;
     test_publish ''now'';
     stream \<leftarrow> consume_queue alpha;
     d \<leftarrow> next_delivery stream;
     unwrap (test_retry d (next_attempt (d_envelope memory_delivery d)) 0);
     redelivered \<leftarrow> next_delivery stream;
     check (attempt (d_envelope memory_delivery redelivered) = 2);
     unwrap (test_ack redelivered) }"

section \<open>Priorities\<close>

definition publish_orders_by_priority_and_keeps_each_level_fifo :: "unit test" where
  "publish_orders_by_priority_and_keeps_each_level_fifo = do {
     declared_backend;
     for_each [(''normal-1'', 0), (''urgent-1'', 10), (''normal-2'', 0), (''urgent-2'', 10), (''middle'', 5),
         (''normal-3'', 0)]
       (\<lambda>(n, p). do { publish_with_priority n p; State_Monad.return () });
     names \<leftarrow> look (\<lambda>m. pending_list m ''test.alpha'');
     check (list_all2 is_greet names
       [''urgent-1'', ''urgent-2'', ''middle'', ''normal-1'', ''normal-2'', ''normal-3'']) }"

definition a_higher_priority_publish_overtakes_the_whole_backlog :: "unit test" where
  "a_higher_priority_publish_overtakes_the_whole_backlog = do {
     declared_backend;
     publish_all [''a'', ''b'', ''c''];
     publish_with_priority ''jumper'' 1;
     stream \<leftarrow> consume_queue alpha;
     first \<leftarrow> next_delivery stream;
     check (is_greet (d_envelope memory_delivery first) ''jumper'');
     unwrap (test_ack first) }"

section \<open>Deferrals\<close>

definition defer_holds_the_message_and_then_lands_it_ahead_of_the_backlog :: "unit test" where
  "defer_holds_the_message_and_then_lands_it_ahead_of_the_backlog = do {
     declared_backend;
     publish_all [''backlog-1'', ''backlog-2''];
     env \<leftarrow> new_greet ''held'';
     let held = deferred env 10;
     unwrap (call (backend_defer held (from_secs 30)));
     expect_pending 2;
     expect_deferred 1;
     sleep (from_secs 29);
     expect_pending 2;
     expect_deferred 1;
     sleep (from_secs 2);
     expect_deferred 0;
     names \<leftarrow> look (\<lambda>m. pending_list m ''test.alpha'');
     check (list_all2 is_greet names [''held'', ''backlog-1'', ''backlog-2'']);
     stream \<leftarrow> consume_queue alpha;
     first \<leftarrow> next_delivery stream;
     let e = d_envelope memory_delivery first;
     check (job_id e = job_id held \<and> deferrals e = 1 \<and> priority e = 10 \<and> attempt e = 1);
     unwrap (test_ack first) }"

definition deferred_counts_every_message_in_hold :: "unit test" where
  "deferred_counts_every_message_in_hold = do {
     declared_backend;
     expect_deferred 0;
     expect (\<lambda>m. deferred_count (sh m) ''never.declared'') 0;
     for_each [0, 1, 2 :: nat] (\<lambda>_. do { env \<leftarrow> new_greet ''held''; unwrap (call (backend_defer env (from_secs 5))) });
     expect_deferred 3;
     sleep (from_secs 6);
     expect_deferred 0;
     expect_pending 3 }"

definition a_zero_delay_deferral_never_enters_the_hold :: "unit test" where
  "a_zero_delay_deferral_never_enters_the_hold = do {
     declared_backend;
     env \<leftarrow> new_greet ''now'';
     unwrap (call (backend_defer env 0));
     expect_deferred 0;
     expect_pending 1 }"

definition defer_after_close_reports_the_shutdown :: "unit test" where
  "defer_after_close_reports_the_shutdown = do {
     declared_backend;
     unwrap (call close);
     env \<leftarrow> new_greet ''x'';
     shut_down (call (backend_defer env (from_secs 1)));
     expect_deferred 0;
     expect_pending 0 }"

definition a_deferral_that_lands_after_close_is_dropped :: "unit test" where
  "a_deferral_that_lands_after_close_is_dropped = do {
     declared_backend;
     env \<leftarrow> new_greet ''held'';
     unwrap (call (backend_defer env (from_secs 30)));
     expect_deferred 1;
     unwrap (call close);
     sleep (from_secs 31);
     expect_pending 0;
     expect_deferred 0 }"

definition delivery_defer_acks_the_original_and_reschedules_it :: "unit test" where
  "delivery_defer_acks_the_original_and_reschedules_it = do {
     declared_backend;
     original \<leftarrow> test_publish ''rate-limited'';
     stream \<leftarrow> consume_queue alpha;
     d \<leftarrow> next_delivery stream;
     unwrap (test_defer d (deferred (d_envelope memory_delivery d) 10) (from_secs 30));
     expect_acked 1;
     expect (\<lambda>m. map job_id (acked (sh m) ''test.alpha'')) [job_id original];
     expect (\<lambda>m. map deferrals (acked (sh m) ''test.alpha'')) [0];
     expect_pending 0;
     expect_deferred 1;
     sleep (from_secs 10);
     withheld stream;
     sleep (from_secs 21);
     redelivered \<leftarrow> next_delivery stream;
     let e = d_envelope memory_delivery redelivered;
     check (job_id e = job_id original \<and> attempt e = 1 \<and> deferrals e = 1 \<and> priority e = 10);
     expect_deferred 0;
     unwrap (test_ack redelivered);
     expect_acked 2 }"

definition delivery_defer_frees_a_prefetch_slot :: "unit test" where
  "delivery_defer_frees_a_prefetch_slot = do {
     declared_backend;
     publish_all [''a'', ''b''];
     stream \<leftarrow> consume_queue (set_prefetch 1 (queue_config_new ''test.alpha''));
     first \<leftarrow> next_delivery stream;
     withheld stream;
     unwrap (test_defer first (deferred (d_envelope memory_delivery first) 10) (from_secs 600));
     second \<leftarrow> next_delivery stream;
     check (is_greet (d_envelope memory_delivery second) ''b'');
     unwrap (test_ack second) }"

definition delivery_defer_after_close_reports_the_shutdown :: "unit test" where
  "delivery_defer_after_close_reports_the_shutdown = do {
     declared_backend;
     test_publish ''a'';
     stream \<leftarrow> consume_queue alpha;
     d \<leftarrow> next_delivery stream;
     unwrap (call close);
     shut_down (test_defer d (deferred (d_envelope memory_delivery d) 10) (from_secs 1));
     expect_acked 0;
     expect_deferred 0 }"

section \<open>Dead letters\<close>

definition dead_letter_records_the_reason :: "unit test" where
  "dead_letter_records_the_reason = do {
     declared_backend;
     original \<leftarrow> test_publish ''doomed'';
     stream \<leftarrow> consume_queue alpha;
     d \<leftarrow> next_delivery stream;
     unwrap (test_dead_letter d ''max attempts (3) exhausted'');
     dead \<leftarrow> look (\<lambda>m. dead_letters (sh m) ''test.alpha'');
     check (length dead = 1);
     check (map (\<lambda>(e, r). (job_id e, r)) dead = [(job_id original, ''max attempts (3) exhausted'')]);
     expect_acked 0;
     expect_pending 0 }"

definition dead_letter_frees_a_prefetch_slot :: "unit test" where
  "dead_letter_frees_a_prefetch_slot = do {
     declared_backend;
     publish_all [''a'', ''b''];
     stream \<leftarrow> consume_queue (set_prefetch 1 (queue_config_new ''test.alpha''));
     first \<leftarrow> next_delivery stream;
     withheld stream;
     unwrap (test_dead_letter first ''nope'');
     second \<leftarrow> next_delivery stream;
     check (is_greet (d_envelope memory_delivery second) ''b'');
     unwrap (test_ack second) }"

section \<open>Closing\<close>

definition close_ends_all_streams :: "unit test" where
  "close_ends_all_streams = do {
     declared_backend;
     busy \<leftarrow> consume_queue alpha;
     test_publish ''held'';
     held \<leftarrow> next_delivery busy;
     idle \<leftarrow> consume_queue alpha;
     unwrap (call close);
     ended idle;
     ended busy;
     expect (\<lambda>m. is_closed (sh m)) True;
     unwrap (test_ack held);
     expect_acked 1;
     env \<leftarrow> new_greet ''x'';
     shut_down (call (publish env None));
     shut_down (call (declare_all [alpha])) }"

definition retry_and_dead_letter_after_close_report_the_shutdown :: "unit test" where
  "retry_and_dead_letter_after_close_report_the_shutdown = do {
     declared_backend;
     test_publish ''a'';
     test_publish ''b'';
     stream \<leftarrow> consume_queue alpha;
     first \<leftarrow> next_delivery stream;
     second \<leftarrow> next_delivery stream;
     unwrap (call close);
     shut_down (test_retry first (next_attempt (d_envelope memory_delivery first)) 0);
     shut_down (test_dead_letter second ''too late'');
     expect_acked 0;
     expect (\<lambda>m. dead_letters (sh m) ''test.alpha'') [];
     expect_pending 0 }"

definition a_delayed_publish_that_lands_after_close_is_dropped :: "unit test" where
  "a_delayed_publish_that_lands_after_close_is_dropped = do {
     declared_backend;
     env \<leftarrow> new_greet ''later'';
     unwrap (call (publish env (Some (from_millis 1))));
     unwrap (call close);
     sleep (from_millis 20);
     expect_pending 0 }"

definition consumers_are_forgotten_when_their_streams_are_dropped :: "unit test" where
  "consumers_are_forgotten_when_their_streams_are_dropped = do {
     declared_backend;
     s1 \<leftarrow> consume_queue alpha;
     s2 \<leftarrow> consume_queue alpha;
     s3 \<leftarrow> consume_queue alpha;
     expect (\<lambda>m. consumer_count (sh m) ''test.alpha'') 3;
     for_each [s1, s2, s3] drop_queue_stream;
     yield_until 1000 (\<lambda>m. consumer_count (sh m) ''test.alpha'' = 0);
     expect (\<lambda>m. consumer_count (sh m) ''test.alpha'') 0 }"

definition consuming_after_close_yields_an_ended_stream :: "unit test" where
  "consuming_after_close_yields_an_ended_stream = do {
     declared_backend;
     unwrap (call close);
     stream \<leftarrow> consume_queue alpha;
     ended stream }"

definition dropping_a_stream_returns_undelivered_messages_to_the_queue :: "unit test" where
  "dropping_a_stream_returns_undelivered_messages_to_the_queue = do {
     declared_backend;
     stream \<leftarrow> consume_queue (set_prefetch 2 (queue_config_new ''test.alpha''));
     test_publish ''orphaned'';
     test_publish ''also-orphaned'';
     yield_until 1000 (\<lambda>m. pending_count (sh m) ''test.alpha'' = 0);
     expect_pending 0;
     drop_queue_stream stream;
     expect_pending 2;
     stream \<leftarrow> consume_queue alpha;
     for_each [''orphaned'', ''also-orphaned''] (\<lambda>n. do {
       d \<leftarrow> next_delivery stream;
       check (is_greet (d_envelope memory_delivery d) n);
       unwrap (test_ack d) }) }"

section \<open>The record of settlements\<close>

definition a_plain_ack_is_both_acked_and_succeeded :: "unit test" where
  "a_plain_ack_is_both_acked_and_succeeded = do {
     declared_backend;
     original \<leftarrow> test_publish ''fine'';
     stream \<leftarrow> consume_queue alpha;
     d \<leftarrow> next_delivery stream;
     unwrap (test_ack d);
     expect_acked 1;
     expect (\<lambda>m. map job_id (succeeded (sh m) ''test.alpha'')) [job_id original];
     expect (\<lambda>m. retried (sh m) ''test.alpha'') [];
     expect (\<lambda>m. map snd (settled_log (sh m) ''test.alpha'')) [Succeeded] }"

definition a_retried_attempt_is_acked_but_never_succeeded :: "unit test" where
  "a_retried_attempt_is_acked_but_never_succeeded = do {
     declared_backend;
     original \<leftarrow> test_publish ''flaky'';
     stream \<leftarrow> consume_queue alpha;
     for_each [0, 1 :: nat] (\<lambda>_. do {
       d \<leftarrow> next_delivery stream;
       unwrap (test_retry d (next_attempt (d_envelope memory_delivery d)) 0) });
     d \<leftarrow> next_delivery stream;
     unwrap (test_dead_letter d ''max attempts (3) exhausted'');
     expect_acked 2;
     retried \<leftarrow> look (\<lambda>m. retried (sh m) ''test.alpha'');
     check (length retried = 2);
     check (map attempt retried = [1, 2]);
     check (list_all (\<lambda>e. job_id e = job_id original) retried);
     expect (\<lambda>m. succeeded (sh m) ''test.alpha'') [];
     expect (\<lambda>m. length (dead_letters (sh m) ''test.alpha'')) 1 }"

definition a_deferred_attempt_is_acked_but_never_succeeded :: "unit test" where
  "a_deferred_attempt_is_acked_but_never_succeeded = do {
     declared_backend;
     original \<leftarrow> test_publish ''rate-limited'';
     stream \<leftarrow> consume_queue alpha;
     d \<leftarrow> next_delivery stream;
     unwrap (test_defer d (deferred (d_envelope memory_delivery d) 10) (from_secs 30));
     expect_acked 1;
     expect (\<lambda>m. succeeded (sh m) ''test.alpha'') [];
     expect (\<lambda>m. retried (sh m) ''test.alpha'') [];
     settled \<leftarrow> look (\<lambda>m. settled_log (sh m) ''test.alpha'');
     check (map (\<lambda>(e, k). (job_id e, k)) settled = [(job_id original, Deferred)]);
     expect_deferred 1;
     sleep (from_secs 31);
     expect_deferred 0;
     expect (\<lambda>m. length (settled_log (sh m) ''test.alpha'')) 1 }"

definition settled_reports_every_ack_in_order_with_its_kind :: "unit test" where
  "settled_reports_every_ack_in_order_with_its_kind = do {
     declared_backend;
     test_publish ''eventually'';
     stream \<leftarrow> consume_queue alpha;
     first \<leftarrow> next_delivery stream;
     unwrap (test_retry first (next_attempt (d_envelope memory_delivery first)) 0);
     second \<leftarrow> next_delivery stream;
     unwrap (test_defer second (deferred (d_envelope memory_delivery second) 10) 0);
     third \<leftarrow> next_delivery stream;
     unwrap (test_ack third);
     kinds \<leftarrow> look (\<lambda>m. map (\<lambda>(e, k). (attempt e, k)) (settled_log (sh m) ''test.alpha''));
     check (kinds = [(1, Retried), (2, Deferred), (2, Succeeded)]);
     expect_acked 3;
     expect (\<lambda>m. length (succeeded (sh m) ''test.alpha'')) 1;
     expect (\<lambda>m. length (retried (sh m) ''test.alpha'')) 1 }"

definition the_new_helpers_are_empty_for_an_unknown_queue :: "unit test" where
  "the_new_helpers_are_empty_for_an_unknown_queue = do {
     expect (\<lambda>m. succeeded (sh m) ''never.declared'') [];
     expect (\<lambda>m. retried (sh m) ''never.declared'') [];
     expect (\<lambda>m. settled_log (sh m) ''never.declared'') [] }"

section \<open>Running a test\<close>

text \<open>Evaluation in order: what a step comes to is computed before what follows it is looked at.\<close>

lemma run_bind: "run_state x s = (a, s') \<Longrightarrow> run_state (State_Monad.bind x f) s = run_state (f a) s'"
  by simp

lemma run_look: "run_state (State_Monad.bind (look g) f) s = run_state (f (g (tr_mem s))) s"
  by (simp add: look_def)

lemma pump_eval:
  "run_loop i m = r \<Longrightarrow> pump (numeral k) i m = (case r of None \<Rightarrow> m | Some m' \<Rightarrow> pump (pred_numeral k) i m')"
  "run_loop i m = r \<Longrightarrow> pump (Suc n) i m = (case r of None \<Rightarrow> m | Some m' \<Rightarrow> pump n i m')"
  by (auto simp: numeral_eq_Suc)

lemma fire_due_eval: "next_due m = r \<Longrightarrow> fire_due (Suc n) m = (case r of None \<Rightarrow> m
    | Some i \<Rightarrow> (case fire i m of None \<Rightarrow> m | Some m' \<Rightarrow> fire_due n m'))"
  by simp

text \<open>A test envelope, kept folded.\<close>

definition greet_env :: "uuid \<Rightarrow> string \<Rightarrow> envelope" where
  "greet_env u n = envelope_raw u 1 ''test::Greet'' ''test.alpha'' (JObj [(''name'', JStr n)])"

lemma greet_env_simps:
  "queue (greet_env u n) = ''test.alpha''" "priority (greet_env u n) = 0" "attempt (greet_env u n) = 1"
  "job_id (greet_env u n) = u" "deferrals (greet_env u n) = 0" "is_greet (greet_env u n) n' \<longleftrightarrow> n = n'"
  by (simp_all add: greet_env_def envelope_raw_def is_greet_def decode_def greet_new_def)

lemma alpha_simps: "qc_name alpha = ''test.alpha''" "prefetch alpha = 4"
  by (simp_all add: alpha_def builder_defs queue_config_new_def)

lemma new_greet_run: "run_state (new_greet n) s = (greet_env (tr_fresh s) n, s\<lparr>tr_fresh := tr_fresh s + 1\<rparr>)"
  by (simp add: new_greet_def envelope_new_def greet_env_def envelope_raw_def greet_new_def)

lemma step_runs:
  "run_state (check c) s = ((), s\<lparr>tr_ok := tr_ok s \<and> c\<rparr>)"
  "run_state (look g) s = (g (tr_mem s), s)"
  "f (tr_mem s) = (r, m) \<Longrightarrow> run_last 3 m = m' \<Longrightarrow> run_state (call f) s = (r, s\<lparr>tr_mem := m'\<rparr>)"
  "pump_all (tr_mem s) = m \<Longrightarrow> receive i m = got \<Longrightarrow>
     run_state (next_item i) s = (case got of Some m' \<Rightarrow> (Some (last (handed m')), s\<lparr>tr_mem := m'\<rparr>)
       | None \<Rightarrow> (None, s\<lparr>tr_mem := m, tr_ok := tr_ok s \<and> pc (cons m ! i) = Ended\<rparr>))"
  "pump_all (tr_mem s) = m \<Longrightarrow> run_state (withheld i) s
     = ((), s\<lparr>tr_mem := m, tr_ok := tr_ok s \<and> chan (cons m ! i) = [] \<and> pc (cons m ! i) \<noteq> Ended\<rparr>)"
  "run_state (consume_queue qc) s = (length (cons (tr_mem s)), s\<lparr>tr_mem := consume qc (tr_mem s)\<rparr>)"
  "drop_stream i (tr_mem s) = Some m \<Longrightarrow> run_state (drop_queue_stream i) s = ((), s\<lparr>tr_mem := m\<rparr>)"
  "pump_all (tr_mem s) = m \<Longrightarrow> run_state yield_now s = ((), s\<lparr>tr_mem := m\<rparr>)"
  "fire_due (length (timers (tr_mem s))) ((tr_mem s)\<lparr>clock := clock (tr_mem s) + d\<rparr>) = m \<Longrightarrow>
     run_state (sleep d) s = ((), s\<lparr>tr_mem := m\<rparr>)"
  by (simp_all add: check_def look_def call_def next_item_def withheld_def consume_queue_def drop_queue_stream_def
      yield_now_def sleep_def split: option.split)

lemmas run_rules = run_look run_bind new_greet_run step_runs pump_eval

lemmas program_defs = unwrap_def shut_down_def next_delivery_def test_ack_def test_retry_def test_defer_def
  test_dead_letter_def declared_backend_def test_publish_def pump_all_def

lemma delivery_calls:
  "d_envelope memory_delivery d = snd d"
  "d_ack memory_delivery d m = mem_call (delivery_ack (position d (handed m)) m) m"
  "d_dead_letter memory_delivery d r m = mem_call (delivery_dead_letter (position d (handed m)) r m) m"
  "d_retry memory_delivery d e t m = mem_call (delivery_retry (position d (handed m)) e t m) m"
  "d_defer memory_delivery d e t m = mem_call (delivery_defer (position d (handed m)) e t m) m"
  by (simp_all add: memory_delivery_def)

lemmas machine_defs = mem_new_def shared_new_def declare_all_def declare_queues_def declare_one_def queue_state_new_def
  publish_def schedule_actions_def hold_actions_def backend_defer_def spawn_thread_def run_thread_def enqueue_now_def
  queue_mut_def get_mut_def wake_def insert_by_priority_def insert_pending_def insert_at_def pending_count_def consume_def
  register_consumer_def queue_at_def run_loop_def loop_step_def pop_pending_def receive_def delivery_calls
  delivery_ack_def delivery_dead_letter_def delivery_retry_def delivery_defer_def take_delivery_def position_def
  remove_nth_def release_permits_def record_ack_def record_dead_def acked_def settled_by_def leave_def
  close_def close_shared_def drained_def drop_stream_def requeue_unread_def push_back_to_front_def unregister_consumer_def
  fire_def release_hold_def hold_one_def succeeded_def retried_def settled_log_def deferred_count_def dead_letters_def
  queue_config_of_def

lemma envelope_successors:
  "is_greet (e\<lparr>priority := p\<rparr>) n = is_greet e n" "is_greet (next_attempt e) n = is_greet e n"
  "is_greet (deferred e p) n = is_greet e n" "queue (next_attempt e) = queue e" "queue (deferred e p) = queue e"
  "job_id (next_attempt e) = job_id e" "job_id (deferred e p) = job_id e" "attempt (next_attempt e) = attempt e + 1"
  "attempt (deferred e p) = attempt e" "priority (next_attempt e) = 0" "priority (deferred e p) = p"
  "deferrals (next_attempt e) = deferrals e" "deferrals (deferred e p) = deferrals e + 1"
  by (simp_all add: is_greet_def decode_def next_attempt_def deferred_def)

lemma new_ping_run: "run_state (new_ping k) s
    = (envelope_raw (tr_fresh s) 1 ''test::Ping'' ''test.beta'' (JObj [(''seq'', JInt (uint k))]), s\<lparr>tr_fresh := tr_fresh s + 1\<rparr>)"
  by (simp add: new_ping_def envelope_new_def envelope_raw_def)

lemma yield_until_numeral: "yield_until (numeral k) P = do { b \<leftarrow> look P; if b then State_Monad.return ()
    else do { yield_now; yield_until (pred_numeral k) P } }"
  by (simp add: numeral_eq_Suc)

declare run_state_bind [simp del] pump.simps [simp del] fire_due.simps [simp del]

lemmas test_rules = passes_def run_rules fire_due.simps(1) pump.simps(1) program_defs machine_defs greet_env_simps alpha_simps envelope_successors new_ping_run
  yield_until_numeral fire_due_eval next_due_def Let_def numeral_3_eq_3 expect_def expect_pending_def expect_deferred_def
  expect_acked_def ended_def publish_all_def publish_with_priority_def pending_list_def queue_names_def is_closed_def
  consumer_count_def all_configs_def

lemmas unit_rules = from_secs_def from_millis_def nanos_per_sec_def nanos_per_milli_def

lemmas fixture_rules = builder_defs queue_config_new_def envelope_raw_def policy_none_def

lemma declare_is_idempotent_passes: "passes declare_is_idempotent"
  by (simp add: declare_is_idempotent_def test_rules)

lemma declares_every_queue_of_a_queue_set_passes: "passes declares_every_queue_of_a_queue_set"
  by (simp add: declares_every_queue_of_a_queue_set_def test_rules fixture_rules)

lemma publish_then_consume_is_fifo_passes: "passes publish_then_consume_is_fifo"
  by (simp add: publish_then_consume_is_fifo_def test_rules)

lemma consumer_started_before_publish_receives_messages_passes: "passes consumer_started_before_publish_receives_messages"
  by (simp add: consumer_started_before_publish_receives_messages_def test_rules)

lemma prefetch_caps_outstanding_deliveries_passes: "passes prefetch_caps_outstanding_deliveries"
  by (simp add: prefetch_caps_outstanding_deliveries_def test_rules fixture_rules)

lemma zero_prefetch_means_unlimited_passes: "passes zero_prefetch_means_unlimited"
  by (simp add: zero_prefetch_means_unlimited_def test_rules fixture_rules MAX_PERMITS_def)

lemma multiple_consumers_share_one_queue_passes: "passes multiple_consumers_share_one_queue"
  by (simp add: multiple_consumers_share_one_queue_def test_rules fixture_rules)

lemma clones_share_state_passes: "passes clones_share_state"
  by (simp add: clones_share_state_def test_rules)

lemma delivery_is_usable_behind_a_trait_object_passes: "passes delivery_is_usable_behind_a_trait_object"
  by (simp add: delivery_is_usable_behind_a_trait_object_def test_rules)

lemma queues_are_independent_passes: "passes queues_are_independent"
  by (simp add: queues_are_independent_def test_rules fixture_rules)

lemma delayed_publish_is_invisible_until_the_delay_elapses_passes: "passes delayed_publish_is_invisible_until_the_delay_elapses"
  by (simp add: delayed_publish_is_invisible_until_the_delay_elapses_def test_rules unit_rules)

lemma retry_redelivers_with_a_higher_attempt_after_the_delay_passes: "passes retry_redelivers_with_a_higher_attempt_after_the_delay"
  by (simp add: retry_redelivers_with_a_higher_attempt_after_the_delay_def test_rules unit_rules)

lemma retry_without_delay_is_immediate_passes: "passes retry_without_delay_is_immediate"
  by (simp add: retry_without_delay_is_immediate_def test_rules)

lemma publish_orders_by_priority_and_keeps_each_level_fifo_passes: "passes publish_orders_by_priority_and_keeps_each_level_fifo"
  by (simp add: publish_orders_by_priority_and_keeps_each_level_fifo_def test_rules)

lemma a_higher_priority_publish_overtakes_the_whole_backlog_passes: "passes a_higher_priority_publish_overtakes_the_whole_backlog"
  by (simp add: a_higher_priority_publish_overtakes_the_whole_backlog_def test_rules)

lemma defer_holds_the_message_and_then_lands_it_ahead_of_the_backlog_passes: "passes defer_holds_the_message_and_then_lands_it_ahead_of_the_backlog"
  by (simp add: defer_holds_the_message_and_then_lands_it_ahead_of_the_backlog_def test_rules unit_rules)

lemma deferred_counts_every_message_in_hold_passes: "passes deferred_counts_every_message_in_hold"
  by (simp add: deferred_counts_every_message_in_hold_def test_rules unit_rules)

lemma a_zero_delay_deferral_never_enters_the_hold_passes: "passes a_zero_delay_deferral_never_enters_the_hold"
  by (simp add: a_zero_delay_deferral_never_enters_the_hold_def test_rules)

lemma defer_after_close_reports_the_shutdown_passes: "passes defer_after_close_reports_the_shutdown"
  by (simp add: defer_after_close_reports_the_shutdown_def test_rules unit_rules)

lemma a_deferral_that_lands_after_close_is_dropped_passes: "passes a_deferral_that_lands_after_close_is_dropped"
  by (simp add: a_deferral_that_lands_after_close_is_dropped_def test_rules unit_rules)

lemma delivery_defer_acks_the_original_and_reschedules_it_passes: "passes delivery_defer_acks_the_original_and_reschedules_it"
  by (simp add: delivery_defer_acks_the_original_and_reschedules_it_def test_rules unit_rules)

lemma delivery_defer_frees_a_prefetch_slot_passes: "passes delivery_defer_frees_a_prefetch_slot"
  by (simp add: delivery_defer_frees_a_prefetch_slot_def test_rules unit_rules fixture_rules)

lemma delivery_defer_after_close_reports_the_shutdown_passes: "passes delivery_defer_after_close_reports_the_shutdown"
  by (simp add: delivery_defer_after_close_reports_the_shutdown_def test_rules unit_rules)

lemma dead_letter_records_the_reason_passes: "passes dead_letter_records_the_reason"
  by (simp add: dead_letter_records_the_reason_def test_rules)

lemma dead_letter_frees_a_prefetch_slot_passes: "passes dead_letter_frees_a_prefetch_slot"
  by (simp add: dead_letter_frees_a_prefetch_slot_def test_rules fixture_rules)

lemma close_ends_all_streams_passes: "passes close_ends_all_streams"
  by (simp add: close_ends_all_streams_def test_rules)

lemma retry_and_dead_letter_after_close_report_the_shutdown_passes: "passes retry_and_dead_letter_after_close_report_the_shutdown"
  by (simp add: retry_and_dead_letter_after_close_report_the_shutdown_def test_rules)

lemma a_delayed_publish_that_lands_after_close_is_dropped_passes: "passes a_delayed_publish_that_lands_after_close_is_dropped"
  by (simp add: a_delayed_publish_that_lands_after_close_is_dropped_def test_rules unit_rules)

lemma consumers_are_forgotten_when_their_streams_are_dropped_passes: "passes consumers_are_forgotten_when_their_streams_are_dropped"
  by (simp add: consumers_are_forgotten_when_their_streams_are_dropped_def test_rules)

lemma consuming_after_close_yields_an_ended_stream_passes: "passes consuming_after_close_yields_an_ended_stream"
  by (simp add: consuming_after_close_yields_an_ended_stream_def test_rules)

lemma dropping_a_stream_returns_undelivered_messages_to_the_queue_passes: "passes dropping_a_stream_returns_undelivered_messages_to_the_queue"
  by (simp add: dropping_a_stream_returns_undelivered_messages_to_the_queue_def test_rules fixture_rules)

lemma a_plain_ack_is_both_acked_and_succeeded_passes: "passes a_plain_ack_is_both_acked_and_succeeded"
  by (simp add: a_plain_ack_is_both_acked_and_succeeded_def test_rules)

lemma a_retried_attempt_is_acked_but_never_succeeded_passes: "passes a_retried_attempt_is_acked_but_never_succeeded"
  by (simp add: a_retried_attempt_is_acked_but_never_succeeded_def test_rules)

lemma a_deferred_attempt_is_acked_but_never_succeeded_passes: "passes a_deferred_attempt_is_acked_but_never_succeeded"
  by (simp add: a_deferred_attempt_is_acked_but_never_succeeded_def test_rules unit_rules)

lemma settled_reports_every_ack_in_order_with_its_kind_passes: "passes settled_reports_every_ack_in_order_with_its_kind"
  by (simp add: settled_reports_every_ack_in_order_with_its_kind_def test_rules)

lemma the_new_helpers_are_empty_for_an_unknown_queue_passes: "passes the_new_helpers_are_empty_for_an_unknown_queue"
  by (simp add: the_new_helpers_are_empty_for_an_unknown_queue_def test_rules)

end
