(* ===== verification/Producer_Tests.thy ===== *)
theory Producer_Tests
  imports Memory_Tests
begin

text \<open>
  The unit tests of \<open>crates/core/src/producer.rs\<close>: a producer over the in-memory backend, in the harness of
  \<open>Memory_Tests\<close>. An enqueue draws the next id and runs to its end.
\<close>

definition produce :: "(uuid \<Rightarrow> mem \<Rightarrow> (string error + uuid) \<times> mem) \<Rightarrow> (string error + uuid) test" where
  "produce f = State (\<lambda>s. case f (tr_fresh s) (tr_mem s) of
     (r, m) \<Rightarrow> (r, s\<lparr>tr_mem := run_last 3 m, tr_fresh := tr_fresh s + 1\<rparr>))"

definition unwrap_id :: "(string error + uuid) test \<Rightarrow> uuid test" where
  "unwrap_id t = do { r \<leftarrow> t; check (is_ok r); State_Monad.return (case r of Inr i \<Rightarrow> i | Inl _ \<Rightarrow> 0) }"

abbreviation test_enqueue :: "('j, test_queues) job \<Rightarrow> 'j \<Rightarrow> (string error + uuid) test" where
  "test_enqueue J j \<equiv> produce (\<lambda>u. enqueue memory_backend TestQueues u 1 J j)"

abbreviation test_enqueue_with :: "('j, test_queues) job \<Rightarrow> 'j \<Rightarrow> enqueue_options \<Rightarrow> (string error + uuid) test" where
  "test_enqueue_with J j opts \<equiv> produce (\<lambda>u. enqueue_with memory_backend TestQueues u 1 J j opts)"

abbreviation test_producer_defer :: "('j, test_queues) job \<Rightarrow> 'j \<Rightarrow> duration \<Rightarrow> (string error + uuid) test" where
  "test_producer_defer J j d \<equiv> produce (\<lambda>u. producer_defer memory_backend TestQueues u 1 J j d)"

definition producer :: "unit test" where
  "producer = unwrap (call (producer_new memory_backend TestQueues))"

definition peek_one :: "test_queues \<Rightarrow> envelope test" where
  "peek_one q = do {
     stream \<leftarrow> consume_queue (qs_config TestQueues q);
     d \<leftarrow> next_delivery stream;
     let env = d_envelope memory_delivery d;
     unwrap (test_ack d);
     drop_queue_stream stream;
     State_Monad.return env }"

section \<open>The tests\<close>

definition enqueue_with_carries_the_correlation_id :: "unit test" where
  "enqueue_with_carries_the_correlation_id = do {
     producer;
     unwrap_id (test_enqueue_with Greet (greet_new ''traced'') (options_correlation_id ''trace-abc'' options_now));
     env \<leftarrow> peek_one Alpha;
     check (correlation_id env = Some ''trace-abc'') }"

definition a_plain_enqueue_has_no_correlation_id :: "unit test" where
  "a_plain_enqueue_has_no_correlation_id = do {
     producer;
     unwrap_id (test_enqueue Greet (greet_new ''plain''));
     env \<leftarrow> peek_one Alpha;
     check (correlation_id env = None) }"

definition options_schedule_a_delay_and_a_deferral_like_the_shorthands :: "unit test" where
  "options_schedule_a_delay_and_a_deferral_like_the_shorthands = do {
     producer;
     unwrap_id (test_enqueue_with Greet (greet_new ''later'')
       (options_correlation_id ''delayed'' (options_after (from_secs 10))));
     unwrap_id (test_enqueue_with Greet (greet_new ''ahead'')
       (options_correlation_id ''deferred'' (options_deferred (from_secs 10))));
     expect_pending 0;
     expect_deferred 1;
     sleep (from_secs 11);
     expect_pending 2;
     first \<leftarrow> peek_one Alpha;
     check (correlation_id first = Some ''deferred'');
     check (priority first = 10);
     second \<leftarrow> peek_one Alpha;
     check (correlation_id second = Some ''delayed'');
     check (priority second = 0) }"

definition defer_holds_the_job_and_returns_it_at_the_queue_top_priority :: "unit test" where
  "defer_holds_the_job_and_returns_it_at_the_queue_top_priority = do {
     producer;
     unwrap_id (test_enqueue Greet (greet_new ''backlog''));
     i \<leftarrow> unwrap_id (test_producer_defer Greet (greet_new ''held'') (from_secs 30));
     expect_deferred 1;
     expect_pending 1;
     sleep (from_secs 29);
     expect_pending 1;
     sleep (from_secs 2);
     expect_deferred 0;
     expect_pending 2;
     stream \<leftarrow> consume_queue (qs_config TestQueues Alpha);
     first \<leftarrow> next_delivery stream;
     let env = d_envelope memory_delivery first;
     check (job_id env = i);
     check (priority env = 10);
     check (deferrals env = 0);
     check (attempt env = 1);
     unwrap (test_ack first) }"

definition defer_on_a_queue_without_priorities_uses_zero :: "unit test" where
  "defer_on_a_queue_without_priorities_uses_zero = do {
     producer;
     unwrap_id (test_producer_defer Nudge \<lparr>nudge_id = 1\<rparr> (from_secs 5));
     sleep (from_secs 6);
     stream \<leftarrow> consume_queue (qs_config TestQueues Gamma);
     d \<leftarrow> next_delivery stream;
     check (priority (d_envelope memory_delivery d) = 0);
     check (deferrals (d_envelope memory_delivery d) = 0);
     unwrap (test_ack d) }"

definition defer_on_a_closed_backend_fails :: "unit test" where
  "defer_on_a_closed_backend_fails = do {
     producer;
     unwrap (call close);
     r \<leftarrow> test_producer_defer Greet (greet_new ''x'') (from_secs 1);
     check (r = Inl ShutDown) }"

section \<open>Running them\<close>

lemma produce_runs:
  "f (tr_fresh s) (tr_mem s) = (r, m) \<Longrightarrow> run_last 3 m = m' \<Longrightarrow>
     run_state (produce f) s = (r, s\<lparr>tr_mem := m', tr_fresh := tr_fresh s + 1\<rparr>)"
  by (simp add: produce_def)

text \<open>The envelope an enqueue submits stays folded.\<close>

lemma enqueued_simps:
  "job_id (enqueued Q u now J v opts) = u" "queue (enqueued Q u now J v opts) = qs_name Q (QUEUE J)"
  "attempt (enqueued Q u now J v opts) = 1" "deferrals (enqueued Q u now J v opts) = 0"
  "job_type (enqueued Q u now J v opts) = NAME J"
  "correlation_id (enqueued Q u now J v opts) = eo_correlation_id opts"
  "priority (enqueued Q u now J v opts)
    = (case eo_schedule opts of Deferred_For d \<Rightarrow> top_priority (qs_config Q (QUEUE J)) | _ \<Rightarrow> 0)"
  by (simp_all add: enqueued_def)

lemma options_simps:
  "eo_schedule options_now = Now" "eo_schedule (options_after d) = After d"
  "eo_schedule (options_deferred d) = Deferred_For d" "eo_schedule (options_correlation_id c opts) = eo_schedule opts"
  "eo_correlation_id options_now = None" "eo_correlation_id (options_after d) = None"
  "eo_correlation_id (options_deferred d) = None" "eo_correlation_id (options_correlation_id c opts) = Some c"
  by (simp_all add: options_now_def options_after_def options_deferred_def options_correlation_id_def)

text \<open>So does the configuration of a queue.\<close>

lemma test_config_simps:
  "qc_name (test_queue_config q) = test_queue_name q"
  "prefetch (test_queue_config Alpha) = 4" "prefetch (test_queue_config Beta) = 2"
  "prefetch (test_queue_config Gamma) = 1"
  "top_priority (test_queue_config Alpha) = 10" "top_priority (test_queue_config Beta) = 10"
  "top_priority (test_queue_config Gamma) = 0"
  by (cases q) (simp_all add: top_priority_def builder_defs queue_config_new_def DEFAULT_MAX_PRIORITY_def)

declare test_queue_config.simps [simp del]

lemma backend_calls:
  "b_declare memory_backend = declare_all" "b_publish memory_backend = publish"
  "b_defer memory_backend = backend_defer" "b_close memory_backend = close"
  by (simp_all add: memory_backend_def)

lemmas producer_rules = produce_runs unwrap_id_def producer_def peek_one_def enqueue_def producer_defer_def
  enqueue_with_eq enqueued_simps options_simps test_config_simps then_ok_def producer_new_def backend_calls

lemma enqueue_with_carries_the_correlation_id_passes: "passes enqueue_with_carries_the_correlation_id"
  by (simp add: enqueue_with_carries_the_correlation_id_def test_rules producer_rules)

lemma a_plain_enqueue_has_no_correlation_id_passes: "passes a_plain_enqueue_has_no_correlation_id"
  by (simp add: a_plain_enqueue_has_no_correlation_id_def test_rules producer_rules)

lemma options_schedule_a_delay_and_a_deferral_like_the_shorthands_passes: "passes options_schedule_a_delay_and_a_deferral_like_the_shorthands"
  by (simp add: options_schedule_a_delay_and_a_deferral_like_the_shorthands_def test_rules producer_rules unit_rules)

lemma defer_holds_the_job_and_returns_it_at_the_queue_top_priority_passes: "passes defer_holds_the_job_and_returns_it_at_the_queue_top_priority"
  by (simp add: defer_holds_the_job_and_returns_it_at_the_queue_top_priority_def test_rules producer_rules unit_rules)

lemma defer_on_a_queue_without_priorities_uses_zero_passes: "passes defer_on_a_queue_without_priorities_uses_zero"
  by (simp add: defer_on_a_queue_without_priorities_uses_zero_def test_rules producer_rules unit_rules)

lemma defer_on_a_closed_backend_fails_passes: "passes defer_on_a_closed_backend_fails"
  by (simp add: defer_on_a_closed_backend_fails_def test_rules producer_rules unit_rules)

end
