(* ===== verification/Worker_Harness.thy ===== *)
theory Worker_Harness
  imports Producer_Tests Worker_Build
begin

text \<open>
  The harness of the unit tests of \<open>crates/core/src/worker.rs\<close>: a worker over the in-memory backend, served
  on the schedule the paused single-threaded runtime gives a test. While a condition is awaited the worker
  takes the next delivery its streams have and processes it to its settlement; when there is none the
  clock advances to the next timer. Handlers that count their runs are a function of the number of the
  run; what they were entered with is recorded. Jobs of one test run one after the other.
\<close>

record worker_run =
  wr_test :: test_run
  wr_seen :: "(envelope \<times> retry_policy) list"
  wr_hooked :: "dead_letter list"
  wr_failures :: u64

type_synonym 'a wtest = "(worker_run, 'a) state"
type_synonym test_builder = "test_queues worker_builder"

section \<open>The worker\<close>

definition worker_of :: "test_builder \<Rightarrow> worker" where
  "worker_of wb = projr (fst (build memory_backend TestQueues wb mem_new))"

definition the_mem :: "worker_run \<Rightarrow> mem" where
  "the_mem s = tr_mem (wr_test s)"

definition set_mem :: "mem \<Rightarrow> worker_run \<Rightarrow> worker_run" where
  "set_mem m s = s\<lparr>wr_test := (wr_test s)\<lparr>tr_mem := m\<rparr>\<rparr>"

definition failed :: "worker_run \<Rightarrow> worker_run" where
  "failed s = s\<lparr>wr_test := (wr_test s)\<lparr>tr_ok := False\<rparr>\<rparr>"

text \<open>What a handler was entered with, if the delivery reached one.\<close>

definition entered :: "worker \<Rightarrow> envelope \<Rightarrow> (envelope \<times> retry_policy) list" where
  "entered w e = (case w_handlers w (job_type e) of
       None \<Rightarrow> []
     | Some eh \<Rightarrow> (case eh_run eh 1 e (w_job_timeout w)
           (case w_policies w (job_type e) of Some q \<Rightarrow> q | None \<Rightarrow> declared_policy eh) of
         Ran (OutDecode r) p \<Rightarrow> []
       | Ran out p \<Rightarrow> [(e, p)]
       | _ \<Rightarrow> []))"

type_synonym test_deliveries = "(nat \<times> envelope, mem, string) delivery_ops"

definition serve :: "platform \<Rightarrow> test_deliveries \<Rightarrow> (nat \<Rightarrow> test_builder) \<Rightarrow> nat \<times> envelope \<Rightarrow> worker_run \<Rightarrow> worker_run" where
  "serve pf D wb d s = (let w = worker_of (wb (Suc (length (wr_seen s)))) in
     case process pf D (w_handlers w) (w_policies w) (w_hook w) (w_job_timeout w) 1 d
       \<lparr>bk = the_mem s, failures = wr_failures s, hooked = wr_hooked s\<rparr> of
       Done p \<Rightarrow> set_mem (run_last 3 (bk p)) (s\<lparr>wr_seen := wr_seen s @ entered w (snd d),
         wr_hooked := hooked p, wr_failures := failures p\<rparr>)
     | _ \<Rightarrow> failed s)"

section \<open>Its schedule\<close>

fun take_ready :: "nat list \<Rightarrow> mem \<Rightarrow> mem option" where
  "take_ready [] m = None"
| "take_ready (i # is) m = (case receive i m of Some m' \<Rightarrow> Some m' | None \<Rightarrow> take_ready is m)"

definition advance :: "mem \<Rightarrow> mem option" where
  "advance m = (case timers m of [] \<Rightarrow> None
     | t # ts \<Rightarrow> Some (fire_due (length (timers m)) (m\<lparr>clock := max (clock m) (foldl min (fst t) (map fst ts))\<rparr>)))"

definition turn :: "platform \<Rightarrow> test_deliveries \<Rightarrow> (nat \<Rightarrow> test_builder) \<Rightarrow> nat list \<Rightarrow> worker_run \<Rightarrow> worker_run" where
  "turn pf D wb streams s = (let m = pump_all (the_mem s) in case take_ready streams m of
       Some m' \<Rightarrow> serve pf D wb (last (handed m')) (set_mem m' s)
     | None \<Rightarrow> (case advance m of Some m' \<Rightarrow> set_mem m' s | None \<Rightarrow> failed s))"

fun run_until :: "nat \<Rightarrow> platform \<Rightarrow> test_deliveries \<Rightarrow> (nat \<Rightarrow> test_builder) \<Rightarrow> nat list \<Rightarrow> (worker_run \<Rightarrow> bool) \<Rightarrow> worker_run
    \<Rightarrow> worker_run" where
  "run_until 0 pf D wb streams P s = (if P s then s else failed s)"
| "run_until (Suc n) pf D wb streams P s = (if P s then s else run_until n pf D wb streams P (turn pf D wb streams s))"

definition wait_on :: "platform \<Rightarrow> test_deliveries \<Rightarrow> (nat \<Rightarrow> test_builder) \<Rightarrow> nat list \<Rightarrow> (worker_run \<Rightarrow> bool) \<Rightarrow> unit wtest" where
  "wait_on pf D wb streams P = State (\<lambda>s. ((), run_until 30 pf D wb streams P s))"

abbreviation wait_for :: "platform \<Rightarrow> (nat \<Rightarrow> test_builder) \<Rightarrow> nat list \<Rightarrow> (worker_run \<Rightarrow> bool) \<Rightarrow> unit wtest" where
  "wait_for pf \<equiv> wait_on pf memory_delivery"

section \<open>Steps of a test\<close>

definition on_backend :: "'a test \<Rightarrow> 'a wtest" where
  "on_backend t = State (\<lambda>s. case run_state t (wr_test s) of (a, u) \<Rightarrow> (a, s\<lparr>wr_test := u\<rparr>))"

text \<open>\<open>build().await.unwrap()\<close> and \<open>start\<close>: the streams of the worker.\<close>

definition start :: "test_builder \<Rightarrow> nat list wtest" where
  "start wb = State (\<lambda>s. case build memory_backend TestQueues wb (the_mem s) of
       (Inl e, m) \<Rightarrow> ([], failed s)
     | (Inr w, m) \<Rightarrow> ([length (cons m)..<length (cons m) + length (w_queues w)],
         set_mem (foldl (\<lambda>m c. consume c m) m (w_queues w)) s))"

text \<open>\<open>stop\<close>, with nothing in flight: the streams are dropped and the backend is closed if that was asked for.\<close>

definition stop_worker :: "test_builder \<Rightarrow> nat list \<Rightarrow> unit wtest" where
  "stop_worker wb streams = on_backend (do { for_each streams drop_queue_stream;
     if wb_close_backend wb then unwrap (call close) else State_Monad.return () })"

definition enqueue_job :: "('j, test_queues) job \<Rightarrow> 'j \<Rightarrow> uuid wtest" where
  "enqueue_job J j = on_backend (unwrap_id (test_enqueue J j))"

definition assert :: "(worker_run \<Rightarrow> bool) \<Rightarrow> unit wtest" where
  "assert P = State (\<lambda>s. ((), if P s then s else failed s))"

definition passes_w :: "unit wtest \<Rightarrow> bool" where
  "passes_w t \<longleftrightarrow> tr_ok (wr_test (snd (run_state t \<lparr>wr_test = \<lparr>tr_mem = mem_new, tr_ok = True, tr_fresh = 1\<rparr>,
     wr_seen = [], wr_hooked = [], wr_failures = 0\<rparr>)))"

text \<open>Handlers: \<open>f\<close> as an \<open>FnHandler\<close>; an assertion of a handler that fails is a panic of its task.\<close>

definition with_handler :: "('j, test_queues) job \<Rightarrow> 'j job_handler \<Rightarrow> test_builder \<Rightarrow> test_builder" where
  "with_handler J H = add_handler J (erase (\<lambda>e :: string. e) debug_duration TestQueues J H)"

definition fn_handler :: "('j, test_queues) job \<Rightarrow> ('j \<Rightarrow> job_context \<Rightarrow> (job_error + unit) outcome)
    \<Rightarrow> test_builder \<Rightarrow> test_builder" where
  "fn_handler J f = with_handler J (FnHandler f)"

definition ensuring :: "bool \<Rightarrow> job_error + unit \<Rightarrow> (job_error + unit) outcome" where
  "ensuring b r = (if b then Returns 0 r else Panics 0)"

definition giving :: "job_error + unit \<Rightarrow> 'j \<Rightarrow> job_context \<Rightarrow> (job_error + unit) outcome" where
  "giving r j ctx = Returns 0 r"

definition attempts :: "worker_run \<Rightarrow> nat" where
  "attempts s = length (wr_seen s)"

definition acked_at :: "string \<Rightarrow> worker_run \<Rightarrow> envelope list" where
  "acked_at n s = acked (sh (the_mem s)) n"

definition dead_at :: "string \<Rightarrow> worker_run \<Rightarrow> (envelope \<times> string) list" where
  "dead_at n s = dead_letters (sh (the_mem s)) n"

section \<open>Evaluation\<close>

lemma decode_enqueued: "decode J (enqueued Q u now J' v opts)
    = (case from_value J v of Inl m \<Rightarrow> Inl (Serde m) | Inr j \<Rightarrow> Inr j)"
  by (simp add: decode_def enqueued_def)

lemma decode_successors [simp]:
  "decode J (next_attempt e) = decode J e" "decode J (deferred e p) = decode J e"
  "job_type (next_attempt e) = job_type e" "job_type (deferred e p) = job_type e"
  "correlation_id (next_attempt e) = correlation_id e" "correlation_id (deferred e p) = correlation_id e"
  by (simp_all add: decode_def next_attempt_def deferred_def)

text \<open>A worker is what was handed to its builder.\<close>

lemma worker_of_simps:
  assumes "distinct (map fst (wb_handlers b))"
  shows "w_handlers (worker_of b) = map_of (wb_handlers b)"
    and "w_policies (worker_of b) = resolve_policies b (map_of (wb_handlers b))"
    and "w_hook (worker_of b) = wb_hook b" and "w_job_timeout (worker_of b) = wb_job_timeout b"
proof -
  have "build_handlers (wb_handlers b) (\<lambda>_. None) = (Inr (map_of (wb_handlers b)) :: string error + _)"
    using assms by (simp add: build_handlers_ok)
  then show "w_handlers (worker_of b) = map_of (wb_handlers b)"
    "w_policies (worker_of b) = resolve_policies b (map_of (wb_handlers b))"
    "w_hook (worker_of b) = wb_hook b" "w_job_timeout (worker_of b) = wb_job_timeout b"
    by (simp_all add: worker_of_def build_def Let_def memory_backend_def declare_all_def declare_queues_def mem_new_def
        shared_new_def)
qed

lemma alpha_policy: "qc_retry (test_queue_config Alpha) = policy_fixed 3 (from_secs 1)"
  "qc_retry (test_queue_config Beta) = policy_none" "qc_retry (test_queue_config Gamma) = policy_none"
  by (simp_all add: test_queue_config.simps builder_defs queue_config_new_def policy_new_def policy_fixed_def ALPHA_DELAY_def)

lemma decide_fixed: "decide pf (policy_fixed n d) a = (if n \<le> a then Some GiveUp else Some (Retry d))"
  by (simp add: decide_def policy_fixed_def delay_for_def)

lemma decide_none: "decide pf policy_none a = (if 1 \<le> a then Some GiveUp else Some (Retry 0))"
  by (simp add: decide_def policy_none_def default_policy_def delay_for_def)

lemma more_than_one: "\<not> (2 :: u32) \<le> 1" "\<not> (3 :: u32) \<le> 1" "\<not> (5 :: u32) \<le> 1"
  by (simp_all add: word_le_nat_alt)

lemma policy_max: "max_attempts (policy_fixed n d) = n" "max_attempts policy_none = 1"
  by (simp_all add: policy_fixed_def policy_none_def default_policy_def)

lemma turn_eval: "pump_all (the_mem s) = m \<Longrightarrow> take_ready streams m = r \<Longrightarrow>
    turn pf D wb streams s = (case r of Some m' \<Rightarrow> serve pf D wb (last (handed m')) (set_mem m' s)
      | None \<Rightarrow> (case advance m of Some m' \<Rightarrow> set_mem m' s | None \<Rightarrow> failed s))"
  by (simp add: turn_def)

lemma ready_eval: "receive i m = r \<Longrightarrow> take_ready (i # is) m = (case r of Some m' \<Rightarrow> Some m' | None \<Rightarrow> take_ready is m)"
  by simp

lemma until_eval: "run_until (numeral k) pf D wb streams P s
    = (if P s then s else run_until (pred_numeral k) pf D wb streams P (turn pf D wb streams s))"
  by (simp add: numeral_eq_Suc)

lemma worker_runs:
  "run_until 30 pf D wb streams P s = s' \<Longrightarrow> run_state (wait_on pf D wb streams P) s = ((), s')"
  "run_state t (wr_test s) = (a, u) \<Longrightarrow> run_state (on_backend t) s = (a, s\<lparr>wr_test := u\<rparr>)"
  "build memory_backend TestQueues w0 (the_mem s) = b \<Longrightarrow> run_state (start w0) s = (case b of
       (Inl e, m) \<Rightarrow> ([], failed s)
     | (Inr w, m) \<Rightarrow> ([length (cons m)..<length (cons m) + length (w_queues w)],
         set_mem (foldl (\<lambda>m c. consume c m) m (w_queues w)) s))"
  "run_state (assert Q) s = ((), if Q s then s else failed s)"
  by (simp_all add: wait_on_def on_backend_def start_def assert_def)

declare run_until.simps [simp del] take_ready.simps(2) [simp del]

lemmas worker_rules = passes_w_def worker_runs turn_eval ready_eval until_eval run_until.simps serve_def advance_def
  the_mem_def set_mem_def failed_def entered_def stop_worker_def enqueue_job_def with_handler_def fn_handler_def
  ensuring_def giving_def attempts_def acked_at_def dead_at_def

lemmas dispatch_rules = worker_of_simps alpha_policy decide_fixed decide_none more_than_one policy_max decode_enqueued process_def dispatch_def
  settle_def give_up_def notify_dead_def then_flow_def erase_def run_job_def await_job_def yields_def job_declared_policy_def
  job_context_of_def FnHandler_def default_set_retry_policy_def resolve_policies_def is_last_attempt_def
  retryable_msg_def fatal_msg_def job_deferred_def deferred_msg_def

lemmas builder_rules = builder_def add_handler_def set_queues_def set_concurrency_def retry_override_def
  job_retry_override_def on_dead_letter_def set_job_timeout_def close_backend_on_shutdown_def build_def

lemmas system_rules = worker_rules dispatch_rules builder_rules producer_rules test_rules unit_rules

end
