(* ===== verification/Worker_Tests.thy ===== *)
theory Worker_Tests
  imports Worker_Harness "HOL-Library.Sublist"
begin

text \<open>
  The unit tests of \<open>crates/core/src/worker.rs\<close> that look at what a worker does with its deliveries, in the
  harness of \<open>Worker_Harness\<close>. A shared \<open>Recorder\<close> is what the harness records of the runs: \<open>n\<close> is the
  number a handler's \<open>enter\<close> returns. A context a test stores is the one of that run. \<open>contains\<close> on a text
  is \<open>sublist\<close>. Left out are the tests of the run loop's concurrency and shutdown, whose subject is
  \<open>Worker_Run\<close>.
\<close>

abbreviation ALPHA :: string where "ALPHA \<equiv> ''test.alpha''"
abbreviation BETA :: string where "BETA \<equiv> ''test.beta''"
abbreviation GAMMA :: string where "GAMMA \<equiv> ''test.gamma''"

text \<open>The context of the \<open>k\<close>th run.\<close>

definition context_at :: "('j, test_queues) job \<Rightarrow> nat \<Rightarrow> worker_run \<Rightarrow> job_context" where
  "context_at J k s = (case wr_seen s ! k of (e, pol) \<Rightarrow> job_context_of TestQueues J 1 e pol)"

definition attempts_of :: "('j, test_queues) job \<Rightarrow> worker_run \<Rightarrow> nat" where
  "attempts_of J s = length (filter (\<lambda>x. job_type (fst x) = NAME J) (wr_seen s))"

text \<open>Deliveries that can never be settled: the inner delivery is dropped.\<close>

definition cannot_settle :: "nat \<times> envelope \<Rightarrow> mem \<Rightarrow> (string error + unit) \<times> mem" where
  "cannot_settle d m = (Inl (Backend ''channel is gone''), case delivery_drop (position d (handed m)) m of Some m' \<Rightarrow> m' | None \<Rightarrow> m)"

definition NeverSettles :: test_deliveries where
  "NeverSettles = \<lparr>d_envelope = d_envelope memory_delivery, d_ack = cannot_settle, d_dead_letter = (\<lambda>d r. cannot_settle d),
     d_retry = (\<lambda>d e t. cannot_settle d), d_defer = (\<lambda>d e t. cannot_settle d)\<rparr>"

text \<open>A hook that collects what it is told: the harness records the calls.\<close>

definition collecting_hook :: hook where
  "collecting_hook d = Returns 0 ()"

definition PickyHandler :: "string \<Rightarrow> greet job_handler" where
  "PickyHandler lenient = \<lparr>handle = giving (Inl (retryable_msg ''nope'')),
     set_retry_policy = (\<lambda>job. Some (if greet_name job = lenient then Some (policy_fixed 5 (from_secs 1)) else None))\<rparr>"

section \<open>The tests\<close>

definition successful_job_is_acked :: "platform \<Rightarrow> unit wtest" where
  "successful_job_is_acked pf = do {
     on_backend producer;
     let wb = (\<lambda>n :: nat. fn_handler Greet (\<lambda>job ctx. ensuring (greet_name job = ''ada'' \<and> ctx_attempt ctx = 1 \<and> ctx_max_attempts ctx = 3
       \<and> ctx_job_type ctx = NAME Greet \<and> ctx_queue ctx = ALPHA) (Inr ())) (builder));
     streams \<leftarrow> start (wb 1);
     i \<leftarrow> enqueue_job Greet (greet_new ''ada'');
     wait_for pf wb streams (\<lambda>s. length (acked_at ALPHA s) = 1);
     assert (\<lambda>s. map job_id (acked_at ALPHA s) = [i]);
     assert (\<lambda>s. dead_at ALPHA s = []);
     assert (\<lambda>s. attempts s = 1);
     assert (\<lambda>s. wr_failures s = 0);
     stop_worker (wb 1) streams;
     assert (\<lambda>s. \<not> is_closed (sh (the_mem s))) }"

definition retryable_failure_is_retried_and_then_succeeds :: "platform \<Rightarrow> unit wtest" where
  "retryable_failure_is_retried_and_then_succeeds pf = do {
     on_backend producer;
     let wb = (\<lambda>n :: nat. fn_handler Greet (\<lambda>job ctx. if n = 1 then ensuring (ctx_attempt ctx = 1 \<and> \<not> is_last_attempt ctx) (Inl (retryable_msg ''flaky''))
       else ensuring (ctx_attempt ctx = 2) (Inr ())) (builder));
     streams \<leftarrow> start (wb 1);
     enqueue_job Greet (greet_new ''ada'');
     wait_for pf wb streams (\<lambda>s. attempts s = 2);
     wait_for pf wb streams (\<lambda>s. length (acked_at ALPHA s) = 2);
     assert (\<lambda>s. map attempt (acked_at ALPHA s) = [1, 2]);
     assert (\<lambda>s. job_id (acked_at ALPHA s ! 0) = job_id (acked_at ALPHA s ! 1));
     assert (\<lambda>s. dead_at ALPHA s = []);
     stop_worker (wb 1) streams }"

definition retryable_failure_dead_letters_once_attempts_are_exhausted :: "platform \<Rightarrow> unit wtest" where
  "retryable_failure_dead_letters_once_attempts_are_exhausted pf = do {
     on_backend producer;
     let wb = (\<lambda>n :: nat. fn_handler Greet (giving (Inl (retryable_msg ''always down''))) (builder));
     streams \<leftarrow> start (wb 1);
     enqueue_job Greet (greet_new ''ada'');
     wait_for pf wb streams (\<lambda>s. dead_at ALPHA s \<noteq> []);
     assert (\<lambda>s. attempts s = 3);
     assert (\<lambda>s. length (dead_at ALPHA s) = 1);
     assert (\<lambda>s. attempt (fst (dead_at ALPHA s ! 0)) = 3);
     assert (\<lambda>s. sublist ''max attempts'' (snd (dead_at ALPHA s ! 0)));
     assert (\<lambda>s. sublist ''always down'' (snd (dead_at ALPHA s ! 0)));
     stop_worker (wb 1) streams }"

definition fatal_failure_dead_letters_immediately :: "platform \<Rightarrow> unit wtest" where
  "fatal_failure_dead_letters_immediately pf = do {
     on_backend producer;
     let wb = (\<lambda>n :: nat. fn_handler Greet (giving (Inl (fatal_msg ''bad input''))) (builder));
     streams \<leftarrow> start (wb 1);
     enqueue_job Greet (greet_new ''ada'');
     wait_for pf wb streams (\<lambda>s. dead_at ALPHA s \<noteq> []);
     assert (\<lambda>s. attempts s = 1);
     assert (\<lambda>s. attempt (fst (dead_at ALPHA s ! 0)) = 1);
     assert (\<lambda>s. sublist ''fatal'' (snd (dead_at ALPHA s ! 0)));
     assert (\<lambda>s. acked_at ALPHA s = []);
     stop_worker (wb 1) streams }"

definition job_retry_override_overrides_the_queue_policy :: "platform \<Rightarrow> unit wtest" where
  "job_retry_override_overrides_the_queue_policy pf = do {
     on_backend producer;
     let wb = (\<lambda>n :: nat. fn_handler Stubborn (\<lambda>job ctx. ensuring (ctx_max_attempts ctx = 2) (Inl (retryable_msg ''nope''))) (builder));
     streams \<leftarrow> start (wb 1);
     enqueue_job Stubborn \<lparr>stubborn_id = 1\<rparr>;
     wait_for pf wb streams (\<lambda>s. dead_at BETA s \<noteq> []);
     assert (\<lambda>s. attempts s = 2);
     assert (\<lambda>s. sublist ''max attempts'' (snd (dead_at BETA s ! 0)));
     stop_worker (wb 1) streams }"

definition queue_policy_without_retries_dead_letters_on_first_failure :: "platform \<Rightarrow> unit wtest" where
  "queue_policy_without_retries_dead_letters_on_first_failure pf = do {
     on_backend producer;
     let wb = (\<lambda>n :: nat. fn_handler Ping (\<lambda>job ctx. ensuring (ctx_max_attempts ctx = 1 \<and> is_last_attempt ctx) (Inl (retryable_msg ''nope''))) (builder));
     streams \<leftarrow> start (wb 1);
     enqueue_job Ping \<lparr>seq = 1\<rparr>;
     wait_for pf wb streams (\<lambda>s. dead_at BETA s \<noteq> []);
     assert (\<lambda>s. attempts s = 1);
     stop_worker (wb 1) streams }"

definition job_without_a_handler_is_dead_lettered :: "platform \<Rightarrow> unit wtest" where
  "job_without_a_handler_is_dead_lettered pf = do {
     on_backend producer;
     let wb = (\<lambda>n :: nat. fn_handler Greet (giving (Inr ())) (builder));
     streams \<leftarrow> start (wb 1);
     enqueue_job Orphan \<lparr>orphan_id = 9\<rparr>;
     wait_for pf wb streams (\<lambda>s. dead_at ALPHA s \<noteq> []);
     assert (\<lambda>s. job_type (fst (dead_at ALPHA s ! 0)) = NAME Orphan);
     assert (\<lambda>s. sublist ''no handler'' (snd (dead_at ALPHA s ! 0)));
     stop_worker (wb 1) streams }"

definition malformed_payload_is_dead_lettered :: "platform \<Rightarrow> unit wtest" where
  "malformed_payload_is_dead_lettered pf = do {
     let wb = (\<lambda>n :: nat. fn_handler Greet (giving (Inr ())) (builder));
     streams \<leftarrow> start (wb 1);
     on_backend (do { env \<leftarrow> new_greet ''ada'';
       unwrap (call (publish (env\<lparr>payload := JObj [(''not_a_name'', JInt 42)]\<rparr>) None)) });
     wait_for pf wb streams (\<lambda>s. dead_at ALPHA s \<noteq> []);
     assert (\<lambda>s. sublist ''decode error'' (snd (dead_at ALPHA s ! 0)));
     assert (\<lambda>s. attempts s = 0);
     stop_worker (wb 1) streams }"

definition panicking_handler_is_retried :: "platform \<Rightarrow> unit wtest" where
  "panicking_handler_is_retried pf = do {
     on_backend producer;
     let wb = (\<lambda>n :: nat. fn_handler Greet (\<lambda>job ctx. if n = 1 then Panics 0 else Returns 0 (Inr ())) (builder));
     streams \<leftarrow> start (wb 1);
     enqueue_job Greet (greet_new ''ada'');
     wait_for pf wb streams (\<lambda>s. attempts s = 2);
     wait_for pf wb streams (\<lambda>s. length (acked_at ALPHA s) = 2);
     assert (\<lambda>s. dead_at ALPHA s = []);
     stop_worker (wb 1) streams }"

definition job_timeout_is_a_retryable_failure :: "platform \<Rightarrow> unit wtest" where
  "job_timeout_is_a_retryable_failure pf = do {
     on_backend producer;
     let wb = (\<lambda>n :: nat. fn_handler Greet (\<lambda>job ctx. if n = 1 then Returns (from_secs 3600) (Inr ()) else Returns 0 (Inr ())) (set_job_timeout (from_secs 5) builder));
     streams \<leftarrow> start (wb 1);
     enqueue_job Greet (greet_new ''ada'');
     wait_for pf wb streams (\<lambda>s. length (acked_at ALPHA s) = 2);
     assert (\<lambda>s. attempts s = 2);
     assert (\<lambda>s. dead_at ALPHA s = []);
     stop_worker (wb 1) streams }"

definition deferred_job_runs_again_with_the_same_attempt_and_top_priority :: "platform \<Rightarrow> unit wtest" where
  "deferred_job_runs_again_with_the_same_attempt_and_top_priority pf = do {
     on_backend producer;
     let wb = (\<lambda>n :: nat. fn_handler Greet (\<lambda>job ctx. if n = 1 then ensuring (ctx_deferrals ctx = 0 \<and> ctx_priority ctx = 0) (Inl (job_deferred (from_secs 1)))
       else Returns 0 (Inr ())) (builder));
     streams \<leftarrow> start (wb 1);
     i \<leftarrow> enqueue_job Greet (greet_new ''limited'');
     wait_for pf wb streams (\<lambda>s. attempts s = 2);
     wait_for pf wb streams (\<lambda>s. length (acked_at ALPHA s) = 2);
     assert (\<lambda>s. ctx_attempt (context_at Greet 1 s) = 1);
     assert (\<lambda>s. ctx_deferrals (context_at Greet 1 s) = 1);
     assert (\<lambda>s. ctx_priority (context_at Greet 1 s) = 10);
     assert (\<lambda>s. ctx_job_id (context_at Greet 1 s) = i);
     assert (\<lambda>s. map (\<lambda>e. (attempt e, deferrals e)) (acked_at ALPHA s) = [(1, 0), (1, 1)]);
     assert (\<lambda>s. priority (acked_at ALPHA s ! 1) = 10);
     assert (\<lambda>s. dead_at ALPHA s = []);
     assert (\<lambda>s. wr_failures s = 0);
     on_backend (expect_deferred 0);
     stop_worker (wb 1) streams }"

definition a_retry_after_a_deferral_drops_back_to_priority_zero :: "platform \<Rightarrow> unit wtest" where
  "a_retry_after_a_deferral_drops_back_to_priority_zero pf = do {
     on_backend producer;
     let wb = (\<lambda>n :: nat. fn_handler Greet (\<lambda>job ctx. if n = 1 then Returns 0 (Inl (job_deferred (from_secs 1)))
       else if n = 2 then ensuring (ctx_priority ctx = 10) (Inl (retryable_msg ''flaky'')) else Returns 0 (Inr ())) (builder));
     streams \<leftarrow> start (wb 1);
     enqueue_job Greet (greet_new ''limited'');
     wait_for pf wb streams (\<lambda>s. attempts s = 3);
     wait_for pf wb streams (\<lambda>s. length (acked_at ALPHA s) = 3);
     assert (\<lambda>s. ctx_attempt (context_at Greet 2 s) = 2);
     assert (\<lambda>s. ctx_deferrals (context_at Greet 2 s) = 1);
     assert (\<lambda>s. ctx_priority (context_at Greet 2 s) = 0);
     assert (\<lambda>s. (\<lambda>e. (attempt e, deferrals e, priority e)) (acked_at ALPHA s ! 2) = (2, 1, 0));
     assert (\<lambda>s. dead_at ALPHA s = []);
     assert (\<lambda>s. wr_failures s = 0);
     stop_worker (wb 1) streams }"

definition deferral_on_a_queue_without_priorities_stays_at_zero :: "platform \<Rightarrow> unit wtest" where
  "deferral_on_a_queue_without_priorities_stays_at_zero pf = do {
     on_backend producer;
     let wb = (\<lambda>n :: nat. fn_handler Nudge (\<lambda>job ctx. if n = 1 then Returns 0 (Inl (deferred_msg (from_secs 2) ''rate limited'')) else Returns 0 (Inr ())) (builder));
     streams \<leftarrow> start (wb 1);
     enqueue_job Nudge \<lparr>nudge_id = 1\<rparr>;
     wait_for pf wb streams (\<lambda>s. attempts s = 2);
     assert (\<lambda>s. ctx_priority (context_at Nudge 1 s) = 0);
     assert (\<lambda>s. ctx_deferrals (context_at Nudge 1 s) = 1);
     assert (\<lambda>s. ctx_attempt (context_at Nudge 1 s) = 1);
     assert (\<lambda>s. dead_at GAMMA s = []);
     assert (\<lambda>s. wr_failures s = 0);
     stop_worker (wb 1) streams }"

definition deferral_never_consults_the_retry_override :: "platform \<Rightarrow> unit wtest" where
  "deferral_never_consults_the_retry_override pf = do {
     on_backend producer;
     let wb = (\<lambda>n :: nat. fn_handler Ping (\<lambda>job ctx. ensuring (ctx_max_attempts ctx = 1 \<and> ctx_attempt ctx = 1 \<and> is_last_attempt ctx
       \<and> unat (ctx_deferrals ctx) = n - 1) (if n < 4 then Inl (job_deferred (from_secs 1)) else Inr ())) (builder));
     streams \<leftarrow> start (wb 1);
     enqueue_job Ping \<lparr>seq = 1\<rparr>;
     wait_for pf wb streams (\<lambda>s. attempts s = 4);
     wait_for pf wb streams (\<lambda>s. length (acked_at BETA s) = 4);
     assert (\<lambda>s. dead_at BETA s = []);
     assert (\<lambda>s. list_all (\<lambda>e. attempt e = 1) (acked_at BETA s));
     assert (\<lambda>s. deferrals (last (acked_at BETA s)) = 3);
     assert (\<lambda>s. wr_failures s = 0);
     stop_worker (wb 1) streams }"

definition a_job_in_hold_survives_the_worker_shutting_down :: "platform \<Rightarrow> unit wtest" where
  "a_job_in_hold_survives_the_worker_shutting_down pf = do {
     on_backend producer;
     let wb = (\<lambda>n :: nat. fn_handler Greet (giving (Inl (job_deferred (from_secs 3600)))) (builder));
     streams \<leftarrow> start (wb 1);
     i \<leftarrow> enqueue_job Greet (greet_new ''held'');
     wait_for pf wb streams (\<lambda>s. length (acked_at ALPHA s) = 1);
     on_backend (expect_deferred 1);
     stop_worker (wb 1) streams;
     assert (\<lambda>s. attempts s = 1);
     on_backend (expect_deferred 1);
     on_backend (expect_pending 0);
     on_backend (sleep (from_secs 3601));
     on_backend (expect_deferred 0);
     on_backend (expect_pending 1);
     assert (\<lambda>s. job_id (acked_at ALPHA s ! 0) = i);
     assert (\<lambda>s. dead_at ALPHA s = []) }"

definition a_deferred_job_beats_work_enqueued_while_it_waited :: "platform \<Rightarrow> unit wtest" where
  "a_deferred_job_beats_work_enqueued_while_it_waited pf = do {
     on_backend producer;
     let wb = (\<lambda>n :: nat. set_concurrency 1 (set_queues [Alpha] (fn_handler Greet (\<lambda>job ctx.
       if greet_name job = ''limited'' \<and> ctx_deferrals ctx = 0 then Returns 0 (Inl (job_deferred (from_secs 30)))
       else Returns 0 (Inr ())) builder)));
     streams \<leftarrow> start (wb 1);
     enqueue_job Greet (greet_new ''limited'');
     wait_for pf wb streams (\<lambda>s. deferred_count (sh (the_mem s)) ALPHA = 1);
     stop_worker (wb 1) streams;
     enqueue_job Greet (greet_new ''backlog-1'');
     enqueue_job Greet (greet_new ''backlog-2'');
     on_backend (expect_pending 2);
     wait_for pf wb [] (\<lambda>s. deferred_count (sh (the_mem s)) ALPHA = 0);
     on_backend (expect_pending 3);
     streams \<leftarrow> start (wb 1);
     wait_for pf wb streams (\<lambda>s. attempts s = 4);
     assert (\<lambda>s. map (\<lambda>x. decode Greet (fst x)) (wr_seen s)
       = map (\<lambda>n. Inr (greet_new n) :: string error + greet) [''limited'', ''limited'', ''backlog-1'', ''backlog-2'']);
     assert (\<lambda>s. wr_failures s = 0);
     stop_worker (wb 1) streams }"

definition a_failed_defer_is_counted_as_a_settle_failure :: "platform \<Rightarrow> unit wtest" where
  "a_failed_defer_is_counted_as_a_settle_failure pf = do {
     on_backend producer;
     let wb = (\<lambda>n :: nat. fn_handler Greet (giving (Inl (job_deferred (from_secs 1)))) (builder));
     streams \<leftarrow> start (wb 1);
     enqueue_job Greet (greet_new ''ada'');
     wait_on pf NeverSettles wb streams (\<lambda>s. wr_failures s = 1);
     assert (\<lambda>s. acked_at ALPHA s = []);
     on_backend (expect_deferred 0);
     stop_worker (wb 1) streams }"

definition duplicate_handler_fails_the_build :: "unit wtest" where
  "duplicate_handler_fails_the_build = do {
     let wb = fn_handler Greet (giving (Inr ())) (fn_handler Greet (giving (Inr ())) builder);
     assert (\<lambda>s. fst (build memory_backend TestQueues wb (the_mem s)) = Inl (DuplicateHandler (NAME Greet))) }"

definition queues_restricts_consumption_to_the_chosen_subset :: "platform \<Rightarrow> unit wtest" where
  "queues_restricts_consumption_to_the_chosen_subset pf = do {
     on_backend producer;
     let wb = (\<lambda>n :: nat. fn_handler Ping (giving (Inr ())) (fn_handler Greet (giving (Inr ())) (set_queues [Alpha, Alpha] builder)));
     streams \<leftarrow> start (wb 1);
     assert (\<lambda>s. length streams = 1);
     enqueue_job Ping \<lparr>seq = 1\<rparr>;
     enqueue_job Greet (greet_new ''ada'');
     wait_for pf wb streams (\<lambda>s. attempts_of Greet s = 1);
     assert (\<lambda>s. attempts_of Ping s = 0);
     assert (\<lambda>s. pending_count (sh (the_mem s)) BETA = 1);
     stop_worker (wb 1) streams }"

definition closing_the_backend_on_shutdown_is_opt_in :: "unit wtest" where
  "closing_the_backend_on_shutdown_is_opt_in = do {
     let wb = (\<lambda>n :: nat. fn_handler Greet (giving (Inr ())) (builder));
     streams \<leftarrow> start (wb 1);
     stop_worker (wb 1) streams;
     assert (\<lambda>s. \<not> is_closed (sh (the_mem s)));
     on_backend producer;
     enqueue_job Greet (greet_new ''after'');
     let wb = (\<lambda>n :: nat. fn_handler Greet (giving (Inr ())) (close_backend_on_shutdown True builder));
     streams \<leftarrow> start (wb (1 :: nat));
     stop_worker (wb 1) streams;
     assert (\<lambda>s. is_closed (sh (the_mem s))) }"

definition failures_to_settle_are_counted :: "platform \<Rightarrow> unit wtest" where
  "failures_to_settle_are_counted pf = do {
     on_backend producer;
     let wb = (\<lambda>n :: nat. fn_handler Greet (giving (Inr ())) (builder));
     streams \<leftarrow> start (wb 1);
     assert (\<lambda>s. wr_failures s = 0);
     enqueue_job Greet (greet_new ''ada'');
     wait_on pf NeverSettles wb streams (\<lambda>s. wr_failures s = 1);
     assert (\<lambda>s. acked_at ALPHA s = []);
     stop_worker (wb 1) streams }"

definition default_concurrency_is_the_sum_of_prefetch :: "unit wtest" where
  "default_concurrency_is_the_sum_of_prefetch = do {
     let wb = fn_handler Greet (giving (Inr ())) builder;
     assert (\<lambda>s. case build memory_backend TestQueues wb (the_mem s) of (Inr w, m) \<Rightarrow> w_concurrency w = 7 \<and> length (w_queues w) = 3
       | _ \<Rightarrow> False) }"

definition handlers_of_different_job_types_are_routed_independently :: "platform \<Rightarrow> unit wtest" where
  "handlers_of_different_job_types_are_routed_independently pf = do {
     on_backend producer;
     let wb = (\<lambda>n :: nat. fn_handler Ping (giving (Inr ())) (fn_handler Greet (giving (Inr ())) builder));
     streams \<leftarrow> start (wb 1);
     enqueue_job Greet (greet_new ''ada'');
     enqueue_job Ping \<lparr>seq = 1\<rparr>;
     enqueue_job Ping \<lparr>seq = 2\<rparr>;
     wait_for pf wb streams (\<lambda>s. attempts_of Greet s = 1 \<and> attempts_of Ping s = 2);
     assert (\<lambda>s. length (acked_at ALPHA s) = 1);
     assert (\<lambda>s. length (acked_at BETA s) = 2);
     stop_worker (wb 1) streams }"

definition a_builder_override_replaces_the_queue_policy :: "platform \<Rightarrow> unit wtest" where
  "a_builder_override_replaces_the_queue_policy pf = do {
     on_backend producer;
     let wb = (\<lambda>n :: nat. fn_handler Greet (giving (Inl (retryable_msg ''nope''))) (retry_override TestQueues Alpha policy_none builder));
     streams \<leftarrow> start (wb 1);
     assert (\<lambda>s. retry_policy_for (worker_of (wb 1)) (NAME Greet) = Some policy_none);
     enqueue_job Greet (greet_new ''ada'');
     wait_for pf wb streams (\<lambda>s. dead_at ALPHA s \<noteq> []);
     assert (\<lambda>s. attempts s = 1);
     assert (\<lambda>s. ctx_max_attempts (context_at Greet 0 s) = 1);
     stop_worker (wb 1) streams }"

definition a_queue_override_beats_a_policy_declared_on_the_job :: "platform \<Rightarrow> unit wtest" where
  "a_queue_override_beats_a_policy_declared_on_the_job pf = do {
     on_backend producer;
     let wb = (\<lambda>n :: nat. fn_handler Stubborn (giving (Inl (retryable_msg ''nope''))) (retry_override TestQueues Beta (policy_fixed 3 (from_secs 1)) builder));
     streams \<leftarrow> start (wb 1);
     enqueue_job Stubborn \<lparr>stubborn_id = 1\<rparr>;
     wait_for pf wb streams (\<lambda>s. dead_at BETA s \<noteq> []);
     assert (\<lambda>s. attempts s = 3);
     stop_worker (wb 1) streams }"

definition a_job_override_beats_a_queue_override :: "platform \<Rightarrow> unit wtest" where
  "a_job_override_beats_a_queue_override pf = do {
     on_backend producer;
     let wb = (\<lambda>n :: nat. fn_handler Greet (giving (Inl (retryable_msg ''nope''))) (job_retry_override Greet (policy_fixed 2 (from_secs 1))
       (retry_override TestQueues Alpha policy_none builder)));
     streams \<leftarrow> start (wb 1);
     enqueue_job Greet (greet_new ''ada'');
     wait_for pf wb streams (\<lambda>s. dead_at ALPHA s \<noteq> []);
     assert (\<lambda>s. attempts s = 2);
     stop_worker (wb 1) streams }"

definition without_an_override_the_declared_policy_still_applies :: "unit wtest" where
  "without_an_override_the_declared_policy_still_applies = do {
     let w = worker_of (retry_override TestQueues Gamma (policy_exponential 9)
       (fn_handler Stubborn (giving (Inr ())) (fn_handler Greet (giving (Inr ())) builder)));
     assert (\<lambda>s. retry_policy_for w (NAME Greet) = Some (qc_retry (qs_config TestQueues Alpha)));
     assert (\<lambda>s. retry_policy_for w (NAME Stubborn) = job_retry_policy Stubborn);
     assert (\<lambda>s. retry_policy_for w ''test::Nudge'' = None) }"

definition the_hook_reports_a_job_whose_attempts_ran_out :: "platform \<Rightarrow> unit wtest" where
  "the_hook_reports_a_job_whose_attempts_ran_out pf = do {
     on_backend producer;
     let wb = (\<lambda>n :: nat. fn_handler Greet (giving (Inl (retryable_msg ''still broken''))) (on_dead_letter collecting_hook builder));
     streams \<leftarrow> start (wb 1);
     enqueue_job Greet (greet_new ''ada'');
     wait_for pf wb streams (\<lambda>s. length (wr_hooked s) = 1);
     assert (\<lambda>s. dl_cause (wr_hooked s ! 0) = CauseExhausted \<and> reached_handler (dl_cause (wr_hooked s ! 0)));
     assert (\<lambda>s. dead_attempts (wr_hooked s ! 0) = 3);
     assert (\<lambda>s. dl_max_attempts (wr_hooked s ! 0) = Some 3);
     assert (\<lambda>s. job_type (dl_envelope (wr_hooked s ! 0)) = NAME Greet);
     assert (\<lambda>s. sublist ''still broken'' (dl_reason (wr_hooked s ! 0)));
     stop_worker (wb 1) streams }"

definition the_hook_reports_a_fatal_failure_on_its_first_attempt :: "platform \<Rightarrow> unit wtest" where
  "the_hook_reports_a_fatal_failure_on_its_first_attempt pf = do {
     on_backend producer;
     let wb = (\<lambda>n :: nat. fn_handler Greet (giving (Inl (fatal_msg ''bad input''))) (on_dead_letter collecting_hook builder));
     streams \<leftarrow> start (wb 1);
     enqueue_job Greet (greet_new ''ada'');
     wait_for pf wb streams (\<lambda>s. length (wr_hooked s) = 1);
     assert (\<lambda>s. dl_cause (wr_hooked s ! 0) = CauseFatal);
     assert (\<lambda>s. dead_attempts (wr_hooked s ! 0) = 1);
     assert (\<lambda>s. dl_max_attempts (wr_hooked s ! 0) = Some 3);
     stop_worker (wb 1) streams }"

definition the_hook_reports_a_job_no_handler_claimed :: "platform \<Rightarrow> unit wtest" where
  "the_hook_reports_a_job_no_handler_claimed pf = do {
     on_backend producer;
     let wb = (\<lambda>n :: nat. fn_handler Greet (giving (Inr ())) (on_dead_letter collecting_hook builder));
     streams \<leftarrow> start (wb 1);
     enqueue_job Orphan \<lparr>orphan_id = 7\<rparr>;
     wait_for pf wb streams (\<lambda>s. length (wr_hooked s) = 1);
     assert (\<lambda>s. dl_cause (wr_hooked s ! 0) = CauseNoHandler \<and> \<not> reached_handler (dl_cause (wr_hooked s ! 0)));
     assert (\<lambda>s. dl_max_attempts (wr_hooked s ! 0) = None);
     assert (\<lambda>s. job_type (dl_envelope (wr_hooked s ! 0)) = NAME Orphan);
     stop_worker (wb 1) streams }"

definition a_panicking_hook_does_not_stop_the_job_being_dead_lettered :: "platform \<Rightarrow> unit wtest" where
  "a_panicking_hook_does_not_stop_the_job_being_dead_lettered pf = do {
     on_backend producer;
     let wb = (\<lambda>n :: nat. fn_handler Greet (giving (Inl (fatal_msg ''bad input''))) (on_dead_letter (\<lambda>d. Panics 0) builder));
     streams \<leftarrow> start (wb 1);
     enqueue_job Greet (greet_new ''ada'');
     wait_for pf wb streams (\<lambda>s. dead_at ALPHA s \<noteq> []);
     assert (\<lambda>s. wr_failures s = 0);
     stop_worker (wb 1) streams }"

definition the_hook_is_silent_for_jobs_that_succeed_retry_or_defer :: "platform \<Rightarrow> unit wtest" where
  "the_hook_is_silent_for_jobs_that_succeed_retry_or_defer pf = do {
     on_backend producer;
     let wb = (\<lambda>n :: nat. fn_handler Greet (\<lambda>job ctx. if n = 1 then Returns 0 (Inl (deferred_msg (from_secs 2) ''rate limited''))
       else if n = 2 then Returns 0 (Inl (retryable_msg ''flaky'')) else Returns 0 (Inr ())) (on_dead_letter collecting_hook builder));
     streams \<leftarrow> start (wb 1);
     enqueue_job Greet (greet_new ''ada'');
     wait_for pf wb streams (\<lambda>s. attempts s = 3);
     wait_for pf wb streams (\<lambda>s. length (acked_at ALPHA s) = 3);
     assert (\<lambda>s. length (wr_hooked s) = 0);
     assert (\<lambda>s. dead_at ALPHA s = []);
     stop_worker (wb 1) streams }"

definition the_handler_can_pick_a_policy_from_the_payload :: "platform \<Rightarrow> unit wtest" where
  "the_handler_can_pick_a_policy_from_the_payload pf = do {
     on_backend producer;
     let wb = (\<lambda>n :: nat. with_handler Greet (PickyHandler ''ada'') (builder));
     streams \<leftarrow> start (wb 1);
     enqueue_job Greet (greet_new ''ada'');
     wait_for pf wb streams (\<lambda>s. dead_at ALPHA s \<noteq> []);
     assert (\<lambda>s. attempts s = 5);
     assert (\<lambda>s. map (\<lambda>k. ctx_max_attempts (context_at Greet k s)) [0..<attempts s] = replicate 5 5);
     stop_worker (wb 1) streams }"

definition a_payload_the_handler_does_not_single_out_keeps_the_configured_policy :: "platform \<Rightarrow> unit wtest" where
  "a_payload_the_handler_does_not_single_out_keeps_the_configured_policy pf = do {
     on_backend producer;
     let wb = (\<lambda>n :: nat. with_handler Greet (PickyHandler ''ada'') (builder));
     streams \<leftarrow> start (wb 1);
     enqueue_job Greet (greet_new ''grace'');
     wait_for pf wb streams (\<lambda>s. dead_at ALPHA s \<noteq> []);
     assert (\<lambda>s. attempts s = 3);
     assert (\<lambda>s. map (\<lambda>k. ctx_max_attempts (context_at Greet k s)) [0..<attempts s] = replicate 3 3);
     stop_worker (wb 1) streams }"

definition the_handler_policy_beats_a_builder_override :: "platform \<Rightarrow> unit wtest" where
  "the_handler_policy_beats_a_builder_override pf = do {
     on_backend producer;
     let wb = (\<lambda>n :: nat. with_handler Greet (PickyHandler ''ada'') (job_retry_override Greet (policy_fixed 2 (from_secs 1))
       (retry_override TestQueues Alpha policy_none builder)));
     streams \<leftarrow> start (wb 1);
     enqueue_job Greet (greet_new ''ada'');
     wait_for pf wb streams (\<lambda>s. dead_at ALPHA s \<noteq> []);
     assert (\<lambda>s. attempts s = 5);
     stop_worker (wb 1) streams }"

definition the_dead_letter_hook_reports_the_policy_the_handler_chose :: "platform \<Rightarrow> unit wtest" where
  "the_dead_letter_hook_reports_the_policy_the_handler_chose pf = do {
     on_backend producer;
     let wb = (\<lambda>n :: nat. with_handler Greet (PickyHandler ''ada'') (on_dead_letter collecting_hook builder));
     streams \<leftarrow> start (wb 1);
     enqueue_job Greet (greet_new ''ada'');
     wait_for pf wb streams (\<lambda>s. length (wr_hooked s) = 1);
     assert (\<lambda>s. dl_max_attempts (wr_hooked s ! 0) = Some 5);
     assert (\<lambda>s. dead_attempts (wr_hooked s ! 0) = 5);
     stop_worker (wb 1) streams }"

definition a_correlation_id_reaches_every_attempt_and_the_dead_letter_hook :: "platform \<Rightarrow> unit wtest" where
  "a_correlation_id_reaches_every_attempt_and_the_dead_letter_hook pf = do {
     on_backend producer;
     let wb = (\<lambda>n :: nat. fn_handler Stubborn (giving (Inl (retryable_msg ''always fails''))) (on_dead_letter collecting_hook builder));
     streams \<leftarrow> start (wb 1);
     on_backend (unwrap_id (test_enqueue_with Stubborn \<lparr>stubborn_id = 1\<rparr> (options_correlation_id ''trace-xyz'' options_now)));
     wait_for pf wb streams (\<lambda>s. length (wr_hooked s) = 1);
     assert (\<lambda>s. 2 \<le> attempts s);
     assert (\<lambda>s. list_all (\<lambda>k. ctx_correlation_id (context_at Stubborn k s) = Some ''trace-xyz'') [0..<attempts s]);
     assert (\<lambda>s. correlation_id (dl_envelope (wr_hooked s ! 0)) = Some ''trace-xyz'');
     stop_worker (wb 1) streams }"

section \<open>Running them\<close>

lemma malformed_greet: "decode Greet (greet_env u n\<lparr>payload := JObj [(''not_a_name'', j)]\<rparr>)
    = Inl (Serde ''missing field'')"
  by (simp add: decode_def Greet_def one_field_from_def field_def serde_message_def)

lemma reads_numbers:
  "from_value Ping (JObj [(''seq'', JInt 1)]) = Inr \<lparr>seq = 1\<rparr>"
  "from_value Ping (JObj [(''seq'', JInt 2)]) = Inr \<lparr>seq = 2\<rparr>"
  "from_value Nudge (JObj [(''id'', JInt 1)]) = Inr \<lparr>nudge_id = 1\<rparr>"
  "from_value Stubborn (JObj [(''id'', JInt 1)]) = Inr \<lparr>stubborn_id = 1\<rparr>"
  by (simp_all add: Ping_def Nudge_def Stubborn_def one_field_from_def field_def serde_message_def read_uint_def)

lemma exhausted_text:
  "sublist ''max attempts'' (exhausted_reason pol e r)"
  "sublist x r \<Longrightarrow> sublist x (exhausted_reason pol e r)"
proof -
  show "sublist ''max attempts'' (exhausted_reason pol e r)"
    unfolding exhausted_reason_def sublist_def by (rule exI [of _ "[]"]) simp
  have "suffix r (exhausted_reason pol e r)" unfolding exhausted_reason_def by (simp add: suffix_def)
  then show "sublist x (exhausted_reason pol e r)" if "sublist x r"
    using that suffix_imp_sublist sublist_order.order_trans by blast
qed

lemma small_counts: "take_bit 32 (Suc (Suc (Suc 0))) = Suc (Suc (Suc 0))"
  using take_bit_nat_eq_self [of "Suc (Suc (Suc 0))" 32] by simp

lemma five_times: "replicate 5 x = [x, x, x, x, x]" "replicate 3 x = [x, x, x]"
  by (simp_all add: numeral_eq_Suc)

lemma malformed_job: "job_type (greet_env u n) = ''test::Greet''"
  by (simp add: greet_env_def envelope_raw_def)

lemma never_calls:
  "d_envelope NeverSettles d = snd d" "d_ack NeverSettles d = cannot_settle d" "d_dead_letter NeverSettles d r = cannot_settle d"
  "d_retry NeverSettles d e t = cannot_settle d" "d_defer NeverSettles d e t = cannot_settle d"
  by (simp_all add: NeverSettles_def memory_delivery_def)

lemmas never_rules = never_calls cannot_settle_def delivery_drop_def
lemmas hook_rules = collecting_hook_def reached_handler_def dead_attempts_def
lemmas picky_rules = PickyHandler_def five_times
lemmas text_rules = sublist_Cons_right exhausted_text no_handler_reason_def
lemmas worker_test_rules = system_rules reads_numbers small_counts context_at_def attempts_of_def retry_policy_for_def

lemma successful_job_is_acked_passes: "passes_w (successful_job_is_acked pf)"
  by (simp add: successful_job_is_acked_def worker_test_rules)

lemma retryable_failure_is_retried_and_then_succeeds_passes: "passes_w (retryable_failure_is_retried_and_then_succeeds pf)"
  by (simp add: retryable_failure_is_retried_and_then_succeeds_def worker_test_rules)

lemma retryable_failure_dead_letters_once_attempts_are_exhausted_passes: "passes_w (retryable_failure_dead_letters_once_attempts_are_exhausted pf)"
  by (simp add: retryable_failure_dead_letters_once_attempts_are_exhausted_def worker_test_rules text_rules)

lemma fatal_failure_dead_letters_immediately_passes: "passes_w (fatal_failure_dead_letters_immediately pf)"
  by (simp add: fatal_failure_dead_letters_immediately_def worker_test_rules text_rules)

lemma job_retry_override_overrides_the_queue_policy_passes: "passes_w (job_retry_override_overrides_the_queue_policy pf)"
  by (simp add: job_retry_override_overrides_the_queue_policy_def worker_test_rules text_rules)

lemma queue_policy_without_retries_dead_letters_on_first_failure_passes: "passes_w (queue_policy_without_retries_dead_letters_on_first_failure pf)"
  by (simp add: queue_policy_without_retries_dead_letters_on_first_failure_def worker_test_rules)

lemma job_without_a_handler_is_dead_lettered_passes: "passes_w (job_without_a_handler_is_dead_lettered pf)"
  by (simp add: job_without_a_handler_is_dead_lettered_def worker_test_rules text_rules)

lemma malformed_payload_is_dead_lettered_passes: "passes_w (malformed_payload_is_dead_lettered pf)"
  by (simp add: malformed_payload_is_dead_lettered_def worker_test_rules text_rules malformed_greet malformed_job)

lemma panicking_handler_is_retried_passes: "passes_w (panicking_handler_is_retried pf)"
  by (simp add: panicking_handler_is_retried_def worker_test_rules)

lemma job_timeout_is_a_retryable_failure_passes: "passes_w (job_timeout_is_a_retryable_failure pf)"
  by (simp add: job_timeout_is_a_retryable_failure_def worker_test_rules)

lemma deferred_job_runs_again_with_the_same_attempt_and_top_priority_passes: "passes_w (deferred_job_runs_again_with_the_same_attempt_and_top_priority pf)"
  by (simp add: deferred_job_runs_again_with_the_same_attempt_and_top_priority_def worker_test_rules)

lemma a_retry_after_a_deferral_drops_back_to_priority_zero_passes: "passes_w (a_retry_after_a_deferral_drops_back_to_priority_zero pf)"
  by (simp add: a_retry_after_a_deferral_drops_back_to_priority_zero_def worker_test_rules)

lemma deferral_on_a_queue_without_priorities_stays_at_zero_passes: "passes_w (deferral_on_a_queue_without_priorities_stays_at_zero pf)"
  by (simp add: deferral_on_a_queue_without_priorities_stays_at_zero_def worker_test_rules)

lemma deferral_never_consults_the_retry_override_passes: "passes_w (deferral_never_consults_the_retry_override pf)"
  by (simp add: deferral_never_consults_the_retry_override_def worker_test_rules)

lemma a_job_in_hold_survives_the_worker_shutting_down_passes: "passes_w (a_job_in_hold_survives_the_worker_shutting_down pf)"
  by (simp add: a_job_in_hold_survives_the_worker_shutting_down_def worker_test_rules)

lemma a_deferred_job_beats_work_enqueued_while_it_waited_passes: "passes_w (a_deferred_job_beats_work_enqueued_while_it_waited pf)"
  by (simp add: a_deferred_job_beats_work_enqueued_while_it_waited_def worker_test_rules)

lemma a_failed_defer_is_counted_as_a_settle_failure_passes: "passes_w (a_failed_defer_is_counted_as_a_settle_failure pf)"
  by (simp add: a_failed_defer_is_counted_as_a_settle_failure_def worker_test_rules never_rules)

lemma duplicate_handler_fails_the_build_passes: "passes_w duplicate_handler_fails_the_build"
  by (simp add: duplicate_handler_fails_the_build_def worker_test_rules)

lemma queues_restricts_consumption_to_the_chosen_subset_passes: "passes_w (queues_restricts_consumption_to_the_chosen_subset pf)"
  by (simp add: queues_restricts_consumption_to_the_chosen_subset_def worker_test_rules)

lemma closing_the_backend_on_shutdown_is_opt_in_passes: "passes_w closing_the_backend_on_shutdown_is_opt_in"
  by (simp add: closing_the_backend_on_shutdown_is_opt_in_def worker_test_rules)

lemma failures_to_settle_are_counted_passes: "passes_w (failures_to_settle_are_counted pf)"
  by (simp add: failures_to_settle_are_counted_def worker_test_rules never_rules)

lemma default_concurrency_is_the_sum_of_prefetch_passes: "passes_w default_concurrency_is_the_sum_of_prefetch"
  by (simp add: default_concurrency_is_the_sum_of_prefetch_def worker_test_rules default_concurrency_def)

lemma handlers_of_different_job_types_are_routed_independently_passes: "passes_w (handlers_of_different_job_types_are_routed_independently pf)"
  by (simp add: handlers_of_different_job_types_are_routed_independently_def worker_test_rules)

lemma a_builder_override_replaces_the_queue_policy_passes: "passes_w (a_builder_override_replaces_the_queue_policy pf)"
  by (simp add: a_builder_override_replaces_the_queue_policy_def worker_test_rules)

lemma a_queue_override_beats_a_policy_declared_on_the_job_passes: "passes_w (a_queue_override_beats_a_policy_declared_on_the_job pf)"
  by (simp add: a_queue_override_beats_a_policy_declared_on_the_job_def worker_test_rules)

lemma a_job_override_beats_a_queue_override_passes: "passes_w (a_job_override_beats_a_queue_override pf)"
  by (simp add: a_job_override_beats_a_queue_override_def worker_test_rules)

lemma without_an_override_the_declared_policy_still_applies_passes: "passes_w without_an_override_the_declared_policy_still_applies"
  by (simp add: without_an_override_the_declared_policy_still_applies_def worker_test_rules)

lemma the_hook_reports_a_job_whose_attempts_ran_out_passes: "passes_w (the_hook_reports_a_job_whose_attempts_ran_out pf)"
  by (simp add: the_hook_reports_a_job_whose_attempts_ran_out_def worker_test_rules hook_rules text_rules)

lemma the_hook_reports_a_fatal_failure_on_its_first_attempt_passes: "passes_w (the_hook_reports_a_fatal_failure_on_its_first_attempt pf)"
  by (simp add: the_hook_reports_a_fatal_failure_on_its_first_attempt_def worker_test_rules hook_rules)

lemma the_hook_reports_a_job_no_handler_claimed_passes: "passes_w (the_hook_reports_a_job_no_handler_claimed pf)"
  by (simp add: the_hook_reports_a_job_no_handler_claimed_def worker_test_rules hook_rules)

lemma a_panicking_hook_does_not_stop_the_job_being_dead_lettered_passes: "passes_w (a_panicking_hook_does_not_stop_the_job_being_dead_lettered pf)"
  by (simp add: a_panicking_hook_does_not_stop_the_job_being_dead_lettered_def worker_test_rules hook_rules)

lemma the_hook_is_silent_for_jobs_that_succeed_retry_or_defer_passes: "passes_w (the_hook_is_silent_for_jobs_that_succeed_retry_or_defer pf)"
  by (simp add: the_hook_is_silent_for_jobs_that_succeed_retry_or_defer_def worker_test_rules hook_rules)

lemma the_handler_can_pick_a_policy_from_the_payload_passes: "passes_w (the_handler_can_pick_a_policy_from_the_payload pf)"
  by (simp add: the_handler_can_pick_a_policy_from_the_payload_def worker_test_rules picky_rules)

lemma a_payload_the_handler_does_not_single_out_keeps_the_configured_policy_passes: "passes_w (a_payload_the_handler_does_not_single_out_keeps_the_configured_policy pf)"
  by (simp add: a_payload_the_handler_does_not_single_out_keeps_the_configured_policy_def worker_test_rules picky_rules)

lemma the_handler_policy_beats_a_builder_override_passes: "passes_w (the_handler_policy_beats_a_builder_override pf)"
  by (simp add: the_handler_policy_beats_a_builder_override_def worker_test_rules picky_rules)

lemma the_dead_letter_hook_reports_the_policy_the_handler_chose_passes: "passes_w (the_dead_letter_hook_reports_the_policy_the_handler_chose pf)"
  by (simp add: the_dead_letter_hook_reports_the_policy_the_handler_chose_def worker_test_rules picky_rules hook_rules)

lemma a_correlation_id_reaches_every_attempt_and_the_dead_letter_hook_passes: "passes_w (a_correlation_id_reaches_every_attempt_and_the_dead_letter_hook pf)"
  by (simp add: a_correlation_id_reaches_every_attempt_and_the_dead_letter_hook_def worker_test_rules hook_rules)

end
