(* ===== verification/Topology_Tests.thy ===== *)
theory Topology_Tests
  imports Topology Test_Support
begin

text \<open>
  The unit tests of \<open>crates/rabbitmq/src/topology.rs\<close>, each as the boolean its assertions come to, and the
  proof that it holds of the model. A \<open>FieldTable\<close> is a finite map: \<open>inner().len()\<close> is the size of its
  domain and \<open>contains_key\<close> membership in it.
\<close>

definition config_of :: "string \<Rightarrow> queue_config" where
  "config_of n = queue_config_new n"

definition plain_config :: "string \<Rightarrow> queue_config" where
  "plain_config n = set_max_priority 0 (queue_config_new n)"

definition table_len :: "field_table \<Rightarrow> nat" where
  "table_len t = card (dom t)"

abbreviation SECOND :: duration where "SECOND \<equiv> from_secs 1"

section \<open>Names and arguments\<close>

definition dead_name_without_prefix :: bool where
  "dead_name_without_prefix \<longleftrightarrow> dead_queue_name ''emails'' DEFAULT_DEAD_SUFFIX = ''emails.dead''"

definition dead_name_with_prefix :: bool where
  "dead_name_with_prefix \<longleftrightarrow> dead_queue_name ''myapp.emails'' DEFAULT_DEAD_SUFFIX = ''myapp.emails.dead''"

definition custom_suffixes_are_honoured :: bool where
  "custom_suffixes_are_honoured \<longleftrightarrow> dead_queue_name ''q'' ''-dlq'' = ''q-dlq''"

definition queue_args_are_empty_without_ttl_or_priorities :: bool where
  "queue_args_are_empty_without_ttl_or_priorities \<longleftrightarrow> (let args = queue_args (plain_config ''emails'') in
     args = Map.empty \<and> ARG_MESSAGE_TTL \<notin> dom args \<and> ARG_MAX_PRIORITY \<notin> dom args)"

definition queue_args_carry_message_ttl :: bool where
  "queue_args_carry_message_ttl \<longleftrightarrow> (let cfg = set_message_ttl (from_secs 30) (plain_config ''emails''); args = queue_args cfg in
     args ARG_MESSAGE_TTL = Some (LongLongInt 30000) \<and> table_len args = 1)"

definition queue_args_carry_max_priority_when_the_queue_has_priorities :: bool where
  "queue_args_carry_max_priority_when_the_queue_has_priorities \<longleftrightarrow> (let args = queue_args (config_of ''emails'');
          args' = queue_args (set_max_priority 255 (config_of ''emails''))
      in args ARG_MAX_PRIORITY = Some (ShortShortUInt 10) \<and> table_len args = 1
       \<and> args' ARG_MAX_PRIORITY = Some (ShortShortUInt 255))"

definition queue_args_omit_max_priority_when_priorities_are_off :: bool where
  "queue_args_omit_max_priority_when_priorities_are_off \<longleftrightarrow> (let cfg = set_max_priority 0 (config_of ''emails'') in
     max_priority cfg = None \<and> ARG_MAX_PRIORITY \<notin> dom (queue_args cfg))"

definition queue_args_carry_ttl_and_priority_together :: bool where
  "queue_args_carry_ttl_and_priority_together \<longleftrightarrow> (let cfg = set_max_priority 3 (set_message_ttl (from_secs 5) (config_of ''emails''));
          args = queue_args cfg
      in args ARG_MESSAGE_TTL = Some (LongLongInt 5000) \<and> args ARG_MAX_PRIORITY = Some (ShortShortUInt 3)
       \<and> table_len args = 2)"

definition only_the_main_queue_gets_priorities :: bool where
  "only_the_main_queue_gets_priorities \<longleftrightarrow> (let cfg = config_of ''emails'' in
     ARG_MAX_PRIORITY \<notin> dom (dead_queue_args cfg) \<and> ARG_MAX_PRIORITY \<notin> dom (deferred_queue_args cfg 1000))"

definition sub_millisecond_ttl_rounds_up_to_one :: bool where
  "sub_millisecond_ttl_rounds_up_to_one \<longleftrightarrow> (let cfg = set_message_ttl 1 (config_of ''emails''); args = queue_args cfg in
     args ARG_MESSAGE_TTL = Some (LongLongInt 1))"

definition zero_ttl_is_clamped_to_one_millisecond :: bool where
  "zero_ttl_is_clamped_to_one_millisecond \<longleftrightarrow> (let cfg = set_message_ttl 0 (config_of ''emails''); args = queue_args cfg in
     args ARG_MESSAGE_TTL = Some (LongLongInt 1))"

definition huge_ttl_is_clamped_to_what_rabbitmq_accepts :: bool where
  "huge_ttl_is_clamped_to_what_rabbitmq_accepts \<longleftrightarrow> (let cfg = set_message_ttl duration_max (config_of ''emails''); args = queue_args cfg in
     args ARG_MESSAGE_TTL = Some (LongLongInt (uint MAX_TTL_MS)))"

definition ttl_exactly_at_the_limit_is_kept_verbatim :: bool where
  "ttl_exactly_at_the_limit_is_kept_verbatim \<longleftrightarrow> (let cfg = set_message_ttl (from_millis (unat MAX_TTL_MS)) (config_of ''emails''); args = queue_args cfg in
     args ARG_MESSAGE_TTL = Some (LongLongInt (uint MAX_TTL_MS)))"

definition ttl_one_millisecond_past_the_limit_is_clamped :: bool where
  "ttl_one_millisecond_past_the_limit_is_clamped \<longleftrightarrow> (let cfg = set_message_ttl (from_millis (unat MAX_TTL_MS + 1)) (config_of ''emails''); args = queue_args cfg in
     args ARG_MESSAGE_TTL = Some (LongLongInt (uint MAX_TTL_MS)))"

definition dead_args_are_empty :: bool where
  "dead_args_are_empty \<longleftrightarrow> dead_queue_args (config_of ''emails'') = Map.empty"

section \<open>Deferral\<close>

definition deferred_name_puts_the_ttl_in_the_queue_name :: bool where
  "deferred_name_puts_the_ttl_in_the_queue_name \<longleftrightarrow> deferred_queue_name ''emails'' DEFAULT_DEFERRED_SUFFIX 30000 = ''emails.deferred.30000''
     \<and> deferred_queue_name ''myapp.emails'' DEFAULT_DEFERRED_SUFFIX 1000 = ''myapp.emails.deferred.1000''"

definition deferred_name_honours_a_custom_suffix :: bool where
  "deferred_name_honours_a_custom_suffix \<longleftrightarrow> deferred_queue_name ''q'' ''-hold'' 250 = ''q-hold.250''"

definition deferred_names_differ_per_ttl_which_is_the_whole_point :: bool where
  "deferred_names_differ_per_ttl_which_is_the_whole_point \<longleftrightarrow> (let short = deferred_queue_name ''q'' DEFAULT_DEFERRED_SUFFIX 1000; long = deferred_queue_name ''q'' DEFAULT_DEFERRED_SUFFIX 60000
      in short \<noteq> long)"

definition an_exact_multiple_of_the_granularity_is_kept_verbatim :: bool where
  "an_exact_multiple_of_the_granularity_is_kept_verbatim \<longleftrightarrow> deferred_ttl_ms SECOND SECOND = Some 1000
     \<and> deferred_ttl_ms (from_secs 30) SECOND = Some 30000
     \<and> deferred_ttl_ms (from_millis 750) (from_millis 250) = Some 750"

definition a_partial_step_rounds_up_so_a_job_never_returns_early :: bool where
  "a_partial_step_rounds_up_so_a_job_never_returns_early \<longleftrightarrow> deferred_ttl_ms (from_millis 29200) SECOND = Some 30000
     \<and> deferred_ttl_ms (from_millis 1001) SECOND = Some 2000
     \<and> deferred_ttl_ms (from_millis 1999) SECOND = Some 2000
     \<and> deferred_ttl_ms (1000001 * 1000) SECOND = Some 2000"

definition a_delay_below_the_granularity_becomes_one_step :: bool where
  "a_delay_below_the_granularity_becomes_one_step \<longleftrightarrow> deferred_ttl_ms (from_millis 5) SECOND = Some 1000
     \<and> deferred_ttl_ms 1 SECOND = Some 1000 \<and> deferred_ttl_ms 0 SECOND = Some 1000"

definition a_delay_past_the_cap_is_refused_rather_than_released_early :: bool where
  "a_delay_past_the_cap_is_refused_rather_than_released_early \<longleftrightarrow> deferred_ttl_ms duration_max SECOND = None
     \<and> deferred_ttl_ms (from_secs (30 * 86400)) SECOND = None
     \<and> deferred_ttl_ms (from_millis (unat MAX_DEFERRAL_MS + 1)) SECOND = None"

definition the_cap_itself_is_accepted_at_a_matching_granularity :: bool where
  "the_cap_itself_is_accepted_at_a_matching_granularity \<longleftrightarrow> deferred_ttl_ms (from_millis (unat MAX_DEFERRAL_MS)) (from_millis 1) = Some MAX_DEFERRAL_MS"

definition rounding_up_can_itself_cross_the_cap_and_is_then_refused :: bool where
  "rounding_up_can_itself_cross_the_cap_and_is_then_refused \<longleftrightarrow> (let just_under = from_millis (unat MAX_DEFERRAL_MS - 1)
     in deferred_ttl_ms just_under SECOND = None)"

definition a_zero_granularity_is_clamped_to_one_millisecond_rather_than_panicking :: bool where
  "a_zero_granularity_is_clamped_to_one_millisecond_rather_than_panicking \<longleftrightarrow> deferred_ttl_ms (from_millis 7) 0 = Some 7
     \<and> deferred_ttl_ms 0 0 = Some 1 \<and> deferred_ttl_ms (from_millis 7) 1 = Some 7"

definition an_absurd_granularity_is_clamped_to_the_cap_not_past_it :: bool where
  "an_absurd_granularity_is_clamped_to_the_cap_not_past_it \<longleftrightarrow> deferred_ttl_ms SECOND duration_max = Some MAX_DEFERRAL_MS"

definition deferred_args_hold_for_the_ttl_then_dead_letter_onto_the_main_queue :: bool where
  "deferred_args_hold_for_the_ttl_then_dead_letter_onto_the_main_queue \<longleftrightarrow> (let args = deferred_queue_args (config_of ''myapp.emails'') 30000
     in args ARG_MESSAGE_TTL = Some (LongLongInt 30000) \<and> args ARG_DEAD_LETTER_EXCHANGE = Some (LongString [])
      \<and> args ARG_DEAD_LETTER_ROUTING_KEY = Some (LongString ''myapp.emails'')
      \<and> args ARG_EXPIRES = Some (LongLongInt 60000) \<and> table_len args = 4)"

definition deferred_args_depend_only_on_the_hold_queue_name :: bool where
  "deferred_args_depend_only_on_the_hold_queue_name \<longleftrightarrow> (let one = set_prefetch 1 (set_message_ttl (from_secs 99) (config_of ''q''));
          two = set_prefetch 200 (set_max_priority 0 (config_of ''q''))
      in deferred_queue_args one 1000 = deferred_queue_args two 1000)"

definition expires_is_always_strictly_greater_than_the_ttl :: bool where
  "expires_is_always_strictly_greater_than_the_ttl \<longleftrightarrow> list_all (\<lambda>ttl. case deferred_queue_args (config_of ''q'') ttl ARG_EXPIRES of
         Some (LongLongInt expires) \<Rightarrow> uint ttl < expires \<and> expires \<le> uint MAX_TTL_MS
       | _ \<Rightarrow> False) [1, 1000, 30000, MAX_DEFERRAL_MS]"

definition expires_is_clamped_when_doubling_the_ttl_would_overflow :: bool where
  "expires_is_clamped_when_doubling_the_ttl_would_overflow \<longleftrightarrow> (let args = deferred_queue_args (config_of ''q'') MAX_TTL_MS
     in args ARG_EXPIRES = Some (LongLongInt (uint MAX_TTL_MS)))"

definition deferred_args_never_carry_a_queue_ttl_of_their_own_from_the_config :: bool where
  "deferred_args_never_carry_a_queue_ttl_of_their_own_from_the_config \<longleftrightarrow> (let cfg = set_message_ttl (from_secs 99) (config_of ''q''); args = deferred_queue_args cfg 2000
     in args ARG_MESSAGE_TTL = Some (LongLongInt 2000))"

definition declare_options_are_shared_and_never_auto_delete :: bool where
  "declare_options_are_shared_and_never_auto_delete \<longleftrightarrow> (let d = declare_options True in
     opt_durable d \<and> \<not> auto_delete d \<and> \<not> exclusive d \<and> \<not> opt_passive d \<and> \<not> nowait d
     \<and> \<not> opt_durable (declare_options False))"

section \<open>They hold\<close>

lemmas table_defs = config_of_def plain_config_def queue_config_new_def builder_defs queue_args_def dead_queue_args_def
  deferred_queue_args_def ttl_millis_def i64_try_from_def arg_defs DEFAULT_MAX_PRIORITY_def

lemmas ttl_defs = deferred_ttl_ms_def clamp_def millis_ceil_def div_ceil_def saturating_mul_u128_def duration_max_def
  from_secs_def from_millis_def nanos_per_sec_def nanos_per_milli_def

lemma MAX_values: "uint MAX_TTL_MS = 4294967295" "uint MAX_DEFERRAL_MS = 2147483647"
  by (simp_all add: MAX_TTL_MS_def MAX_DEFERRAL_MS_def uint_div)

lemma MAX_DEFERRAL_value: "MAX_DEFERRAL_MS = 2147483647"
  by (rule word_unat_eq_iff [THEN iffD2]) simp

lemma name_tests_pass:
  "dead_name_without_prefix" "dead_name_with_prefix" "custom_suffixes_are_honoured" "deferred_name_puts_the_ttl_in_the_queue_name" "deferred_name_honours_a_custom_suffix" "deferred_names_differ_per_ttl_which_is_the_whole_point"
  by (simp_all add: dead_name_without_prefix_def dead_name_with_prefix_def custom_suffixes_are_honoured_def deferred_name_puts_the_ttl_in_the_queue_name_def deferred_name_honours_a_custom_suffix_def deferred_names_differ_per_ttl_which_is_the_whole_point_def
      dead_queue_name_def DEFAULT_DEAD_SUFFIX_def deferred_queue_name_def DEFAULT_DEFERRED_SUFFIX_def show_nat.simps Let_def)

lemma argument_tests_pass:
  "queue_args_are_empty_without_ttl_or_priorities" "queue_args_carry_message_ttl" "queue_args_carry_max_priority_when_the_queue_has_priorities" "queue_args_omit_max_priority_when_priorities_are_off" "queue_args_carry_ttl_and_priority_together" "only_the_main_queue_gets_priorities" "dead_args_are_empty"
  by (simp_all add: queue_args_are_empty_without_ttl_or_priorities_def queue_args_carry_message_ttl_def queue_args_carry_max_priority_when_the_queue_has_priorities_def queue_args_omit_max_priority_when_priorities_are_off_def queue_args_carry_ttl_and_priority_together_def only_the_main_queue_gets_priorities_def dead_args_are_empty_def
      table_defs table_len_def from_secs_def nanos_per_sec_def clamp_def div_ceil_def Let_def word_less_nat_alt)

lemma ttl_argument_tests_pass:
  "sub_millisecond_ttl_rounds_up_to_one" "zero_ttl_is_clamped_to_one_millisecond" "huge_ttl_is_clamped_to_what_rabbitmq_accepts" "ttl_exactly_at_the_limit_is_kept_verbatim" "ttl_one_millisecond_past_the_limit_is_clamped"
  by (simp_all add: sub_millisecond_ttl_rounds_up_to_one_def zero_ttl_is_clamped_to_one_millisecond_def huge_ttl_is_clamped_to_what_rabbitmq_accepts_def ttl_exactly_at_the_limit_is_kept_verbatim_def ttl_one_millisecond_past_the_limit_is_clamped_def
      table_defs MAX_values clamp_def div_ceil_def duration_max_def nanos_per_sec_def from_millis_def nanos_per_milli_def Let_def)

lemma ttl_tests_pass:
  "an_exact_multiple_of_the_granularity_is_kept_verbatim" "a_partial_step_rounds_up_so_a_job_never_returns_early" "a_delay_below_the_granularity_becomes_one_step" "a_delay_past_the_cap_is_refused_rather_than_released_early" "the_cap_itself_is_accepted_at_a_matching_granularity" "rounding_up_can_itself_cross_the_cap_and_is_then_refused" "a_zero_granularity_is_clamped_to_one_millisecond_rather_than_panicking" "an_absurd_granularity_is_clamped_to_the_cap_not_past_it"
  by (simp_all add: an_exact_multiple_of_the_granularity_is_kept_verbatim_def a_partial_step_rounds_up_so_a_job_never_returns_early_def a_delay_below_the_granularity_becomes_one_step_def a_delay_past_the_cap_is_refused_rather_than_released_early_def the_cap_itself_is_accepted_at_a_matching_granularity_def rounding_up_can_itself_cross_the_cap_and_is_then_refused_def a_zero_granularity_is_clamped_to_one_millisecond_rather_than_panicking_def an_absurd_granularity_is_clamped_to_the_cap_not_past_it_def
      ttl_defs MAX_DEFERRAL_value Let_def)

lemma hold_argument_tests_pass:
  "deferred_args_hold_for_the_ttl_then_dead_letter_onto_the_main_queue" "deferred_args_depend_only_on_the_hold_queue_name" "expires_is_always_strictly_greater_than_the_ttl" "expires_is_clamped_when_doubling_the_ttl_would_overflow" "deferred_args_never_carry_a_queue_ttl_of_their_own_from_the_config"
  by (simp_all add: deferred_args_hold_for_the_ttl_then_dead_letter_onto_the_main_queue_def deferred_args_depend_only_on_the_hold_queue_name_def expires_is_always_strictly_greater_than_the_ttl_def expires_is_clamped_when_doubling_the_ttl_would_overflow_def deferred_args_never_carry_a_queue_ttl_of_their_own_from_the_config_def
      table_defs table_len_def MAX_values Let_def)

lemma option_tests_pass:
  "declare_options_are_shared_and_never_auto_delete"
  by (simp_all add: declare_options_are_shared_and_never_auto_delete_def
      declare_options_def)

end
