(* ===== verification/Spec2Isabelle.thy ===== *)
theory Spec2Isabelle
  imports Worker_System Rmq_Transport Job_Derive Rmq_Findings Retry_Json
    Retry_Tests Core_Tests Memory_Tests Producer_Tests Worker_Tests Rmq_Tests
begin

text \<open>
  \<^bold>\<open>Verification of queuey\<close>, a typed job queue: \<open>crates/core\<close> (jobs, queues, retry policies, envelopes,
  producer, worker, in-memory backend), \<open>crates/rabbitmq\<close> (the backend over RabbitMQ) and \<open>crates/macros\<close>
  (the derive macros an application declares its queues and jobs with).

  \<^bold>\<open>Parts and theories.\<close>

  \<^item> \<open>Prelude\<close>, \<open>Durations\<close>, \<open>F64\<close>: collections of rules, lists and decimal numbers; \<open>Duration\<close> as nanoseconds
    with its saturating operations; the IEEE arithmetic the backoff uses.
  \<^item> \<open>Retry\<close> (\<open>core/src/retry.rs\<close>): backoff, retry policies, the decision after an attempt.
  \<^item> \<open>Queue_Config\<close> (\<open>queue.rs\<close>), \<open>Job_Error\<close> (\<open>error.rs\<close>), \<open>Envelope\<close> and \<open>Envelope_Properties\<close>
    (\<open>envelope.rs\<close>, \<open>job.rs\<close>), \<open>Job_Context\<close> (\<open>handler.rs\<close>, \<open>dead_letter.rs\<close>).
  \<^item> \<open>Memory_State\<close>, \<open>Memory_Steps\<close> (\<open>memory.rs\<close>): the shared state with its critical sections, and the
    machine that interleaves them. \<open>Memory_Invariants\<close>, \<open>Memory_Conservation\<close>, \<open>Memory_Properties\<close>: what
    holds in every reachable state and over every run.
  \<^item> \<open>Backend_Spec\<close> (\<open>backend.rs\<close>): the traits \<open>Backend\<close> and \<open>Delivery\<close> as records of functions, and their
    contract as two locales, \<open>at_least_once\<close> and the stronger \<open>transport\<close>. Interpreted on both backends.
  \<^item> \<open>Producer\<close> (\<open>producer.rs\<close>), \<open>Worker_Dispatch\<close>, \<open>Worker_Properties\<close>, \<open>Worker_Build\<close>, \<open>Worker_Run\<close>
    (\<open>worker.rs\<close>): enqueueing; one delivery from decoding to its settlement; the builder; the run loop as a
    step relation with its shutdown. Their lemmas about the backend are proved in the contract.
    \<open>Worker_System\<close>: a worker composed with the in-memory backend, as one step relation.
  \<^item> \<open>Topology\<close> (\<open>rabbitmq/src/topology.rs\<close>), \<open>Codec\<close> (\<open>codec.rs\<close>), \<open>Rmq_Error\<close> (\<open>error.rs\<close>),
    \<open>Reconnect\<close> (\<open>reconnect.rs\<close>), \<open>Rmq_Options\<close> (\<open>options.rs\<close>): the pure parts of the RabbitMQ backend.
  \<^item> \<open>Confirm_Pool\<close> (\<open>ConfirmChannels\<close> of \<open>publisher.rs\<close>): the pool of publishing channels, with any number
    of publishers at once.
  \<^item> \<open>Rmq_World\<close>: the client library as a parameter, the shared state, computations and the reasoning about
    their log. \<open>Rmq_Connection\<close> (\<open>connection.rs\<close>), \<open>Rmq_Publisher\<close> (\<open>publisher.rs\<close>), \<open>Rmq_Delivery\<close>
    (\<open>delivery.rs\<close>), \<open>Rmq_Consumer\<close> and \<open>Rmq_Backend\<close> (\<open>backend.rs\<close>): the operations.
    \<open>Rmq_Properties\<close>: what they promise. \<open>Rmq_Transport\<close>: the backend provides \<open>at_least_once\<close>, so the
    producer and the worker over it keep the contract. \<open>Rmq_Findings\<close>: three runs the documentation does not tell.
  \<^item> \<open>Duration_Literal\<close> (\<open>macros/src/duration.rs\<close>), \<open>Macro_Attrs\<close> (\<open>attrs.rs\<close>), \<open>Queues_Derive\<close> (\<open>queues.rs\<close>),
    \<open>Job_Derive\<close> (\<open>job.rs\<close>): the grammar of the attributes and the two derives, from the item \<open>syn\<close> has
    parsed to the queue set and the job the generated code is. \<open>Job_Derive\<close> ends with a worker over them.
  \<^item> \<open>Retry_Json\<close>: the JSON form of a retry policy, with its round trip.
  \<^item> \<open>Test_Support\<close> (\<open>test_support.rs\<close>), \<open>Retry_Tests\<close>, \<open>Core_Tests\<close>, \<open>Memory_Tests\<close>, \<open>Producer_Tests\<close>,
    \<open>Worker_Harness\<close>, \<open>Worker_Tests\<close>, \<open>Topology_Tests\<close>, \<open>Rmq_Tests\<close>: the unit tests of the sources, each a
    definition with the name of the test that comes to the conjunction of its assertions (for \<open>memory.rs\<close>,
    \<open>producer.rs\<close> and \<open>worker.rs\<close> a program that is run against the machine, on a schedule of the
    single-threaded runtime), and the proof that the model passes it. They tie the definitions to what the
    authors expect of the code, on every branch the tests reach.

  \<^bold>\<open>How state and code correspond.\<close> A struct is a record, an enum a datatype, a \<open>Result\<close> a sum (\<open>Inl\<close> the
  error), an integer a word of its width; \<open>usize\<close> counters and durations are natural numbers, with the
  saturation or check of the source written out. Strings are lists of bytes. User code (handlers, hooks,
  policies) is a function to what awaiting it yields: a value, a panic, or nothing, because it waits for ever
  or because it never comes to an await, so that not even an abort ends it.

  In the in-memory backend one event is one hold of the mutex, or one await, of one task; the events of all
  tasks interleave freely. Dropping a stream (closing its channel, taking what is unread, putting it back)
  is one event, where the source has three that no other task can tell apart but by the queue's length.

  The RabbitMQ operations are functions over a world: each call of the client library is a function of the
  record \<open>lapin\<close> of which nothing is assumed, and after each call any finite list of actions of the
  backend's other tasks happens (\<open>l_others\<close>). So what is proved holds for every broker, every failure and
  every interleaving at an await. \<open>log\<close> records the calls and replies; most properties speak of what an
  operation adds to it. A computation is \<open>None\<close> when it never comes back; what must come back is proved to
  (\<open>bounded_reconnection_comes_back\<close>, \<open>exponential_backoff_total_and_capped\<close>, \<open>draining_terminates\<close>,
  \<open>close_stops_every_consumer\<close>), the rest of the theorems say what holds when it does.

  \<^bold>\<open>What the lemmas show.\<close> Each theory states its property in the text block before the theorem. In short:
  no job is lost or duplicated by the in-memory backend while it is open, and over RabbitMQ a job is settled
  only after what replaces it was confirmed; a delivery is settled once, with the verdict the documentation
  prescribes; attempts, deferrals, priorities and delays are what the policies say; limits (prefetch,
  concurrency, channel pool, name lengths, delays) are kept; shutdown processes what was pulled and ends;
  what the derive macros accept is a lawful queue set with configurations and policies that make sense.

  \<^bold>\<open>Bounds and fuel.\<close> No operation is cut off by fuel. The two loops of the RabbitMQ backend that may go on
  for ever, reconnecting and polling a stream, are \<open>repeat_io\<close>, a partial function; the loops of the
  in-memory backend are steps of its machine.

  \<^bold>\<open>Not modelled.\<close> Tracing; \<open>Debug\<close> output; the JSON text of an envelope and the text of a UUID, which are
  parameters (\<open>wire\<close>) with the law that an id, and a document without floats, reads back from what was printed;
  an \<open>Instant\<close> that overflows (\<open>schedule\<close> and \<open>hold\<close> of \<open>memory.rs\<close> panic when the delay takes the deadline beyond
  what the clock can hold; the model's clock has no end); the cancellation of a future in
  the middle of a RabbitMQ operation (a dropped call does not run its remaining steps, a prefix of the run
  modelled); unwinding out of user callbacks beyond the point where the source catches it; the spans of
  macro errors, which only place them, and the paths the generated code names the core crate with
  (they are resolved, and then all mean it); identifiers of variants outside ASCII; a minus sign before a zero; the facade crate and the
  crate roots, which re-export; read-only accessors of the worker and its handle that return a field of
  the state. Of the unit tests: the multi-threaded one of \<open>memory.rs\<close>, whose claim is
  \<open>deferred_counts_live_holds\<close> for every interleaving; those of \<open>worker.rs\<close> with several jobs in flight, a
  shutdown while jobs run, or a hook that looks at the backend, whose claims are \<open>concurrency_and_accounting\<close>,
  \<open>finished_worker_leaves_nothing_behind\<close> and \<open>dispatch_settles_exactly_once\<close>; those of the macros; and
  assertions on \<open>Debug\<close> text. The integration tests need a broker or the compiler.
\<close>

end
